(* ===== verification/Prelude.thy ===== *)
theory Prelude
  imports Main "HOL-Library.Word"
begin

unbundle bit_operations_syntax

text \<open>
  What every component of the development shares.

  \<^item> C values: \<open>byte\<close> is \<^verbatim>\<open>uint8_t\<close>, \<open>u16\<close>, \<open>u32\<close> and \<open>u64\<close> are the fixed-width integers
    kept at their width; lengths and indices are \<open>nat\<close>, return codes \<open>int\<close>.
  \<^item> Memory: a \<open>buf\<close> is one allocated object, its length the allocated size. Every
    access goes through \<open>rd\<close>, \<open>wr\<close>, \<open>memset_c\<close> or \<open>memcpy_c\<close>, which fault when they
    leave the object.
  \<^item> Faults: what the C program does not survive (a failed \<^verbatim>\<open>assert\<close>, an access outside
    an object, a null dereference) is a value \<open>Inl\<close> of the result type \<open>'a res\<close>.
    Error codes that the code returns are ordinary \<open>Inr\<close> results.
  \<^item> Loops: \<open>for_loop is body s\<close> runs \<open>body\<close> over the index values \<open>is\<close> of a
    C \<^verbatim>\<open>for\<close>, threading the mutable state \<open>s\<close>.

  The collections \<open>mem_simps\<close> and \<open>list_ext\<close> hold the rewrite rules of the memory
  operations and of lists indexed by position.
\<close>

named_theorems mem_simps \<open>rewriting of in-range memory accesses\<close>
named_theorems list_ext \<open>lists given by their elements\<close>

section \<open>C values, memory, faults\<close>

type_synonym byte = "8 word"
type_synonym u16 = "16 word"
type_synonym u32 = "32 word"
type_synonym u64 = "64 word"
type_synonym buf = "byte list"

datatype fault =
    Assert_Failed
  | Out_Of_Bounds
  | Null_Deref
  | Bad_State

type_synonym 'a res = "fault + 'a"

fun bind_r :: "'a res \<Rightarrow> ('a \<Rightarrow> 'b res) \<Rightarrow> 'b res" where
  "bind_r (Inl e) f = Inl e"
| "bind_r (Inr x) f = f x"

definition assert_c :: "bool \<Rightarrow> unit res" where
  "assert_c p = (if p then Inr () else Inl Assert_Failed)"

definition rd :: "'a list \<Rightarrow> nat \<Rightarrow> 'a res" where
  "rd b i = (if i < length b then Inr (b ! i) else Inl Out_Of_Bounds)"

definition wr :: "'a list \<Rightarrow> nat \<Rightarrow> 'a \<Rightarrow> 'a list res" where
  "wr b i v = (if i < length b then Inr (b[i := v]) else Inl Out_Of_Bounds)"

definition memset_c :: "buf \<Rightarrow> byte \<Rightarrow> nat \<Rightarrow> buf res" where
  "memset_c d v n =
     (if n \<le> length d then Inr (replicate n v @ drop n d) else Inl Out_Of_Bounds)"

definition memcpy_c :: "buf \<Rightarrow> nat \<Rightarrow> buf \<Rightarrow> nat \<Rightarrow> nat \<Rightarrow> buf res" where
  \<comment> \<open>\<^verbatim>\<open>memcpy(d + doff, s + soff, n)\<close>\<close>
  "memcpy_c d doff s soff n =
     (if doff + n \<le> length d \<and> soff + n \<le> length s
      then Inr (take doff d @ take n (drop soff s) @ drop (doff + n) d)
      else Inl Out_Of_Bounds)"

fun for_loop :: "nat list \<Rightarrow> (nat \<Rightarrow> 's \<Rightarrow> 's res) \<Rightarrow> 's \<Rightarrow> 's res" where
  "for_loop [] f s = Inr s"
| "for_loop (i # is) f s = bind_r (f i s) (for_loop is f)"

definition deref :: "'a option \<Rightarrow> 'a res" where
  "deref p = (case p of None \<Rightarrow> Inl Null_Deref | Some x \<Rightarrow> Inr x)"

section \<open>Shared lemmas\<close>

lemma bind_r_Inr_iff: "bind_r m f = Inr y \<longleftrightarrow> (\<exists>x. m = Inr x \<and> f x = Inr y)"
  by (cases m) auto

lemma bind_r_assoc: "bind_r (bind_r m f) g = bind_r m (\<lambda>x. bind_r (f x) g)"
  by (cases m) auto

lemma assert_c_True [mem_simps]: "p \<Longrightarrow> assert_c p = Inr ()"
  by (simp add: assert_c_def)

lemma assert_c_False [mem_simps]: "\<not> p \<Longrightarrow> assert_c p = Inl Assert_Failed"
  by (simp add: assert_c_def)

lemma rd_in [mem_simps]: "i < length b \<Longrightarrow> rd b i = Inr (b ! i)"
  by (simp add: rd_def)

lemma wr_in [mem_simps]: "i < length b \<Longrightarrow> wr b i v = Inr (b[i := v])"
  by (simp add: wr_def)

lemma memset_in [mem_simps]: "n \<le> length d \<Longrightarrow> memset_c d v n = Inr (replicate n v @ drop n d)"
  by (simp add: memset_c_def)

lemma memcpy_in [mem_simps]:
  "doff + n \<le> length d \<Longrightarrow> soff + n \<le> length s \<Longrightarrow>
     memcpy_c d doff s soff n = Inr (take doff d @ take n (drop soff s) @ drop (doff + n) d)"
  by (simp add: memcpy_c_def)

lemma deref_Some [simp]: "deref (Some x) = Inr x"
  by (simp add: deref_def)

lemma deref_None [simp]: "deref None = Inl Null_Deref"
  by (simp add: deref_def)

lemma deref_Inr_iff: "deref p = Inr x \<longleftrightarrow> p = Some x"
  by (cases p) simp_all

lemma for_loop_append: "for_loop (xs @ ys) f s = bind_r (for_loop xs f s) (for_loop ys f)"
proof (induction xs arbitrary: s)
  case (Cons x xs)
  then show ?case by (cases "f x s") auto
qed simp

text \<open>
  The rule of a counting loop: an invariant indexed by the number of completed
  iterations.
\<close>

lemma for_loop_upt:
  assumes start: "P 0 s"
    and step: "\<And>i s. i < n \<Longrightarrow> P i s \<Longrightarrow> \<exists>s'. f i s = Inr s' \<and> P (Suc i) s'"
  shows "\<exists>s'. for_loop [0..<n] f s = Inr s' \<and> P n s'"
proof -
  have "k \<le> n \<Longrightarrow> \<exists>s'. for_loop [0..<k] f s = Inr s' \<and> P k s'" for k
  proof (induction k)
    case 0
    then show ?case using start by simp
  next
    case (Suc k)
    then obtain s' where "for_loop [0..<k] f s = Inr s'" "P k s'" by auto
    moreover obtain s'' where "f k s' = Inr s''" "P (Suc k) s''"
      using step [of k s'] Suc.prems \<open>P k s'\<close> by auto
    ultimately show ?case by (simp add: for_loop_append)
  qed
  then show ?thesis by blast
qed

lemma list_eqI [list_ext]:
  "length xs = length ys \<Longrightarrow> (\<And>i. i < length ys \<Longrightarrow> xs ! i = ys ! i) \<Longrightarrow> xs = ys"
  by (simp add: list_eq_iff_nth_eq)

lemma take_append_drop_upd:
  "i < n \<Longrightarrow> n \<le> length xs \<Longrightarrow> take n (xs[i := v]) @ drop n xs = xs[i := v]"
  by (metis append_take_drop_id drop_update_cancel)

lemma map_nth_take: "n \<le> length xs \<Longrightarrow> map ((!) xs) [0..<n] = take n xs"
  by (simp add: list_eq_iff_nth_eq)

lemma byte_bit_out [simp]: "8 \<le> n \<Longrightarrow> \<not> bit (x::byte) n"
  using bit_imp_le_length [of x n] by auto

text \<open>A loop whose body stores one value per index fills a stretch of the object.\<close>

lemma for_loop_fill:
  assumes body: "\<And>i d. a \<le> i \<Longrightarrow> i < n \<Longrightarrow> f i d = wr d i (h i)"
    and n: "n \<le> length dst" and a: "a \<le> n"
  shows "for_loop [a..<n] f dst = Inr (take a dst @ map h [a..<n] @ drop n dst)"
proof -
  have "for_loop [a..<a + k] f dst = Inr (take a dst @ map h [a..<a + k] @ drop (a + k) dst)"
    if "a + k \<le> n" for k
    using that
  proof (induction k)
    case (Suc k)
    then have k: "a + k < length dst" using n by simp
    then have "drop (a + k) dst = dst ! (a + k) # drop (Suc (a + k)) dst"
      by (simp add: Cons_nth_drop_Suc)
    then show ?case using Suc n a
      by (simp add: for_loop_append body wr_def list_update_append)
  qed simp
  from this [of "n - a"] show ?thesis using a by simp
qed

end
