(* ===== verification/World.thy ===== *)
theory World
  imports Prelude
begin

text \<open>
  What the program reaches outside its own memory, as an explicit state that every stateful
  definition takes and returns: open files, datagram sockets, the memory allocator, the
  cycle counter and the random numbers, the benchmark counters
  (\<^verbatim>\<open>include/osmocom/gapk/benchmark.h\<close>), and a component \<open>w_ext\<close> for the state of the
  libraries that are not part of the repository (codecs, ALSA).

  The calls of the C library that the source uses are modelled on it: \<^verbatim>\<open>fread\<close>, \<^verbatim>\<open>fwrite\<close>,
  \<^verbatim>\<open>read\<close> and \<^verbatim>\<open>write\<close> on a socket, allocation with its failures. The outcome of an
  allocation is taken from the list \<open>w_mem\<close>; after its end every allocation succeeds.
\<close>

section \<open>Error numbers\<close>

definition EAGAIN :: int where [simp, code_unfold]: "EAGAIN = 11"
definition ENOMEM :: int where [simp, code_unfold]: "ENOMEM = 12"
definition EINVAL :: int where [simp, code_unfold]: "EINVAL = 22"
definition ENOSPC :: int where [simp, code_unfold]: "ENOSPC = 28"
definition EPIPE :: int where [simp, code_unfold]: "EPIPE = 32"
definition ENOTSUP :: int where [simp, code_unfold]: "ENOTSUP = 95"

section \<open>State\<close>

text \<open>An open \<^verbatim>\<open>FILE\<close>: contents, position, and the room left on its device (\<open>None\<close>: no limit).\<close>

record file_obj =
  fl_data :: buf
  fl_pos :: nat
  fl_room :: "nat option"

text \<open>
  A datagram socket: what the coming calls of \<^verbatim>\<open>read\<close> deliver (\<open>None\<close> is an error; after the
  end of the list every call fails), the datagrams written, and how many bytes of a
  datagram the coming writes take (after the end of the list all of them).
\<close>

record sock =
  so_rx :: "buf option list"
  so_tx :: "buf list"
  so_wr :: "int list"

record bench_cycles =
  bc_enc :: "nat \<Rightarrow> u64"
  bc_enc_used :: nat
  bc_dec :: "nat \<Rightarrow> u64"
  bc_dec_used :: nat

record 'x world =
  w_files :: "nat \<Rightarrow> file_obj"
  w_socks :: "nat \<Rightarrow> sock"
  w_mem :: "bool list"
  w_allocs :: nat   \<comment> \<open>allocations made so far\<close>
  w_live :: int     \<comment> \<open>allocations minus releases\<close>
  w_junk :: "nat \<Rightarrow> nat \<Rightarrow> byte"  \<comment> \<open>contents of fresh memory, by allocation and offset\<close>
  w_clock :: "u64 list"
  w_rand :: "u32 list"
  w_bench :: "nat \<Rightarrow> bench_cycles option"
  w_ext :: 'x

section \<open>Allocation, clock, random numbers\<close>

definition alloc :: "'x world \<Rightarrow> bool \<times> 'x world" where
  "alloc w =
     (case w_mem w of
        False # ms \<Rightarrow> (False, w\<lparr>w_mem := ms\<rparr>)
      | ms \<Rightarrow> (True, w\<lparr>w_mem := tl ms, w_allocs := w_allocs w + 1, w_live := w_live w + 1\<rparr>))"

definition release :: "'x world \<Rightarrow> 'x world" where
  "release w = w\<lparr>w_live := w_live w - 1\<rparr>"

definition fresh_bytes :: "'x world \<Rightarrow> nat \<Rightarrow> buf" where
  \<comment> \<open>the uninitialised contents of the object allocated last\<close>
  "fresh_bytes w n = map (w_junk w (w_allocs w)) [0..<n]"

definition get_cycles :: "'x world \<Rightarrow> u64 \<times> 'x world" where
  "get_cycles w =
     (case w_clock w of [] \<Rightarrow> (0, w) | c # cs \<Rightarrow> (c, w\<lparr>w_clock := cs\<rparr>))"

definition random_c :: "'x world \<Rightarrow> u32 \<times> 'x world" where
  "random_c w = (case w_rand w of [] \<Rightarrow> (0, w) | r # rs \<Rightarrow> (r, w\<lparr>w_rand := rs\<rparr>))"

section \<open>Files\<close>

text \<open>
  \<^verbatim>\<open>fread(out, n, 1, f)\<close>: one whole block, or the bytes there are and the result 0. The
  destination must have room for the block.
\<close>

definition fread_f :: "file_obj \<Rightarrow> nat \<Rightarrow> buf \<Rightarrow> (int \<times> buf \<times> file_obj) res" where
  "fread_f f n out =
     (let chunk = take n (drop (fl_pos f) (fl_data f))
      in if n = 0 then Inr (0, out, f)
         else if length out < n then Inl Out_Of_Bounds
         else Inr (of_bool (length chunk = n), chunk @ drop (length chunk) out,
                   f\<lparr>fl_pos := fl_pos f + length chunk\<rparr>))"

text \<open>\<^verbatim>\<open>fwrite(in, n, 1, f)\<close> of the first \<open>n\<close> bytes of an object, at the end of the file.\<close>

definition fwrite_f :: "file_obj \<Rightarrow> nat \<Rightarrow> buf \<Rightarrow> (int \<times> file_obj) res" where
  "fwrite_f f n inp =
     (if n = 0 then Inr (0, f)
      else if length inp < n then Inl Out_Of_Bounds
      else
        (let k = (case fl_room f of None \<Rightarrow> n | Some r \<Rightarrow> min r n)
         in Inr (of_bool (k = n),
                 f\<lparr>fl_data := fl_data f @ take k inp, fl_pos := fl_pos f + k,
                   fl_room := map_option (\<lambda>r. r - k) (fl_room f)\<rparr>)))"

definition fread_c :: "nat \<Rightarrow> nat \<Rightarrow> buf \<Rightarrow> 'x world \<Rightarrow> (int \<times> buf \<times> 'x world) res" where
  "fread_c fh n out w =
     bind_r (fread_f (w_files w fh) n out) (\<lambda>(rv, out, f).
     Inr (rv, out, w\<lparr>w_files := (w_files w)(fh := f)\<rparr>))"

definition fwrite_c :: "nat \<Rightarrow> nat \<Rightarrow> buf \<Rightarrow> 'x world \<Rightarrow> (int \<times> 'x world) res" where
  "fwrite_c fh n inp w =
     bind_r (fwrite_f (w_files w fh) n inp) (\<lambda>(rv, f).
     Inr (rv, w\<lparr>w_files := (w_files w)(fh := f)\<rparr>))"

section \<open>Sockets\<close>

text \<open>\<^verbatim>\<open>read(fd, buf, n)\<close> of one datagram: the bytes that fit, the rest is lost.\<close>

definition sock_read :: "nat \<Rightarrow> nat \<Rightarrow> 'x world \<Rightarrow> (int \<times> buf \<times> 'x world)" where
  "sock_read fd n w =
     (let s = w_socks w fd
      in case so_rx s of
           [] \<Rightarrow> (-1, [], w)
         | d # ds \<Rightarrow>
             (let w = w\<lparr>w_socks := (w_socks w)(fd := s\<lparr>so_rx := ds\<rparr>)\<rparr>
              in case d of None \<Rightarrow> (-1, [], w)
                 | Some p \<Rightarrow> (int (length (take n p)), take n p, w)))"

text \<open>\<^verbatim>\<open>write(fd, buf, n)\<close>: the datagram goes out whole, or the call reports something else.\<close>

definition sock_write :: "nat \<Rightarrow> buf \<Rightarrow> 'x world \<Rightarrow> (int \<times> 'x world)" where
  "sock_write fd p w =
     (let s = w_socks w fd
      in case so_wr s of
           [] \<Rightarrow> (int (length p), w\<lparr>w_socks := (w_socks w)(fd := s\<lparr>so_tx := so_tx s @ [p]\<rparr>)\<rparr>)
         | r # rs \<Rightarrow>
             (r, w\<lparr>w_socks := (w_socks w)
                    (fd := s\<lparr>so_tx := so_tx s @ (if r = int (length p) then [p] else []), so_wr := rs\<rparr>)\<rparr>))"

section \<open>Lemmas\<close>

lemma alloc_ok [simp]: "w_mem w = [] \<Longrightarrow>
  alloc w = (True, w\<lparr>w_allocs := w_allocs w + 1, w_live := w_live w + 1\<rparr>)"
  by (simp add: alloc_def)

lemma alloc_live: "alloc w = (ok, w') \<Longrightarrow> w_live w' = w_live w + of_bool ok"
  by (auto simp: alloc_def split: list.splits bool.splits)

lemma alloc_frame:
  "alloc w = (ok, w') \<Longrightarrow> w_files w' = w_files w \<and> w_socks w' = w_socks w \<and> w_bench w' = w_bench w \<and>
     w_ext w' = w_ext w \<and> w_clock w' = w_clock w \<and> w_rand w' = w_rand w"
  by (auto simp: alloc_def split: list.splits bool.splits)

lemma length_fresh_bytes [simp]: "length (fresh_bytes w n) = n"
  by (simp add: fresh_bytes_def)

lemma release_simps [simp]:
  "w_files (release w) = w_files w" "w_socks (release w) = w_socks w" "w_mem (release w) = w_mem w"
  "w_live (release w) = w_live w - 1" "w_bench (release w) = w_bench w" "w_ext (release w) = w_ext w"
  by (simp_all add: release_def)

lemma fread_f_whole [mem_simps]:
  "0 < n \<Longrightarrow> n \<le> length out \<Longrightarrow> fl_pos f + n \<le> length (fl_data f) \<Longrightarrow>
     fread_f f n out = Inr (1, take n (drop (fl_pos f) (fl_data f)) @ drop n out, f\<lparr>fl_pos := fl_pos f + n\<rparr>)"
  by (simp add: fread_f_def Let_def)

lemma fread_f_end [mem_simps]:
  "n \<le> length out \<Longrightarrow> length (fl_data f) < fl_pos f + n \<Longrightarrow>
     \<exists>out' f'. fread_f f n out = Inr (0, out', f') \<and> length out' = length out"
  by (auto simp: fread_f_def Let_def)

lemma fwrite_f_whole [mem_simps]:
  "0 < n \<Longrightarrow> n \<le> length inp \<Longrightarrow> fl_room f = None \<Longrightarrow>
     fwrite_f f n inp = Inr (1, f\<lparr>fl_data := fl_data f @ take n inp, fl_pos := fl_pos f + n\<rparr>)"
  by (simp add: fwrite_f_def Let_def)

lemma fwrite_f_safe:
  "n \<le> length inp \<Longrightarrow> \<exists>rv f'. fwrite_f f n inp = Inr (rv, f')"
  by (auto simp: fwrite_f_def Let_def)

lemma fread_f_safe:
  "n \<le> length out \<Longrightarrow> \<exists>rv out' f'. fread_f f n out = Inr (rv, out', f') \<and> length out' = length out \<and>
     (rv = 0 \<or> rv = 1)"
  by (auto simp: fread_f_def Let_def)

end
