(* ===== verification/Procqueue.thy ===== *)
theory Procqueue
  imports World
begin

text \<open>
  The processing queue (\<^verbatim>\<open>src/procqueue.c\<close>, \<^verbatim>\<open>include/osmocom/gapk/procqueue.h\<close>): a list of
  items, each with an input and an output length, a private state, an output buffer and
  callbacks. \<open>'s\<close> is the type of the private states behind the \<^verbatim>\<open>void *\<close>, \<open>'w\<close> the type of
  the world the callbacks act on.

  The last section holds the contract of a stage (\<open>stage_ok\<close>) and of a chain of stages
  (\<open>chain_ok\<close>): execution of a chain whose stages keep their contracts never faults, and
  leaves a chain that can be executed again.
\<close>

section \<open>Data\<close>

datatype item_type = TYPE_SOURCE | TYPE_SINK | TYPE_PROC

type_synonym ('s, 'w) proc =
  "'s option \<Rightarrow> buf option \<Rightarrow> buf option \<Rightarrow> nat \<Rightarrow> 'w \<Rightarrow> (int \<times> 's option \<times> buf option \<times> 'w) res"

record ('s, 'w) item =
  it_len_in :: nat
  it_len_out :: nat
  it_state :: "'s option"
  it_buf :: "buf option"
  it_proc :: "('s, 'w) proc option"
  it_wait :: "('s option \<Rightarrow> 'w \<Rightarrow> (int \<times> 'w) res) option"
  it_exit :: "('s option \<Rightarrow> 'w \<Rightarrow> 'w res) option"
  it_type :: item_type
  it_cat_name :: "string option"
  it_sub_name :: "string option"
  it_live :: bool  \<comment> \<open>false once the item has been freed while still linked\<close>

record ('s, 'w) pq =
  pq_items :: "('s, 'w) item list"
  pq_n_items :: nat
  pq_name :: "string option"

text \<open>What \<^verbatim>\<open>talloc_zero\<close> returns; the zero of the enumeration is the source type.\<close>

definition zero_item :: "('s, 'w) item" where
  "zero_item =
     \<lparr>it_len_in = 0, it_len_out = 0, it_state = None, it_buf = None, it_proc = None,
      it_wait = None, it_exit = None, it_type = TYPE_SOURCE, it_cat_name = None,
      it_sub_name = None, it_live = True\<rparr>"

definition VAR_BUF_SIZE :: nat where [simp, code_unfold]: "VAR_BUF_SIZE = 320"

section \<open>Operations\<close>

definition pq_create :: "string option \<Rightarrow> 'x world \<Rightarrow> ('s, 'w) pq option \<times> 'x world" where
  "pq_create name w =
     (case alloc w of
        (False, w) \<Rightarrow> (None, w)
      | (True, w) \<Rightarrow> (Some \<lparr>pq_items = [], pq_n_items = 0, pq_name = name\<rparr>, w))"

text \<open>
  \<open>pq_add_item\<close> answers whether an item was added; it is the last one of the list, where the
  callers fill it in through the returned pointer (\<open>upd_last\<close>). Linking it in writes to the
  old last item.
\<close>

definition pq_add_item :: "('s, 'w) pq \<Rightarrow> 'x world \<Rightarrow> (bool \<times> ('s, 'w) pq \<times> 'x world) res" where
  "pq_add_item pq w =
     (case alloc w of
        (False, w) \<Rightarrow> Inr (False, pq, w)
      | (True, w) \<Rightarrow>
          if pq_items pq \<noteq> [] \<and> \<not> it_live (last (pq_items pq)) then Inl Bad_State
          else Inr (True, pq\<lparr>pq_items := pq_items pq @ [zero_item], pq_n_items := pq_n_items pq + 1\<rparr>, w))"

definition upd_last :: "(('s, 'w) item \<Rightarrow> ('s, 'w) item) \<Rightarrow> ('s, 'w) pq \<Rightarrow> ('s, 'w) pq" where
  "upd_last f pq = pq\<lparr>pq_items := butlast (pq_items pq) @ [f (last (pq_items pq))]\<rparr>"

fun check_lengths :: "('s, 'w) item option \<Rightarrow> ('s, 'w) item list \<Rightarrow> int res" where
  "check_lengths prev [] = Inr 0"
| "check_lengths prev (item # items) =
     (if \<not> it_live item then Inl Bad_State
      else
        case prev of
          Some p \<Rightarrow>
            if it_len_in item \<noteq> 0 \<and> it_len_in item \<noteq> it_len_out p then Inr (- EINVAL)
            else check_lengths (Some item) items
        | None \<Rightarrow> check_lengths (Some item) items)"

text \<open>
  In strict mode the first and the last item are looked at; the list head of an empty queue
  is no item, and reading its type leaves the object.
\<close>

definition pq_check :: "('s, 'w) pq \<Rightarrow> bool \<Rightarrow> int res" where
  "pq_check pq strict =
     bind_r (check_lengths None (pq_items pq)) (\<lambda>rc.
     if rc \<noteq> 0 then Inr rc
     else if strict then
       (case pq_items pq of
          [] \<Rightarrow> Inl Out_Of_Bounds
        | items \<Rightarrow>
            if it_type (hd items) \<noteq> TYPE_SOURCE then Inr (- EINVAL)
            else if it_type (last items) \<noteq> TYPE_SINK then Inr (- EINVAL)
            else Inr 0)
     else Inr 0)"

fun prepare_items :: "('s, 'w) item list \<Rightarrow> 'x world \<Rightarrow> (int \<times> ('s, 'w) item list \<times> 'x world) res" where
  "prepare_items [] w = Inr (0, [], w)"
| "prepare_items (item # items) w =
     (if \<not> it_live item then Inl Bad_State
      else if it_type item = TYPE_SINK then
        bind_r (prepare_items items w) (\<lambda>(rv, items, w). Inr (rv, item # items, w))
      else
        (let buf_size = it_len_out item;
             buf_size = (if buf_size = 0 then VAR_BUF_SIZE else buf_size)
         in case alloc w of
              (False, w) \<Rightarrow> Inr (- ENOMEM, item\<lparr>it_buf := None\<rparr> # items, w)
            | (True, w) \<Rightarrow>
                (let item = item\<lparr>it_buf := Some (fresh_bytes w buf_size)\<rparr>
                 in bind_r (prepare_items items w) (\<lambda>(rv, items, w). Inr (rv, item # items, w)))))"

definition pq_prepare :: "('s, 'w) pq \<Rightarrow> 'x world \<Rightarrow> (int \<times> ('s, 'w) pq \<times> 'x world) res" where
  "pq_prepare pq w =
     bind_r (prepare_items (pq_items pq) w) (\<lambda>(rv, items, w). Inr (rv, pq\<lparr>pq_items := items\<rparr>, w))"

fun exec_items ::
    "buf option \<Rightarrow> nat \<Rightarrow> ('s, 'w) item list \<Rightarrow> 'w \<Rightarrow> (int \<times> ('s, 'w) item list \<times> 'w) res" where
  "exec_items buf_prev len_prev [] w = Inr (0, [], w)"
| "exec_items buf_prev len_prev (item # items) w =
     (if \<not> it_live item then Inl Bad_State
      else
        bind_r (deref (it_proc item)) (\<lambda>p.
        bind_r (p (it_state item) (it_buf item) buf_prev len_prev w) (\<lambda>(rv, st, b, w).
        let item = item\<lparr>it_state := st, it_buf := b\<rparr> in
        if rv < 0 then Inr (rv, item # items, w)
        else
          bind_r (exec_items (it_buf item) (nat rv) items w) (\<lambda>(rv, items, w).
          Inr (rv, item # items, w)))))"

definition pq_execute :: "('s, 'w) pq \<Rightarrow> 'w \<Rightarrow> (int \<times> ('s, 'w) pq \<times> 'w) res" where
  "pq_execute pq w =
     bind_r (exec_items None 0 (pq_items pq) w) (\<lambda>(rv, items, w). Inr (rv, pq\<lparr>pq_items := items\<rparr>, w))"

text \<open>
  Destruction releases the buffer of each item, calls its exit callback and releases the
  item, in the order of the queue, then the queue.
\<close>

fun destroy_items :: "('s, 'x world) item list \<Rightarrow> 'x world \<Rightarrow> 'x world res" where
  "destroy_items [] w = Inr w"
| "destroy_items (item # items) w =
     (if \<not> it_live item then Inl Bad_State
      else
        (let w = (if it_buf item = None then w else release w)
         in bind_r (case it_exit item of None \<Rightarrow> Inr w | Some ex \<Rightarrow> ex (it_state item) w) (\<lambda>w.
            destroy_items items (release w))))"

definition pq_destroy :: "('s, 'x world) pq option \<Rightarrow> 'x world \<Rightarrow> 'x world res" where
  "pq_destroy pq w =
     (case pq of
        None \<Rightarrow> Inr w
      | Some pq \<Rightarrow> bind_r (destroy_items (pq_items pq) w) (\<lambda>w. Inr (release w)))"

definition cstr :: "string option \<Rightarrow> string" where
  "cstr s = (case s of None \<Rightarrow> ''(null)'' | Some s \<Rightarrow> s)"

text \<open>
  \<^verbatim>\<open>talloc_asprintf_append\<close> to a null pointer starts a new string, and returns a null pointer
  when it cannot allocate; \<^verbatim>\<open>talloc_set_name_const\<close> dereferences its argument.
\<close>

fun describe_items ::
    "nat \<Rightarrow> nat \<Rightarrow> ('s, 'w) item list \<Rightarrow> string option \<Rightarrow> 'x world \<Rightarrow> (string option \<times> 'x world) res" where
  "describe_items n i [] result w = Inr (result, w)"
| "describe_items n i (item # items) result w =
     (if \<not> it_live item then Inl Bad_State
      else
        (let s = cstr (it_cat_name item) @ ''/'' @ cstr (it_sub_name item) @
                 (if i + 1 < n then '' -> '' else '''')
         in case alloc w of
              (False, w) \<Rightarrow> describe_items n (i + 1) items None w
            | (True, w) \<Rightarrow>
                describe_items n (i + 1) items (Some (case result of None \<Rightarrow> s | Some r \<Rightarrow> r @ s))
                  (if result = None then w else release w)))"

definition pq_describe :: "('s, 'w) pq \<Rightarrow> 'x world \<Rightarrow> (string option \<times> 'x world) res" where
  "pq_describe pq w =
     (if pq_n_items pq = 0 then Inr (None, w)
      else
        bind_r (describe_items (pq_n_items pq) 0 (pq_items pq) None w) (\<lambda>(result, w).
        bind_r (deref result) (\<lambda>r. Inr (Some r, w))))"

section \<open>Functional behaviour\<close>

definition all_live :: "('s, 'w) item list \<Rightarrow> bool" where
  "all_live items \<longleftrightarrow> list_all it_live items"

lemma all_live_simps [simp]:
  "all_live []" "all_live (i # is) \<longleftrightarrow> it_live i \<and> all_live is"
  "all_live (is @ js) \<longleftrightarrow> all_live is \<and> all_live js"
  by (simp_all add: all_live_def)

text \<open>Two neighbours fit when the second takes variable input or exactly what the first gives.\<close>

definition fits :: "('s, 'w) item \<Rightarrow> ('s, 'w) item \<Rightarrow> bool" where
  "fits p i \<longleftrightarrow> it_len_in i = 0 \<or> it_len_in i = it_len_out p"

lemma check_lengths_spec:
  "all_live items \<Longrightarrow> check_lengths prev items =
     Inr (if (case prev of None \<Rightarrow> True | Some p \<Rightarrow> items = [] \<or> fits p (hd items)) \<and> successively fits items
          then 0 else - EINVAL)"
proof (induction prev items rule: check_lengths.induct)
  case (2 prev item items)
  then show ?case by (cases prev; cases items) (auto simp: fits_def)
qed (simp split: option.splits)

lemma pq_check_spec:
  assumes "all_live (pq_items pq)"
  shows "pq_check pq strict =
    (if \<not> successively fits (pq_items pq) then Inr (- EINVAL)
     else if \<not> strict then Inr 0
     else if pq_items pq = [] then Inl Out_Of_Bounds
     else Inr (if it_type (hd (pq_items pq)) = TYPE_SOURCE \<and> it_type (last (pq_items pq)) = TYPE_SINK
               then 0 else - EINVAL))"
  using assms by (auto simp: pq_check_def check_lengths_spec split: list.splits)

text \<open>The item counter is the length of the list.\<close>

definition pq_wf :: "('s, 'w) pq \<Rightarrow> bool" where
  "pq_wf pq \<longleftrightarrow> pq_n_items pq = length (pq_items pq)"

lemma pq_add_item_cases:
  assumes "pq_add_item pq w = Inr (ok, pq', w')"
  shows "(\<not> ok \<and> pq' = pq \<and> w_live w' = w_live w) \<or>
         (ok \<and> pq_items pq' = pq_items pq @ [zero_item] \<and> pq_n_items pq' = pq_n_items pq + 1 \<and>
          pq_name pq' = pq_name pq \<and> w_live w' = w_live w + 1)"
  using assms
  by (auto simp: pq_add_item_def split: prod.splits bool.splits if_splits dest: alloc_live)

lemma pq_add_item_ok:
  "w_mem w = [] \<Longrightarrow> all_live (pq_items pq) \<Longrightarrow>
     pq_add_item pq w =
       Inr (True, pq\<lparr>pq_items := pq_items pq @ [zero_item], pq_n_items := pq_n_items pq + 1\<rparr>,
            w\<lparr>w_allocs := w_allocs w + 1, w_live := w_live w + 1\<rparr>)"
  by (cases "pq_items pq" rule: rev_cases) (simp_all add: pq_add_item_def)

lemma upd_last_snoc [simp]:
  "upd_last f (pq\<lparr>pq_items := is @ [i], pq_n_items := n\<rparr>) = pq\<lparr>pq_items := is @ [f i], pq_n_items := n\<rparr>"
  by (simp add: upd_last_def)

definition buf_size :: "('s, 'w) item \<Rightarrow> nat" where
  "buf_size item = (if it_len_out item = 0 then VAR_BUF_SIZE else it_len_out item)"

definition prepared :: "('s, 'w) item \<Rightarrow> ('s, 'w) item \<Rightarrow> bool" where
  "prepared i j \<longleftrightarrow> (\<exists>b. j = i\<lparr>it_buf := b\<rparr> \<and>
     (if it_type i = TYPE_SINK then b = it_buf i else \<exists>d. b = Some d \<and> length d = buf_size i))"

lemma preparedD:
  assumes "prepared item item'"
  shows "item' = item\<lparr>it_buf := it_buf item'\<rparr> \<and>
         (if it_type item = TYPE_SINK then it_buf item' = it_buf item
          else \<exists>d. it_buf item' = Some d \<and> length d = (if it_len_out item = 0 then 320 else it_len_out item))"
proof -
  obtain b where b: "item' = item\<lparr>it_buf := b\<rparr>"
        "if it_type item = TYPE_SINK then b = it_buf item else \<exists>d. b = Some d \<and> length d = buf_size item"
      using assms unfolding prepared_def by blast
  have e: "it_buf item' = b" unfolding b(1) by simp
  show ?thesis unfolding e using b(2) unfolding buf_size_def VAR_BUF_SIZE_def by (intro conjI b(1))
qed

lemma prepare_items_spec:
  assumes "prepare_items items w = Inr (rv, items', w')"
  shows "(rv = 0 \<or> rv = - ENOMEM) \<and> length items' = length items \<and>
    w_files w' = w_files w \<and> w_socks w' = w_socks w \<and> w_bench w' = w_bench w \<and> w_ext w' = w_ext w \<and>
    (rv = 0 \<longrightarrow> list_all2 prepared items items')"
  using assms
proof (induction items w arbitrary: rv items' w' rule: prepare_items.induct)
  case (2 item items w)
  show ?case
  proof (cases "it_type item = TYPE_SINK")
    case True
    then obtain its where "prepare_items items w = Inr (rv, its, w')" "items' = item # its"
      using 2(3) by (auto simp: bind_r_Inr_iff split: if_splits)
    moreover have "prepared item item"
      using True by (auto simp: prepared_def intro!: exI [of _ "it_buf item"])
    ultimately show ?thesis using 2 True by (auto split: if_splits)
  next
    case False
    obtain ok w1 where a: "alloc w = (ok, w1)" by force
    show ?thesis
    proof (cases ok)
      case True
      let ?b = "Some (fresh_bytes w1 (buf_size item))"
      obtain its where its: "prepare_items items w1 = Inr (rv, its, w')"
          "items' = item\<lparr>it_buf := ?b\<rparr> # its" "it_live item"
        using 2(3) False a True
        by (auto simp: bind_r_Inr_iff Let_def buf_size_def split: if_splits)
      have "(rv = 0 \<or> rv = - ENOMEM) \<and> length its = length items \<and>
          w_files w' = w_files w1 \<and> w_socks w' = w_socks w1 \<and> w_bench w' = w_bench w1 \<and>
          w_ext w' = w_ext w1 \<and>
          (rv = 0 \<longrightarrow> list_all2 prepared items its)"
        using 2(2) [of _ _ True w1] its False a True by auto
      moreover have "prepared item (item\<lparr>it_buf := ?b\<rparr>)"
        using False by (auto simp: prepared_def intro!: exI [of _ ?b])
      ultimately show ?thesis using its(2) alloc_frame [OF a] by auto
    next
      case False
      then show ?thesis
        using 2(3) \<open>it_type item \<noteq> TYPE_SINK\<close> a alloc_frame [OF a]
        by (auto simp: Let_def split: if_splits)
    qed
  qed
qed auto

lemma prepare_items_ok:
  "w_mem w = [] \<Longrightarrow> all_live items \<Longrightarrow>
     \<exists>items' w'. prepare_items items w = Inr (0, items', w') \<and> w_mem w' = []"
  by (induction items w rule: prepare_items.induct) (fastforce simp: Let_def)+

section \<open>Description\<close>

fun join :: "'a list \<Rightarrow> 'a list list \<Rightarrow> 'a list" where
  "join sep [] = []"
| "join sep [x] = x"
| "join sep (x # xs) = x @ sep @ join sep xs"

definition label :: "('s, 'w) item \<Rightarrow> string" where
  "label item = cstr (it_cat_name item) @ ''/'' @ cstr (it_sub_name item)"

lemma join_Cons: "xs \<noteq> [] \<Longrightarrow> join sep (x # xs) = x @ sep @ join sep xs"
  by (cases xs) simp_all

lemma describe_items_spec:
  "w_mem w = [] \<Longrightarrow> all_live items \<Longrightarrow> i + length items = n \<Longrightarrow> items \<noteq> [] \<Longrightarrow>
     \<exists>w'. describe_items n i items result w =
       Inr (Some ((case result of None \<Rightarrow> [] | Some r \<Rightarrow> r) @ join '' -> '' (map label items)), w')
       \<and> w_mem w' = []"
proof (induction n i items result w rule: describe_items.induct)
  case (2 n i item items result w)
  show ?case
  proof (cases "items = []")
    case True
    with 2 show ?thesis by (cases result) (auto simp: label_def Let_def)
  next
    case False
    then have "i + 1 < n" using 2(5) by (cases items) auto
    with False 2 show ?thesis by (cases result) (auto simp: label_def Let_def join_Cons)
  qed
qed simp

section \<open>Destruction\<close>

text \<open>
  \<open>owns item k\<close>: the exit callback of the item gives back the \<open>k\<close> allocations of its state.
\<close>

definition owns :: "('s, 'x world) item \<Rightarrow> nat \<Rightarrow> bool" where
  "owns item k \<longleftrightarrow>
     (case it_exit item of
        None \<Rightarrow> k = 0
      | Some ex \<Rightarrow> \<forall>w. \<exists>w'. ex (it_state item) w = Inr w' \<and> w_live w' = w_live w - int k)"

definition footprint :: "('s, 'w) item \<Rightarrow> nat" where
  "footprint item = 1 + of_bool (it_buf item \<noteq> None)"

lemma destroy_items_live:
  "list_all2 owns items ks \<Longrightarrow> all_live items \<Longrightarrow>
     \<exists>w'. destroy_items items w = Inr w' \<and>
       w_live w' = w_live w - int (sum_list (map footprint items) + sum_list ks)"
proof (induction items ks arbitrary: w rule: list_all2_induct)
  case (Cons item items k ks)
  let ?w = "if it_buf item = None then w else release w"
  obtain w1 where w1: "(case it_exit item of None \<Rightarrow> Inr ?w | Some ex \<Rightarrow> ex (it_state item) ?w) = Inr w1"
      "w_live w1 = w_live ?w - int k"
    using Cons.hyps(1) by (cases "it_exit item") (auto simp: owns_def)
  obtain w' where "destroy_items items (release w1) = Inr w'"
      "w_live w' = w_live (release w1) - int (sum_list (map footprint items) + sum_list ks)"
    using Cons.IH [of "release w1"] Cons.prems by auto
  with w1 Cons.prems show ?case by (auto simp: footprint_def [of item] Let_def)
qed simp

section \<open>The contract of a stage, and of a chain\<close>

text \<open>
  A callback is a \<open>stage\<close> when, called in an acceptable state of its own and of the world,
  with room for its output and an input \<open>pre\<close> describes, it does not fault, keeps its state,
  the world and the output object acceptable, and either reports an error or gives an
  output that \<open>post\<close> describes.
\<close>

locale stage =
  fixes p :: "('s, 'w) proc"
    and st_ok :: "'s option \<Rightarrow> bool"
    and world_ok :: "'w \<Rightarrow> bool"
    and room :: "buf option \<Rightarrow> bool"
    and pre post :: "buf option \<Rightarrow> nat \<Rightarrow> bool"
  assumes step: "st_ok st \<Longrightarrow> world_ok w \<Longrightarrow> room out \<Longrightarrow> pre inp n \<Longrightarrow>
    \<exists>rv st' out' w'. p st out inp n w = Inr (rv, st', out', w') \<and>
      st_ok st' \<and> world_ok w' \<and> room out' \<and> (0 \<le> rv \<longrightarrow> post out' (nat rv))"
begin

lemma weaken:
  "(\<And>b n. pre' b n \<Longrightarrow> pre b n) \<Longrightarrow> (\<And>b n. post b n \<Longrightarrow> post' b n) \<Longrightarrow>
     stage p st_ok world_ok room pre' post'"
  by unfold_locales (meson step)

end

text \<open>How the output object is known to have room: it is there, or \<open>pq_prepare\<close> will supply it.\<close>

definition has_room :: "(buf option \<Rightarrow> bool) \<Rightarrow> ('s, 'w) item \<Rightarrow> bool" where
  "has_room room item \<longleftrightarrow> room (it_buf item)"

definition will_have_room :: "(buf option \<Rightarrow> bool) \<Rightarrow> ('s, 'w) item \<Rightarrow> bool" where
  "will_have_room room item \<longleftrightarrow>
     (if it_type item = TYPE_SINK then room (it_buf item)
      else \<forall>d. length d = buf_size item \<longrightarrow> room (Some d))"

text \<open>The usual contracts: an object of at least \<open>m\<close> bytes, and a frame of exactly \<open>m\<close> bytes in it.\<close>

definition holds :: "nat \<Rightarrow> buf option \<Rightarrow> bool" where
  "holds m b \<longleftrightarrow> (\<exists>d. b = Some d \<and> m \<le> length d)"

definition frame :: "nat \<Rightarrow> buf option \<Rightarrow> nat \<Rightarrow> bool" where
  "frame m b n \<longleftrightarrow> n = m \<and> holds m b"

lemma holds_Some [simp]: "holds m (Some d) \<longleftrightarrow> m \<le> length d"
  by (simp add: holds_def)

lemma will_have_room_holds:
  "it_type item \<noteq> TYPE_SINK \<Longrightarrow> m \<le> buf_size item \<Longrightarrow> will_have_room (holds m) item"
  by (simp add: will_have_room_def)

text \<open>
  A chain keeps its contracts for each condition on the world in \<open>Ws\<close>; the private-state
  condition and the lengths do not depend on which.
\<close>

inductive chain_ok ::
    "((buf option \<Rightarrow> bool) \<Rightarrow> ('s, 'w) item \<Rightarrow> bool) \<Rightarrow> ('w \<Rightarrow> bool) set \<Rightarrow>
     (buf option \<Rightarrow> nat \<Rightarrow> bool) \<Rightarrow> ('s, 'w) item list \<Rightarrow> bool" for R Ws where
  chain_Nil: "chain_ok R Ws pre []"
| chain_Cons: "it_live item \<Longrightarrow> it_proc item = Some p \<Longrightarrow>
    (\<forall>W \<in> Ws. stage p st_ok W room pre post) \<Longrightarrow>
    st_ok (it_state item) \<Longrightarrow> R room item \<Longrightarrow> chain_ok R Ws post items \<Longrightarrow>
    chain_ok R Ws pre (item # items)"

inductive_cases chain_ConsE: "chain_ok R Ws pre (item # items)"

inductive_simps chain_Nil_iff [simp]: "chain_ok R Ws pre []"

lemma chain_exec_items:
  assumes "chain_ok has_room Ws pre items" and "W \<in> Ws" and "pre b n" and "W w"
  shows "\<exists>rv items' w'. exec_items b n items w = Inr (rv, items', w') \<and>
    chain_ok has_room Ws pre items' \<and> W w' \<and> rv \<le> 0"
  using assms(1,3,4)
proof (induction pre items arbitrary: b n w rule: chain_ok.induct)
  case (chain_Cons item p st_ok room pre post items)
  then have s: "stage p st_ok W room pre post" using assms(2) by blast
  obtain rv st' out' w' where
    *: "p (it_state item) (it_buf item) b n w = Inr (rv, st', out', w')" "st_ok st'" "W w'" "room out'"
       "0 \<le> rv \<longrightarrow> post out' (nat rv)"
    using stage.step [OF s, of "it_state item" w "it_buf item" b n] chain_Cons
    by (auto simp: has_room_def)
  let ?item = "item\<lparr>it_state := st', it_buf := out'\<rparr>"
  have keep: "chain_ok has_room Ws pre (?item # items')" if "chain_ok has_room Ws post items'" for items'
    using that * chain_Cons.hyps
    by (intro chain_ok.chain_Cons [where p = p and st_ok = st_ok and room = room and post = post])
       (auto simp: has_room_def)
  show ?case
  proof (cases "rv < 0")
    case True
    then show ?thesis using * chain_Cons.hyps keep [of items] by auto
  next
    case False
    then obtain rv' items' w'' where "exec_items out' (nat rv) items w' = Inr (rv', items', w'')"
        "chain_ok has_room Ws post items'" "W w''" "rv' \<le> 0"
      using chain_Cons.IH [of out' "nat rv" w'] * by auto
    then show ?thesis using False * chain_Cons.hyps keep [of items'] by auto
  qed
qed simp

lemma chain_prepared:
  "chain_ok will_have_room Ws pre items \<Longrightarrow> list_all2 prepared items items' \<Longrightarrow>
     chain_ok has_room Ws pre items'"
proof (induction pre items arbitrary: items' rule: chain_ok.induct)
  case (chain_Cons item p st_ok room pre post items)
  then obtain item' its where i: "items' = item' # its" "prepared item item'" "list_all2 prepared items its"
    by (auto simp: list_all2_Cons1)
  then obtain b where b: "item' = item\<lparr>it_buf := b\<rparr>"
      "if it_type item = TYPE_SINK then b = it_buf item else \<exists>d. b = Some d \<and> length d = buf_size item"
    by (auto simp: prepared_def)
  show ?case unfolding i(1)
    using chain_Cons b i(3)
    by (intro chain_ok.chain_Cons [where p = p and st_ok = st_ok and room = room and post = post])
       (auto simp: has_room_def will_have_room_def split: if_splits)
qed simp

lemma chain_live: "chain_ok R Ws pre items \<Longrightarrow> all_live items"
  by (induction rule: chain_ok.induct) auto

end
