(* ===== verification/Bits.thy ===== *)
theory Bits
  imports Prelude
begin

unbundle bit_operations_syntax

text \<open>
  Single-bit access to byte buffers (\<^verbatim>\<open>include/osmocom/gapk/utils.h\<close>), in the two bit orders
  the formats use, and the loop by which the format converters move bits.

  The abstract view of a buffer is the list of its bits, \<open>msb_bits\<close> (most significant bit
  of each byte first) or \<open>lsb_bits\<close>. The locale \<open>bit_buffer\<close> is the contract of an
  accessor pair over such a view: reading is list lookup, writing is list update, both
  fault outside the buffer. It is interpreted for the \<^verbatim>\<open>msb_\<close> and the \<^verbatim>\<open>lsb_\<close> functions. The
  locale \<open>bit_mover\<close> joins a source view and a destination view and proves once what the
  copying loop of a converter does: it puts each bit where the index pairs say.

  The C functions take the bit number as \<^verbatim>\<open>int\<close>; no caller passes a negative one, and it is
  a \<open>nat\<close> here.
\<close>

section \<open>The accessors\<close>

definition msb_get_bit :: "buf \<Rightarrow> nat \<Rightarrow> nat res" where
  "msb_get_bit buf bn =
     (let pos_byte = drop_bit 3 bn;
          pos_bit = 7 - (bn AND 7)
      in bind_r (rd buf pos_byte) (\<lambda>x. Inr (unat (drop_bit pos_bit x AND 1))))"

definition msb_put_bit :: "buf \<Rightarrow> nat \<Rightarrow> nat \<Rightarrow> buf res" where
  "msb_put_bit buf bn b =
     (let pos_byte = drop_bit 3 bn;
          pos_bit = 7 - (bn AND 7)
      in bind_r (rd buf pos_byte) (\<lambda>x.
           if b \<noteq> 0 then wr buf pos_byte (x OR push_bit pos_bit 1)
           else wr buf pos_byte (x AND NOT (push_bit pos_bit 1))))"

definition msb_set_bit :: "buf \<Rightarrow> nat \<Rightarrow> buf res" where
  "msb_set_bit buf bn =
     (let pos_byte = drop_bit 3 bn;
          pos_bit = 7 - (bn AND 7)
      in bind_r (rd buf pos_byte) (\<lambda>x. wr buf pos_byte (x OR push_bit pos_bit 1)))"

definition msb_clr_bit :: "buf \<Rightarrow> nat \<Rightarrow> buf res" where
  "msb_clr_bit buf bn =
     (let pos_byte = drop_bit 3 bn;
          pos_bit = 7 - (bn AND 7)
      in bind_r (rd buf pos_byte) (\<lambda>x. wr buf pos_byte (x AND NOT (push_bit pos_bit 1))))"

definition lsb_get_bit :: "buf \<Rightarrow> nat \<Rightarrow> nat res" where
  "lsb_get_bit buf bn =
     (let pos_byte = drop_bit 3 bn;
          pos_bit = bn AND 7
      in bind_r (rd buf pos_byte) (\<lambda>x. Inr (unat (drop_bit pos_bit x AND 1))))"

definition lsb_put_bit :: "buf \<Rightarrow> nat \<Rightarrow> nat \<Rightarrow> buf res" where
  "lsb_put_bit buf bn b =
     (let pos_byte = drop_bit 3 bn;
          pos_bit = bn AND 7
      in bind_r (rd buf pos_byte) (\<lambda>x.
           if b \<noteq> 0 then wr buf pos_byte (x OR push_bit pos_bit 1)
           else wr buf pos_byte (x AND NOT (push_bit pos_bit 1))))"

definition lsb_set_bit :: "buf \<Rightarrow> nat \<Rightarrow> buf res" where
  "lsb_set_bit buf bn =
     (let pos_byte = drop_bit 3 bn;
          pos_bit = bn AND 7
      in bind_r (rd buf pos_byte) (\<lambda>x. wr buf pos_byte (x OR push_bit pos_bit 1)))"

definition lsb_clr_bit :: "buf \<Rightarrow> nat \<Rightarrow> buf res" where
  "lsb_clr_bit buf bn =
     (let pos_byte = drop_bit 3 bn;
          pos_bit = bn AND 7
      in bind_r (rd buf pos_byte) (\<lambda>x. wr buf pos_byte (x AND NOT (push_bit pos_bit 1))))"

section \<open>The abstract view: a buffer as the list of its bits\<close>

text \<open>
  \<open>bits_by p b\<close> lists the bits of \<open>b\<close> byte by byte; \<open>p k\<close> is the bit position in the byte
  of the \<open>k\<close>-th listed bit. \<open>bytes_by p\<close> packs a list of bits back.
\<close>

definition bits_by :: "(nat \<Rightarrow> nat) \<Rightarrow> buf \<Rightarrow> bool list" where
  "bits_by p b = map (\<lambda>n. bit (b ! (n div 8)) (p (n mod 8))) [0..<8 * length b]"

definition bytes_by :: "(nat \<Rightarrow> nat) \<Rightarrow> bool list \<Rightarrow> buf" where
  "bytes_by p bs =
     map (\<lambda>i. horner_sum of_bool 2 (map (\<lambda>j. bs ! (8 * i + p j)) [0..<8])) [0..<length bs div 8]"

definition msb_pos :: "nat \<Rightarrow> nat" where
  "msb_pos k = 7 - k"

definition lsb_pos :: "nat \<Rightarrow> nat" where
  "lsb_pos k = k"

definition msb_bits :: "buf \<Rightarrow> bool list" where "msb_bits = bits_by msb_pos"
definition lsb_bits :: "buf \<Rightarrow> bool list" where "lsb_bits = bits_by lsb_pos"
definition msb_bytes :: "bool list \<Rightarrow> buf" where "msb_bytes = bytes_by msb_pos"
definition lsb_bytes :: "bool list \<Rightarrow> buf" where "lsb_bytes = bytes_by lsb_pos"

definition bit_order :: "(nat \<Rightarrow> nat) \<Rightarrow> bool" where
  "bit_order p \<longleftrightarrow> (\<forall>k<8. p k < 8 \<and> p (p k) = k)"

lemma bit_order_msb [simp]: "bit_order msb_pos"
  by (auto simp: bit_order_def msb_pos_def)

lemma bit_order_lsb [simp]: "bit_order lsb_pos"
  by (simp add: bit_order_def lsb_pos_def)

lemma bit_order_inj:
  assumes p: "bit_order p" and j: "j < 8" and k: "k < 8"
  shows "p j = p k \<longleftrightarrow> j = k"
proof
  assume eq: "p j = p k"
  have pj: "p (p j) = j" and pk: "p (p k) = k" using p j k by (simp_all add: bit_order_def)
  have "p (p j) = p (p k)" by (simp only: eq)
  then show "j = k" by (simp only: pj pk)
qed simp

lemma length_bits_by [simp]: "length (bits_by p b) = 8 * length b"
  by (simp add: bits_by_def)

lemma length_bytes_by [simp]: "length (bytes_by p bs) = length bs div 8"
  by (simp add: bytes_by_def)

lemma nth_bits_by: "n < 8 * length b \<Longrightarrow> bits_by p b ! n = bit (b ! (n div 8)) (p (n mod 8))"
  by (simp add: bits_by_def)

lemma bits_by_bytes_by:
  assumes p: "bit_order p" and l: "8 dvd length bs"
  shows "bits_by p (bytes_by p bs) = bs"
proof (rule list_eqI)
  show len: "length (bits_by p (bytes_by p bs)) = length bs" using l by simp
  fix n assume n: "n < length bs"
  then have d: "n div 8 < length bs div 8" using l by auto
  have "p (n mod 8) < 8" "p (p (n mod 8)) = n mod 8" using p by (auto simp: bit_order_def)
  moreover have "8 * (n div 8) + n mod 8 = n" by simp
  ultimately show "bits_by p (bytes_by p bs) ! n = bs ! n"
    using n d l
    by (subst nth_bits_by)
       (auto simp: bytes_by_def bit_horner_sum_bit_word_iff simp del: upt_Suc)
qed

lemma bits_by_inj:
  assumes p: "bit_order p" and eq: "bits_by p a = bits_by p b"
  shows "a = b"
proof (rule list_eqI)
  show len: "length a = length b" using arg_cong [OF eq, of length] by simp
  fix i assume i: "i < length b"
  show "a ! i = b ! i"
  proof (rule bit_word_eqI)
    fix j assume j: "j < LENGTH(8)"
    then have p1: "p j < 8" "p (p j) = j" using p by (auto simp: bit_order_def)
    have n: "8 * i + p j < 8 * length b" using i p1 by simp
    have "bits_by p a ! (8 * i + p j) = bits_by p b ! (8 * i + p j)" by (simp add: eq)
    then show "bit (a ! i) j = bit (b ! i) j" using n p1 len by (simp add: nth_bits_by)
  qed
qed

lemma bytes_by_bits_by: "bit_order p \<Longrightarrow> bytes_by p (bits_by p b) = b"
  by (rule bits_by_inj [of p]) (simp_all add: bits_by_bytes_by)

lemma bits_by_append: "bits_by p (a @ b) = bits_by p a @ bits_by p b"
proof (rule list_eqI)
  fix i assume i: "i < length (bits_by p a @ bits_by p b)"
  show "bits_by p (a @ b) ! i = (bits_by p a @ bits_by p b) ! i"
  proof (cases "i < 8 * length a")
    case True
    then have "i div 8 < length a" by auto
    with True show ?thesis by (simp add: nth_append nth_bits_by)
  next
    case False
    define k where "k = i - 8 * length a"
    have k: "i = k + 8 * length a" using False by (simp add: k_def)
    have "k < 8 * length b" using i k by simp
    then show ?thesis by (simp add: k nth_append nth_bits_by)
  qed
qed simp

lemma bits_by_take: "bits_by p (take n b) = take (8 * n) (bits_by p b)"
proof -
  have "bits_by p b = bits_by p (take n b) @ bits_by p (drop n b)"
    by (simp flip: bits_by_append)
  then show ?thesis by (cases "n \<le> length b") auto
qed

lemma bits_by_drop: "bits_by p (drop n b) = drop (8 * n) (bits_by p b)"
proof -
  have "bits_by p b = bits_by p (take n b) @ bits_by p (drop n b)"
    by (simp flip: bits_by_append)
  then show ?thesis by (cases "n \<le> length b") auto
qed

lemma bits_by_update:
  assumes p: "bit_order p" and n: "n < 8 * length b"
    and v: "\<And>j. j < 8 \<Longrightarrow> bit v j = (if j = p (n mod 8) then x else bit (b ! (n div 8)) j)"
  shows "bits_by p (b[n div 8 := v]) = (bits_by p b)[n := x]"
proof (rule list_eqI)
  fix i assume "i < length ((bits_by p b)[n := x])"
  then have i: "i < 8 * length b" by simp
  then have d: "i div 8 < length b" by auto
  have pi: "p (i mod 8) < 8" using p by (simp add: bit_order_def)
  have eq: "p (i mod 8) = p (n mod 8) \<longleftrightarrow> i mod 8 = n mod 8" using p by (simp add: bit_order_inj)
  show "bits_by p (b[n div 8 := v]) ! i = (bits_by p b)[n := x] ! i"
  proof (cases "i div 8 = n div 8")
    case True
    then have "i mod 8 = n mod 8 \<longleftrightarrow> i = n" by (metis div_mult_mod_eq)
    with True i d pi eq n show ?thesis by (simp add: nth_bits_by nth_list_update v)
  next
    case False
    with i d n show ?thesis by (auto simp: nth_bits_by nth_list_update)
  qed
qed simp

lemma bits_by_replicate_0 [simp]: "bits_by p (replicate n 0) = replicate (8 * n) False"
  by (rule list_eqI) (auto simp: nth_bits_by)

text \<open>The two orders are instances.\<close>

lemmas bits_defs = msb_bits_def lsb_bits_def msb_bytes_def lsb_bytes_def

lemma length_msb_bits [simp]: "length (msb_bits b) = 8 * length b" by (simp add: bits_defs)
lemma length_lsb_bits [simp]: "length (lsb_bits b) = 8 * length b" by (simp add: bits_defs)
lemma length_msb_bytes [simp]: "length (msb_bytes bs) = length bs div 8" by (simp add: bits_defs)
lemma length_lsb_bytes [simp]: "length (lsb_bytes bs) = length bs div 8" by (simp add: bits_defs)

lemma msb_bits_msb_bytes [simp]: "8 dvd length bs \<Longrightarrow> msb_bits (msb_bytes bs) = bs"
  by (simp add: bits_defs bits_by_bytes_by)

lemma lsb_bits_lsb_bytes [simp]: "8 dvd length bs \<Longrightarrow> lsb_bits (lsb_bytes bs) = bs"
  by (simp add: bits_defs bits_by_bytes_by)

lemma msb_bytes_msb_bits [simp]: "msb_bytes (msb_bits b) = b"
  by (simp add: bits_defs bytes_by_bits_by)

lemma lsb_bytes_lsb_bits [simp]: "lsb_bytes (lsb_bits b) = b"
  by (simp add: bits_defs bytes_by_bits_by)

section \<open>Correctness of the accessors\<close>

lemma pos_byte_div [simp]: "drop_bit 3 (n::nat) = n div 8"
  by (simp add: drop_bit_eq_div)

lemma pos_bit_mod [simp]: "(n::nat) AND 7 = n mod 8"
  using take_bit_eq_mask [of 3 n] by (simp add: take_bit_eq_mod mask_eq_exp_minus_1)

lemma unat_bit_and_1: "unat (drop_bit k (x::byte) AND 1) = of_bool (bit x k)"
  by (simp add: and_one_eq bit_iff_odd_drop_bit odd_iff_mod_2_eq_one)

definition get_by :: "(nat \<Rightarrow> nat) \<Rightarrow> buf \<Rightarrow> nat \<Rightarrow> nat res" where
  "get_by p b n = bind_r (rd b (n div 8)) (\<lambda>x. Inr (unat (drop_bit (p (n mod 8)) x AND 1)))"

definition put_by :: "(nat \<Rightarrow> nat) \<Rightarrow> buf \<Rightarrow> nat \<Rightarrow> nat \<Rightarrow> buf res" where
  "put_by p b n v = bind_r (rd b (n div 8)) (\<lambda>x.
     wr b (n div 8) (if v \<noteq> 0 then x OR push_bit (p (n mod 8)) 1
                     else x AND NOT (push_bit (p (n mod 8)) 1)))"

lemma get_by_eq:
  "get_by p b n = (if n < 8 * length b then Inr (of_bool (bits_by p b ! n)) else Inl Out_Of_Bounds)"
  by (auto simp: get_by_def rd_def nth_bits_by unat_bit_and_1)

lemma put_by_eq:
  assumes "bit_order p" and "n < 8 * length b"
  shows "\<exists>b'. put_by p b n v = Inr b' \<and> bits_by p b' = (bits_by p b)[n := v \<noteq> 0]"
proof -
  have n: "n div 8 < length b" using assms(2) by auto
  have "p (n mod 8) < 8" using assms(1) by (simp add: bit_order_def)
  with assms n show ?thesis
    by (auto simp: put_by_def mem_simps bit_simps intro!: bits_by_update split: if_splits)
qed

lemma put_by_out: "8 * length b \<le> n \<Longrightarrow> put_by p b n v = Inl Out_Of_Bounds"
  by (auto simp: put_by_def rd_def)

lemma msb_get_by: "msb_get_bit = get_by msb_pos"
  by (simp add: fun_eq_iff msb_get_bit_def get_by_def msb_pos_def)

lemma lsb_get_by: "lsb_get_bit = get_by lsb_pos"
  by (simp add: fun_eq_iff lsb_get_bit_def get_by_def lsb_pos_def)

lemma msb_put_by: "msb_put_bit = put_by msb_pos"
  by (auto simp: fun_eq_iff msb_put_bit_def put_by_def msb_pos_def Let_def intro!: arg_cong2 [where f = bind_r])

lemma lsb_put_by: "lsb_put_bit = put_by lsb_pos"
  by (auto simp: fun_eq_iff lsb_put_bit_def put_by_def lsb_pos_def Let_def intro!: arg_cong2 [where f = bind_r])

lemma msb_set_put: "msb_set_bit b n = msb_put_bit b n 1"
  by (simp add: msb_set_bit_def msb_put_bit_def)

lemma msb_clr_put: "msb_clr_bit b n = msb_put_bit b n 0"
  by (simp add: msb_clr_bit_def msb_put_bit_def)

lemma lsb_set_put: "lsb_set_bit b n = lsb_put_bit b n 1"
  by (simp add: lsb_set_bit_def lsb_put_bit_def)

lemma lsb_clr_put: "lsb_clr_bit b n = lsb_put_bit b n 0"
  by (simp add: lsb_clr_bit_def lsb_put_bit_def)

section \<open>Moving bits: the reference description\<close>

text \<open>
  \<open>place n ps\<close> is a frame of \<open>n\<close> bits that holds bit \<open>b\<close> at position \<open>k\<close> for each pair
  \<open>(k, b)\<close> of \<open>ps\<close> and zero everywhere else; the converters are specified by it.
  \<open>scatter xs ps\<close> writes the same pairs one after the other into existing bits, which is
  what a loop does.
\<close>

definition place :: "nat \<Rightarrow> (nat \<times> bool) list \<Rightarrow> bool list" where
  "place n ps = map (\<lambda>k. case map_of ps k of None \<Rightarrow> False | Some b \<Rightarrow> b) [0..<n]"

fun scatter :: "bool list \<Rightarrow> (nat \<times> bool) list \<Rightarrow> bool list" where
  "scatter xs [] = xs"
| "scatter xs ((k, b) # ps) = scatter (xs[k := b]) ps"

lemma length_place [simp]: "length (place n ps) = n"
  by (simp add: place_def)

lemma nth_place: "k < n \<Longrightarrow> place n ps ! k = (case map_of ps k of None \<Rightarrow> False | Some b \<Rightarrow> b)"
  by (simp add: place_def)

lemma nth_place_in:
  "distinct (map fst ps) \<Longrightarrow> (k, b) \<in> set ps \<Longrightarrow> k < n \<Longrightarrow> place n ps ! k = b"
  by (simp add: nth_place)

lemma nth_place_out: "k \<notin> fst ` set ps \<Longrightarrow> k < n \<Longrightarrow> \<not> place n ps ! k"
  by (simp add: nth_place map_of_eq_None_iff [THEN iffD2])

lemma length_scatter [simp]: "length (scatter xs ps) = length xs"
  by (induction xs ps rule: scatter.induct) auto

lemma scatter_append: "scatter xs (ps @ qs) = scatter (scatter xs ps) qs"
  by (induction xs ps rule: scatter.induct) auto

lemma nth_scatter:
  "distinct (map fst ps) \<Longrightarrow> k < length xs \<Longrightarrow>
     scatter xs ps ! k = (case map_of ps k of None \<Rightarrow> xs ! k | Some b \<Rightarrow> b)"
proof (induction xs ps rule: scatter.induct)
  case (2 xs j b ps)
  then have "j \<notin> dom (map_of ps)" by (auto simp: dom_map_of_conv_image_fst)
  with 2 show ?case by (auto simp: nth_list_update split: option.splits)
qed simp

lemma scatter_place:
  assumes d: "distinct (map fst ps)" and n: "n \<le> length xs" "\<forall>p \<in> set ps. fst p < n"
    and z: "\<And>k. k < n \<Longrightarrow> k \<notin> fst ` set ps \<Longrightarrow> \<not> xs ! k"
  shows "scatter xs ps = place n ps @ drop n xs"
proof (rule list_eqI)
  fix k assume "k < length (place n ps @ drop n xs)"
  then have k: "k < length xs" using n by simp
  show "scatter xs ps ! k = (place n ps @ drop n xs) ! k"
  proof (cases "k \<in> fst ` set ps")
    case True
    then have "k < n" using n by auto
    moreover obtain b where "map_of ps k = Some b"
      using True by (metis map_of_eq_None_iff option.exhaust)
    ultimately show ?thesis using d k by (simp add: nth_scatter nth_append nth_place)
  next
    case False
    then have "map_of ps k = None" by (simp add: map_of_eq_None_iff)
    with d k z [of k] False n show ?thesis by (auto simp: nth_scatter nth_append nth_place)
  qed
qed (use n in simp)

section \<open>The contract of bit accessors\<close>

locale bit_buffer =
  fixes get :: "buf \<Rightarrow> nat \<Rightarrow> nat res"
    and put :: "buf \<Rightarrow> nat \<Rightarrow> nat \<Rightarrow> buf res"
    and bits :: "buf \<Rightarrow> bool list"
    and pack :: "bool list \<Rightarrow> buf"
  assumes length_bits: "length (bits b) = 8 * length b"
    and bits_inject: "bits a = bits b \<Longrightarrow> a = b"
    and bits_pack: "8 dvd length bs \<Longrightarrow> bits (pack bs) = bs"
    and bits_append: "bits (a @ b) = bits a @ bits b"
    and get_bit: "get b n = (if n < length (bits b) then Inr (of_bool (bits b ! n))
                             else Inl Out_Of_Bounds)"
    and put_bit: "n < length (bits b) \<Longrightarrow>
                    \<exists>b'. put b n v = Inr b' \<and> bits b' = (bits b)[n := v \<noteq> 0]"
    and put_bit_out: "length (bits b) \<le> n \<Longrightarrow> put b n v = Inl Out_Of_Bounds"
begin

lemma put_Inr:
  assumes "put b n v = Inr b'"
  shows "n < 8 * length b" and "bits b' = (bits b)[n := v \<noteq> 0]" and "length b' = length b"
proof -
  show n: "n < 8 * length b"
    using assms put_bit_out [of b n v] by (cases "n < 8 * length b") (auto simp: length_bits)
  then show bb: "bits b' = (bits b)[n := v \<noteq> 0]"
    using assms put_bit [of n b v] by (auto simp: length_bits)
  show "length b' = length b"
    using arg_cong [OF bb, of length] by (simp add: length_bits)
qed

lemma put_get:
  "put b n v = Inr b' \<Longrightarrow> m < 8 * length b \<Longrightarrow>
     get b' m = (if m = n then Inr (of_bool (v \<noteq> 0)) else get b m)"
  by (frule put_Inr(1), frule put_Inr(2), frule put_Inr(3))
     (auto simp: get_bit length_bits nth_list_update)

lemma get_put_id:
  assumes "get b n = Inr v"
  shows "put b n v = Inr b"
proof -
  have n: "n < length (bits b)" and v: "v = of_bool (bits b ! n)"
    using assms by (auto simp: get_bit split: if_splits)
  obtain b' where b': "put b n v = Inr b'" "bits b' = (bits b)[n := v \<noteq> 0]"
    using put_bit [OF n] by blast
  have "bits b' = bits b" using b'(2) v by (simp add: list_update_id)
  then show ?thesis using b'(1) bits_inject by metis
qed

lemma drop_eq_pack:
  assumes "bits d = bs @ drop (8 * n) (bits e)" and "length bs = 8 * n" and "n \<le> length e"
  shows "d = pack bs @ drop n e"
proof (rule bits_inject)
  have "bits e = bits (take n e) @ bits (drop n e)" by (simp flip: bits_append)
  then have "drop (8 * n) (bits e) = bits (drop n e)"
    using assms(3) by (simp add: length_bits)
  with assms show "bits d = bits (pack bs @ drop n e)"
    by (simp add: bits_append bits_pack)
qed

end

interpretation msb: bit_buffer msb_get_bit msb_put_bit msb_bits msb_bytes
  by unfold_locales
     (auto simp: msb_get_by msb_put_by get_by_eq put_by_out put_by_eq [unfolded neq0_conv] bits_defs
        bits_by_append bits_by_bytes_by dest: bits_by_inj [OF bit_order_msb])

interpretation lsb: bit_buffer lsb_get_bit lsb_put_bit lsb_bits lsb_bytes
  by unfold_locales
     (auto simp: lsb_get_by lsb_put_by get_by_eq put_by_out put_by_eq [unfolded neq0_conv] bits_defs
        bits_by_append bits_by_bytes_by dest: bits_by_inj [OF bit_order_lsb])

section \<open>The copying loop of the converters\<close>

text \<open>
  A converter runs a loop whose body either does nothing (\<open>m i = None\<close>, a C
  \<^verbatim>\<open>continue\<close>) or moves one bit from position \<open>si\<close> of the source to position \<open>di\<close> of the
  destination (\<open>m i = Some (di, si)\<close>).
\<close>

definition moves :: "(nat \<Rightarrow> (nat \<times> nat) option) \<Rightarrow> bool list \<Rightarrow> nat \<Rightarrow> (nat \<times> bool) list" where
  "moves m xs n =
     concat (map (\<lambda>i. case m i of None \<Rightarrow> [] | Some (di, si) \<Rightarrow> [(di, xs ! si)]) [0..<n])"

lemma moves_0 [simp]: "moves m xs 0 = []"
  by (simp add: moves_def)

lemma moves_Suc:
  "moves m xs (Suc n) =
     moves m xs n @ (case m n of None \<Rightarrow> [] | Some (di, si) \<Rightarrow> [(di, xs ! si)])"
  by (simp add: moves_def)

lemma set_moves: "set (moves m xs n) = {(di, xs ! si) | di si i. i < n \<and> m i = Some (di, si)}"
proof (induction n)
  case (Suc n)
  have "{(di, xs ! si) | di si i. i < Suc n \<and> m i = Some (di, si)} =
        {(di, xs ! si) | di si i. i < n \<and> m i = Some (di, si)} \<union>
        {(di, xs ! si) | di si. m n = Some (di, si)}"
    by (auto simp: less_Suc_eq; blast)
  then show ?case using Suc by (cases "m n") (auto simp: moves_Suc)
qed simp

lemma fst_moves: "k \<in> fst ` set (moves m xs n) \<longleftrightarrow> (\<exists>i<n. \<exists>si. m i = Some (k, si))"
  by (force simp: set_moves)

lemma moves_total: "moves (\<lambda>i. Some (d i, s i)) xs n = map (\<lambda>i. (d i, xs ! s i)) [0..<n]"
  by (induction n) (simp_all add: moves_Suc)

text \<open>The destinations are pairwise different when \<open>m\<close> never repeats one.\<close>

definition dest_inj :: "(nat \<Rightarrow> (nat \<times> nat) option) \<Rightarrow> nat \<Rightarrow> bool" where
  "dest_inj m n \<longleftrightarrow>
     (\<forall>i<n. \<forall>j<n. \<forall>d s s'. m i = Some (d, s) \<longrightarrow> m j = Some (d, s') \<longrightarrow> i = j)"

lemma distinct_moves: "dest_inj m n \<Longrightarrow> distinct (map fst (moves m xs n))"
proof (induction n)
  case (Suc n)
  have i: "dest_inj m n" using Suc.prems by (auto simp: dest_inj_def)
  have "d \<notin> fst ` set (moves m xs n)" if "m n = Some (d, s)" for d s
    using that Suc.prems by (auto simp: fst_moves dest_inj_def) (metis less_SucI lessI less_irrefl)
  with Suc.IH [OF i] show ?case by (auto simp: moves_Suc split: option.splits)
qed simp

locale bit_mover =
  src: bit_buffer gs ps vs pks + dst: bit_buffer gd pd vd pkd
  for gs ps vs pks gd pd vd pkd
begin

lemma move_loop:
  assumes body: "\<And>i d. i < n \<Longrightarrow> f i d =
       (case m i of None \<Rightarrow> Inr d | Some (di, si) \<Rightarrow> bind_r (gs src si) (pd d di))"
    and range: "\<And>i di si. i < n \<Longrightarrow> m i = Some (di, si) \<Longrightarrow>
       di < 8 * length dst \<and> si < 8 * length src"
  shows "\<exists>d'. for_loop [0..<n] f dst = Inr d' \<and> vd d' = scatter (vd dst) (moves m (vs src) n)"
proof (rule for_loop_upt [where P = "\<lambda>i d. vd d = scatter (vd dst) (moves m (vs src) i)"])
  fix i d assume i: "i < n" and d: "vd d = scatter (vd dst) (moves m (vs src) i)"
  show "\<exists>d'. f i d = Inr d' \<and> vd d' = scatter (vd dst) (moves m (vs src) (Suc i))"
  proof (cases "m i")
    case None
    then show ?thesis using i d by (simp add: body moves_Suc)
  next
    case (Some p)
    obtain di si where p: "p = (di, si)" by (cases p)
    have r: "di < 8 * length dst" "si < 8 * length src" using range [OF i] Some p by auto
    have "length (vd d) = 8 * length dst" using d by (simp add: dst.length_bits)
    then show ?thesis
      using i d r Some p dst.put_bit [of di d "of_bool (vs src ! si)"]
      by (auto simp: body moves_Suc src.get_bit src.length_bits scatter_append)
  qed
qed simp

lemma move_frame:
  assumes body: "\<And>i d. i < n \<Longrightarrow> f i d =
       (case m i of None \<Rightarrow> Inr d | Some (di, si) \<Rightarrow> bind_r (gs src si) (pd d di))"
    and range: "\<And>i di si. i < n \<Longrightarrow> m i = Some (di, si) \<Longrightarrow> di < 8 * l \<and> si < 8 * length src"
    and inj: "dest_inj m n"
    and l: "l \<le> length dst"
    and clear: "\<And>k. k < 8 * l \<Longrightarrow> (\<forall>i<n. \<forall>si. m i \<noteq> Some (k, si)) \<Longrightarrow> \<not> vd dst ! k"
  shows "for_loop [0..<n] f dst = Inr (pkd (place (8 * l) (moves m (vs src) n)) @ drop l dst)"
proof -
  have range': "di < 8 * length dst \<and> si < 8 * length src" if "i < n" "m i = Some (di, si)" for i di si
    using range [OF that] l by auto
  obtain d' where d': "for_loop [0..<n] f dst = Inr d'"
      "vd d' = scatter (vd dst) (moves m (vs src) n)"
    using move_loop [where f = f and m = m and dst = dst and src = src] body range' by metis
  have "vd d' = place (8 * l) (moves m (vs src) n) @ drop (8 * l) (vd dst)"
    unfolding d'(2)
  proof (rule scatter_place)
    show "\<forall>p \<in> set (moves m (vs src) n). fst p < 8 * l"
      using range by (auto simp: set_moves)
    fix k assume "k < 8 * l" "k \<notin> fst ` set (moves m (vs src) n)"
    then show "\<not> vd dst ! k" using clear [of k] by (auto simp: fst_moves)
  qed (use l inj in \<open>simp_all add: distinct_moves dst.length_bits\<close>)
  then have "d' = pkd (place (8 * l) (moves m (vs src) n)) @ drop l dst"
    using l by (intro dst.drop_eq_pack) simp_all
  with d'(1) show ?thesis by simp
qed

end

interpretation mm: bit_mover
  msb_get_bit msb_put_bit msb_bits msb_bytes msb_get_bit msb_put_bit msb_bits msb_bytes
  by unfold_locales

interpretation ml: bit_mover
  msb_get_bit msb_put_bit msb_bits msb_bytes lsb_get_bit lsb_put_bit lsb_bits lsb_bytes
  by unfold_locales

interpretation lm: bit_mover
  lsb_get_bit lsb_put_bit lsb_bits lsb_bytes msb_get_bit msb_put_bit msb_bits msb_bytes
  by unfold_locales

end
