(* ===== verification/Conv.thy ===== *)
theory Conv
  imports Bits
begin

text \<open>
  The interface of the format converters (\<^verbatim>\<open>osmo_gapk_fmt_conv_cb_t\<close> in
  \<^verbatim>\<open>include/osmocom/gapk/formats.h\<close>): a converter gets the destination buffer as it is, the
  source buffer and the number of valid source bytes, and returns the destination after
  the call with the return value, or a fault.

  \<open>fixed_conv f g m n\<close> is the contract of a converter between fixed-length frames: on a
  source of at least \<open>m\<close> bytes and a destination of at least \<open>n\<close> bytes, called with
  length \<open>m\<close>, it never faults, returns \<open>n\<close>, leaves every byte after the first \<open>n\<close> alone,
  and its output is the function \<open>g\<close> of the \<open>m\<close> source bytes alone, so that nothing of
  the old contents of the destination is left in the frame. \<open>lossless_format\<close> pairs the
  two directions of a format over the canonical frames it preserves, \<open>lossless_var_format\<close>
  does so for frames of variable length; \<open>transcoder\<close> is two fixed-length formats of one
  codec.
\<close>

type_synonym conv = "buf \<Rightarrow> buf \<Rightarrow> nat \<Rightarrow> (buf \<times> int) res"

section \<open>Frame lengths (\<^verbatim>\<open>include/osmocom/gapk/codecs.h\<close>)\<close>

definition FR_CANON_LEN :: nat where [simp, code_unfold]: "FR_CANON_LEN = 33"
definition HR_CANON_LEN :: nat where [simp, code_unfold]: "HR_CANON_LEN = 14"
definition EFR_CANON_LEN :: nat where [simp, code_unfold]: "EFR_CANON_LEN = 31"
definition PCM_CANON_LEN :: nat where [simp, code_unfold]: "PCM_CANON_LEN = 160 * 2"
definition HR_REF_ENC_LEN :: nat where [simp, code_unfold]: "HR_REF_ENC_LEN = 20 * 2"
definition HR_REF_DEC_LEN :: nat where [simp, code_unfold]: "HR_REF_DEC_LEN = 22 * 2"

text \<open>
  A canonical frame of \<open>l\<close> bytes with \<open>n\<close> significant bits: the padding bits behind them
  are zero.
\<close>

definition padded :: "nat \<Rightarrow> nat \<Rightarrow> buf \<Rightarrow> bool" where
  "padded n l c \<longleftrightarrow> length c = l \<and> drop n (msb_bits c) = replicate (8 * l - n) False"

lemma padded_length: "padded n l c \<Longrightarrow> length c = l"
  by (simp add: padded_def)

lemma padded_bit:
  assumes p: "padded n l c" and n: "n \<le> k" and k: "k < 8 * l"
  shows "\<not> msb_bits c ! k"
proof -
  have "length (msb_bits c) = 8 * l" using padded_length [OF p] by simp
  then have "msb_bits c ! k = drop n (msb_bits c) ! (k - n)" using n k by simp
  also have "\<dots> = replicate (8 * l - n) False ! (k - n)"
    using p by (simp only: padded_def)
  finally show ?thesis using n k by simp
qed

lemma paddedI:
  assumes l: "length c = l" and z: "\<And>k. n \<le> k \<Longrightarrow> k < 8 * l \<Longrightarrow> \<not> msb_bits c ! k"
  shows "padded n l c"
  unfolding padded_def
proof (intro conjI list_eqI)
  fix i assume "i < length (replicate (8 * l - n) False)"
  then show "drop n (msb_bits c) ! i = replicate (8 * l - n) False ! i"
    using l z [of "n + i"] by simp
qed (use l in simp_all)

section \<open>The contract of a converter\<close>

locale fixed_conv =
  fixes f :: conv and g :: "buf \<Rightarrow> buf" and in_len out_len :: nat and src_ok :: "buf \<Rightarrow> bool"
  assumes conv: "in_len \<le> length src \<Longrightarrow> out_len \<le> length dst \<Longrightarrow> src_ok (take in_len src) \<Longrightarrow>
      f dst src in_len = Inr (g (take in_len src) @ drop out_len dst, int out_len)"
    and length_g: "length c = in_len \<Longrightarrow> length (g c) = out_len"
begin

lemma no_fault:
  "in_len \<le> length src \<Longrightarrow> out_len \<le> length dst \<Longrightarrow> src_ok (take in_len src) \<Longrightarrow>
     \<exists>dst'. f dst src in_len = Inr (dst', int out_len) \<and> length dst' = length dst \<and>
            drop out_len dst' = drop out_len dst"
  by (simp add: conv length_g)

lemma no_stale_bytes:
  "in_len \<le> length src \<Longrightarrow> in_len \<le> length src2 \<Longrightarrow> take in_len src = take in_len src2 \<Longrightarrow>
   src_ok (take in_len src) \<Longrightarrow> out_len \<le> length dst \<Longrightarrow> out_len \<le> length dst2 \<Longrightarrow>
   f dst src in_len = Inr (d, n) \<Longrightarrow> f dst2 src2 in_len = Inr (d2, n2) \<Longrightarrow>
     take out_len d = take out_len d2"
  by (auto simp: conv length_g)

end

text \<open>Most converters accept every source frame and abort on any other length.\<close>

locale strict_conv = fixed_conv f g in_len out_len "\<lambda>_. True" for f g in_len out_len +
  assumes wrong_length: "n \<noteq> in_len \<Longrightarrow> f dst src n = Inl Assert_Failed"
begin

lemma total_or_abort:
  "in_len \<le> length src \<Longrightarrow> out_len \<le> length dst \<Longrightarrow>
     f dst src n = (if n = in_len then Inr (g (take in_len src) @ drop out_len dst, int out_len)
                    else Inl Assert_Failed)"
  by (simp add: conv wrong_length)

end

locale lossless_format =
  from_canon: fixed_conv cf enc canon_len frame_len "\<lambda>_. True" +
  to_canon: fixed_conv ct dec frame_len canon_len frame_ok
  for cf enc ct dec canon_len frame_len frame_ok +
  fixes canon_ok :: "buf \<Rightarrow> bool"
  assumes canon_ok_length: "canon_ok c \<Longrightarrow> length c = canon_len"
    and frame_ok_enc: "canon_ok c \<Longrightarrow> frame_ok (enc c)"
    and dec_enc: "canon_ok c \<Longrightarrow> dec (enc c) = c"
    and canon_ok_dec: "length fr = frame_len \<Longrightarrow> frame_ok fr \<Longrightarrow> canon_ok (dec fr)"
begin

lemma roundtrip:
  assumes c: "canon_ok c"
    and d: "frame_len \<le> length dst" "canon_len \<le> length dst2"
  shows "bind_r (cf dst c canon_len) (\<lambda>(fr, n). ct dst2 fr (nat n)) =
           Inr (c @ drop canon_len dst2, int canon_len)"
proof -
  have l: "length c = canon_len" by (rule canon_ok_length [OF c])
  then have "cf dst c canon_len = Inr (enc c @ drop frame_len dst, int frame_len)"
    using d by (simp add: from_canon.conv)
  then show ?thesis
    using l d c by (simp add: to_canon.conv from_canon.length_g dec_enc frame_ok_enc)
qed

lemma enc_inject: "canon_ok a \<Longrightarrow> canon_ok b \<Longrightarrow> enc a = enc b \<longleftrightarrow> a = b"
  by (metis dec_enc)

lemma dec_enc_dec: "length fr = frame_len \<Longrightarrow> frame_ok fr \<Longrightarrow> dec (enc (dec fr)) = dec fr"
  by (simp add: dec_enc canon_ok_dec)

end

text \<open>
  Formats without a fixed frame length carry the length of each frame along; a frame is
  longer than its canonical frame by \<open>grow\<close> bytes.
\<close>

locale lossless_var_format =
  fixes cf :: conv and enc and ct :: conv and dec and grow :: nat and canon_ok :: "buf \<Rightarrow> bool"
  assumes from_conv: "n \<le> length src \<Longrightarrow> n + grow \<le> length dst \<Longrightarrow>
      cf dst src n = Inr (enc (take n src) @ drop (n + grow) dst, int (n + grow))"
    and to_conv: "canon_ok c \<Longrightarrow> length c \<le> length dst \<Longrightarrow>
      ct dst (enc c @ rest) (length c + grow) = Inr (c @ drop (length c) dst, int (length c))"
begin

lemma roundtrip:
  assumes c: "canon_ok c" and d: "length c + grow \<le> length dst" "length c \<le> length dst2"
  shows "bind_r (cf dst c (length c)) (\<lambda>(fr, n). ct dst2 fr (nat n)) =
           Inr (c @ drop (length c) dst2, int (length c))"
  using d by (simp add: from_conv to_conv [OF c] nat_int_add)

end

locale transcoder =
  A: lossless_format fromA encA toA decA canon_len lenA okA canon_ok +
  B: lossless_format fromB encB toB decB canon_len lenB okB canon_ok
  for fromA encA toA decA canon_len lenA okA canon_ok fromB encB toB decB lenB okB
begin

text \<open>A frame of format A sent through format B and back has the same canonical frame.\<close>

lemma transcode:
  assumes fr: "length fr = lenA" "okA fr"
    and d: "canon_len \<le> length d1" "lenB \<le> length d2" "canon_len \<le> length d3"
  shows "bind_r (toA d1 fr lenA) (\<lambda>(c, n). bind_r (fromB d2 c (nat n)) (\<lambda>(fr2, m). toB d3 fr2 (nat m)))
           = Inr (decA fr @ drop canon_len d3, int canon_len)"
proof -
  have ok: "canon_ok (decA fr)" and l: "length (decA fr) = canon_len"
    using fr A.canon_ok_dec A.to_canon.length_g by auto
  have "toA d1 fr lenA = Inr (decA fr @ drop canon_len d1, int canon_len)"
    using fr d A.to_canon.conv by simp
  moreover have "fromB d2 (decA fr @ drop canon_len d1) canon_len =
      Inr (encB (decA fr) @ drop lenB d2, int lenB)"
    using l d by (simp add: B.from_canon.conv)
  moreover have "toB d3 (encB (decA fr) @ drop lenB d2) lenB =
      Inr (decB (encB (decA fr)) @ drop canon_len d3, int canon_len)"
    using l d B.from_canon.length_g [OF l] B.frame_ok_enc [OF ok] by (simp add: B.to_canon.conv)
  ultimately show ?thesis using ok by (simp add: B.dec_enc)
qed

end

end
