(* ===== verification/Item_State.thy ===== *)
theory Item_State
  imports Procqueue Conv
begin

text \<open>
  The private states of the queue items, one record per \<^verbatim>\<open>struct pq_state_*\<close> of the sources,
  and their sum: what a \<^verbatim>\<open>void *state\<close> of an item can point to. \<open>'c\<close> is the type of the handles
  that the codec libraries give out.
\<close>

record pq_state_file =  \<comment> \<open>\<^verbatim>\<open>src/pq_file.c\<close>\<close>
  pf_fh :: nat
  pf_blk_len :: nat

record pq_state_rtp =  \<comment> \<open>\<^verbatim>\<open>src/pq_rtp.c\<close>\<close>
  pr_fd :: nat
  pr_blk_len :: nat
  pr_duration :: u32
  pr_payload_type :: byte
  pr_sequence :: u16
  pr_timestamp :: u32
  pr_ssrc :: u32

record pq_state_alsa =  \<comment> \<open>\<^verbatim>\<open>src/pq_alsa.c\<close>\<close>
  pa_handle :: nat
  pa_blk_len :: nat

datatype 'c codec_state =
    Lib_State 'c         \<comment> \<open>a handle (\<^verbatim>\<open>src/codec_fr.c\<close>, \<^verbatim>\<open>src/codec_hr.c\<close>)\<close>
  | Enc_Dec_State 'c 'c  \<comment> \<open>encoder and decoder (\<^verbatim>\<open>src/codec_efr.c\<close>, \<^verbatim>\<open>src/codec_amr.c\<close>)\<close>

datatype 'c item_state =
    St_File pq_state_file
  | St_Rtp pq_state_rtp
  | St_Alsa pq_state_alsa
  | St_Conv conv  \<comment> \<open>the function pointer of \<^verbatim>\<open>src/pq_format.c\<close>\<close>
  | St_Codec "'c codec_state"
  | St_Ecu 'c

text \<open>The function pointer types of the callbacks over this sum.\<close>

type_synonym ('c, 'x) callback = "('c item_state, 'x world) proc"
type_synonym ('c, 'x) qitem = "('c item_state, 'x world) item"
type_synonym ('c, 'x) queue = "('c item_state, 'x world) pq"

text \<open>Appending an item, as every \<^verbatim>\<open>osmo_gapk_pq_queue_*\<close> does in the end.\<close>

definition push_item :: "('s, 'w) item \<Rightarrow> ('s, 'w) pq \<Rightarrow> ('s, 'w) pq" where
  "push_item item pq = pq\<lparr>pq_items := pq_items pq @ [item], pq_n_items := pq_n_items pq + 1\<rparr>"

lemma push_item_simps [simp]:
  "pq_items (push_item item pq) = pq_items pq @ [item]"
  "pq_n_items (push_item item pq) = pq_n_items pq + 1"
  "pq_name (push_item item pq) = pq_name pq"
  by (simp_all add: push_item_def)

lemma pq_wf_push [simp]: "pq_wf (push_item item pq) \<longleftrightarrow> pq_wf pq"
  by (simp add: pq_wf_def)

lemma upd_last_push [simp]: "upd_last f (push_item item pq) = push_item (f item) pq"
  by (simp add: push_item_def)

lemma pq_add_item_push:
  "w_mem w = [] \<Longrightarrow> all_live (pq_items pq) \<Longrightarrow>
     \<exists>w'. pq_add_item pq w = Inr (True, push_item zero_item pq, w') \<and> w_mem w' = [] \<and>
       w_files w' = w_files w \<and> w_socks w' = w_socks w \<and> w_ext w' = w_ext w \<and> w_bench w' = w_bench w \<and> w_live w' = w_live w + 1"
  by (simp add: pq_add_item_ok push_item_def)

lemma pq_add_item_True:
  "pq_add_item pq w = Inr (True, pq', w') \<Longrightarrow> pq' = push_item zero_item pq"
  by (auto simp: pq_add_item_def push_item_def split: prod.splits bool.splits if_splits)

text \<open>
  What all the functions that append an item have in common: with memory to be had they
  append exactly their item, and touch neither files nor sockets nor benchmarks; they
  allocate the item and \<open>k\<close> blocks for its state.
\<close>

definition appends ::
    "(('s, 'w) pq \<Rightarrow> 'x world \<Rightarrow> (int \<times> ('s, 'w) pq \<times> 'x world) res) \<Rightarrow> nat \<Rightarrow> ('s, 'w) item \<Rightarrow> bool" where
  "appends op k item \<longleftrightarrow> (\<forall>pq w. w_mem w = [] \<longrightarrow> all_live (pq_items pq) \<longrightarrow>
     (\<exists>w'. op pq w = Inr (0, push_item item pq, w') \<and> w_mem w' = [] \<and>
        w_files w' = w_files w \<and> w_socks w' = w_socks w \<and> w_bench w' = w_bench w \<and>
        w_live w' = w_live w + 1 + int k))"

lemma appendsD:
  "appends op k item \<Longrightarrow> w_mem w = [] \<Longrightarrow> all_live (pq_items pq) \<Longrightarrow>
     \<exists>w'. op pq w = Inr (0, push_item item pq, w') \<and> w_mem w' = [] \<and>
        w_files w' = w_files w \<and> w_socks w' = w_socks w \<and> w_bench w' = w_bench w \<and>
        w_live w' = w_live w + 1 + int k"
  by (simp add: appends_def)

end
