(* ===== verification/Pq_File.thy ===== *)
theory Pq_File
  imports Item_State
begin

text \<open>
  File source and sink (\<^verbatim>\<open>src/pq_file.c\<close>): blocks of a fixed length from and to a \<^verbatim>\<open>FILE\<close>.
\<close>

definition pq_cb_file_input :: "('c, 'x) callback" where
  "pq_cb_file_input st out inp in_len w =
     (case st of
        Some (St_File state) \<Rightarrow>
          if pf_blk_len state = 0 then Inr (-1, st, out, w)
          else
            bind_r (deref out) (\<lambda>d.
            bind_r (fread_c (pf_fh state) (pf_blk_len state) d w) (\<lambda>(rv, d, w).
            if rv \<le> 0 then Inr (-1, st, Some d, w)
            else Inr (rv * int (pf_blk_len state), st, Some d, w)))
      | _ \<Rightarrow> Inl Bad_State)"

definition pq_cb_file_output :: "('c, 'x) callback" where
  "pq_cb_file_output st out inp in_len w =
     (case st of
        Some (St_File state) \<Rightarrow>
          if in_len = 0 then Inr (-1, st, out, w)
          else
            bind_r (deref inp) (\<lambda>d.
            bind_r (fwrite_c (pf_fh state) in_len d w) (\<lambda>(rv, w).
            Inr (if rv = 1 then 0 else -1, st, out, w)))
      | _ \<Rightarrow> Inl Bad_State)"

definition pq_cb_file_exit :: "'c item_state option \<Rightarrow> 'x world \<Rightarrow> 'x world res" where
  "pq_cb_file_exit st w = Inr (release w)"

definition pq_queue_file_op ::
    "('c, 'x) queue \<Rightarrow> nat \<Rightarrow> nat \<Rightarrow> bool \<Rightarrow> 'x world \<Rightarrow> (int \<times> ('c, 'x) queue \<times> 'x world) res" where
  "pq_queue_file_op pq fh blk_len in_out_n w =
     (case alloc w of
        (False, w) \<Rightarrow> Inr (- ENOMEM, pq, w)
      | (True, w) \<Rightarrow>
          bind_r (pq_add_item pq w) (\<lambda>(ok, pq, w).
          if \<not> ok then Inr (- ENOMEM, pq, release w)
          else
            Inr (0, upd_last (\<lambda>item. item
                   \<lparr>it_type := (if in_out_n then TYPE_SOURCE else TYPE_SINK),
                    it_cat_name := Some (if in_out_n then ''source'' else ''sink''),
                    it_sub_name := Some ''file'',
                    it_len_in := (if in_out_n then 0 else blk_len),
                    it_len_out := (if in_out_n then blk_len else 0),
                    it_state := Some (St_File \<lparr>pf_fh = fh, pf_blk_len = blk_len\<rparr>),
                    it_proc := Some (if in_out_n then pq_cb_file_input else pq_cb_file_output),
                    it_wait := None,
                    it_exit := Some pq_cb_file_exit\<rparr>) pq, w)))"

definition pq_queue_file_input ::
    "('c, 'x) queue \<Rightarrow> nat \<Rightarrow> nat \<Rightarrow> 'x world \<Rightarrow> (int \<times> ('c, 'x) queue \<times> 'x world) res" where
  "pq_queue_file_input pq src blk_len w = pq_queue_file_op pq src blk_len True w"

definition pq_queue_file_output ::
    "('c, 'x) queue \<Rightarrow> nat \<Rightarrow> nat \<Rightarrow> 'x world \<Rightarrow> (int \<times> ('c, 'x) queue \<times> 'x world) res" where
  "pq_queue_file_output pq dst blk_len w = pq_queue_file_op pq dst blk_len False w"

section \<open>The items\<close>

definition file_source :: "nat \<Rightarrow> nat \<Rightarrow> ('c, 'x) qitem" where
  "file_source fh m = zero_item
     \<lparr>it_type := TYPE_SOURCE, it_cat_name := Some ''source'', it_sub_name := Some ''file'',
      it_len_in := 0, it_len_out := m, it_state := Some (St_File \<lparr>pf_fh = fh, pf_blk_len = m\<rparr>),
      it_proc := Some pq_cb_file_input, it_wait := None, it_exit := Some pq_cb_file_exit\<rparr>"

definition file_sink :: "nat \<Rightarrow> nat \<Rightarrow> ('c, 'x) qitem" where
  "file_sink fh m = zero_item
     \<lparr>it_type := TYPE_SINK, it_cat_name := Some ''sink'', it_sub_name := Some ''file'',
      it_len_in := m, it_len_out := 0, it_state := Some (St_File \<lparr>pf_fh = fh, pf_blk_len = m\<rparr>),
      it_proc := Some pq_cb_file_output, it_wait := None, it_exit := Some pq_cb_file_exit\<rparr>"

lemma appends_file:
  "appends (\<lambda>pq. pq_queue_file_input pq fh m) 1 (file_source fh m)"
  "appends (\<lambda>pq. pq_queue_file_output pq fh m) 1 (file_sink fh m)"
  unfolding appends_def pq_queue_file_input_def pq_queue_file_output_def
  by (auto simp: pq_queue_file_op_def pq_add_item_ok file_source_def file_sink_def push_item_def)

section \<open>The callbacks keep their contracts\<close>

definition file_st :: "nat \<Rightarrow> nat \<Rightarrow> 'c item_state option \<Rightarrow> bool" where
  "file_st fh m st \<longleftrightarrow> st = Some (St_File \<lparr>pf_fh = fh, pf_blk_len = m\<rparr>)"

interpretation file_input: stage pq_cb_file_input "file_st fh m" "\<lambda>_. True" "holds m"
    "\<lambda>_ _. True" "frame m" for fh m
proof unfold_locales
  fix st :: "'c item_state option" and w :: "'x world" and out inp :: "buf option" and n :: nat
  assume st: "file_st fh m st" and out: "holds m out"
  obtain d where d: "out = Some d" "m \<le> length d" using out by (auto simp: holds_def)
  obtain rv d' f where "fread_f (w_files w fh) m d = Inr (rv, d', f)" "length d' = length d"
      "rv = 0 \<or> rv = 1"
    using fread_f_safe [OF d(2)] by blast
  with st d show "\<exists>rv st' out' w'. pq_cb_file_input st out inp n w = Inr (rv, st', out', w') \<and>
      file_st fh m st' \<and> True \<and> holds m out' \<and> (0 \<le> rv \<longrightarrow> frame m out' (nat rv))"
    by (auto simp: pq_cb_file_input_def file_st_def fread_c_def frame_def)
qed

interpretation file_output: stage pq_cb_file_output "file_st fh m" "\<lambda>_. True" "\<lambda>_. True"
    "\<lambda>b n. holds n b" "\<lambda>_ n. n = 0" for fh m
proof unfold_locales
  fix st :: "'c item_state option" and w :: "'x world" and out inp :: "buf option" and n :: nat
  assume st: "file_st fh m st" and inp: "holds n inp"
  obtain d where d: "inp = Some d" "n \<le> length d" using inp by (auto simp: holds_def)
  obtain rv f where "fwrite_f (w_files w fh) n d = Inr (rv, f)"
    using fwrite_f_safe [OF d(2)] by blast
  with st d show "\<exists>rv st' out' w'. pq_cb_file_output st out inp n w = Inr (rv, st', out', w') \<and>
      file_st fh m st' \<and> True \<and> True \<and> (0 \<le> rv \<longrightarrow> nat rv = 0)"
    by (auto simp: pq_cb_file_output_def file_st_def fwrite_c_def)
qed

text \<open>The sink for any condition on the world that the contents of its own file do not matter to.\<close>

lemma file_output_stage:
  fixes W :: "'x world \<Rightarrow> bool"
  assumes W: "\<And>w f. W w \<Longrightarrow> W (w\<lparr>w_files := (w_files w)(fh := f)\<rparr>)"
  shows "stage pq_cb_file_output (file_st fh m :: 'c item_state option \<Rightarrow> bool) W (\<lambda>_. True)
           (\<lambda>b n. holds n b) (\<lambda>_ n. n = 0)"
proof unfold_locales
  fix st :: "'c item_state option" and w :: "'x world" and out inp :: "buf option" and n :: nat
  assume st: "file_st fh m st" and w: "W w" and inp: "holds n inp"
  obtain d where d: "inp = Some d" "n \<le> length d" using inp by (auto simp: holds_def)
  obtain rv f where "fwrite_f (w_files w fh) n d = Inr (rv, f)"
    using fwrite_f_safe [OF d(2)] by blast
  with st d w show "\<exists>rv st' out' w'. pq_cb_file_output st out inp n w = Inr (rv, st', out', w') \<and>
      file_st fh m st' \<and> W w' \<and> True \<and> (0 \<le> rv \<longrightarrow> nat rv = 0)"
    by (auto simp: pq_cb_file_output_def file_st_def fwrite_c_def W)
qed

text \<open>What a step of each does to the file.\<close>

lemma file_input_block:
  assumes "file_st fh m st" and "0 < m" and "m \<le> length d"
    and "fl_pos (w_files w fh) + m \<le> length (fl_data (w_files w fh))"
  shows "pq_cb_file_input st (Some d) inp n w =
    Inr (int m, st, Some (take m (drop (fl_pos (w_files w fh)) (fl_data (w_files w fh))) @ drop m d),
         w\<lparr>w_files := (w_files w)(fh := (w_files w fh)\<lparr>fl_pos := fl_pos (w_files w fh) + m\<rparr>)\<rparr>)"
  using assms by (simp add: pq_cb_file_input_def file_st_def fread_c_def mem_simps)

lemma file_input_end:
  assumes "file_st fh m st" and "m \<le> length d"
    and "length (fl_data (w_files w fh)) < fl_pos (w_files w fh) + m"
  shows "\<exists>d' w'. pq_cb_file_input st (Some d) inp n w = Inr (-1, st, Some d', w') \<and>
    length d' = length d \<and> (\<forall>h. h \<noteq> fh \<longrightarrow> w_files w' h = w_files w h)"
  using assms fread_f_end [of m d "w_files w fh"]
  by (cases "m = 0") (auto simp: pq_cb_file_input_def file_st_def fread_c_def)

lemma file_output_block:
  assumes "file_st fh m st" and "0 < n" and "n \<le> length d" and "fl_room (w_files w fh) = None"
  shows "pq_cb_file_output st out (Some d) n w =
    Inr (0, st, out, w\<lparr>w_files := (w_files w)(fh := (w_files w fh)
      \<lparr>fl_data := fl_data (w_files w fh) @ take n d, fl_pos := fl_pos (w_files w fh) + n\<rparr>)\<rparr>)"
  using assms by (simp add: pq_cb_file_output_def file_st_def fwrite_c_def mem_simps)

end
