(* ===== verification/Pq_Rtp.thy ===== *)
theory Pq_Rtp
  imports Item_State
begin

unbundle bit_operations_syntax

text \<open>
  RTP source and sink (\<^verbatim>\<open>src/pq_rtp.c\<close>). The bit fields of \<^verbatim>\<open>struct rtp_hdr\<close> are declared for
  either byte order so that they describe the same bytes; the model reads and writes the
  bytes: version, padding, extension and CSRC count in byte 0, marker and payload type in
  byte 1, then sequence number, timestamp and SSRC in network order.
\<close>

definition RTP_HDR_LEN :: nat where [simp, code_unfold]: "RTP_HDR_LEN = 12"
definition RTP_X_HDR_LEN :: nat where [simp, code_unfold]: "RTP_X_HDR_LEN = 4"
definition RTP_VERSION :: byte where [simp, code_unfold]: "RTP_VERSION = 2"

text \<open>Network byte order.\<close>

definition be16 :: "u16 \<Rightarrow> buf" where
  "be16 w = [ucast (drop_bit 8 w), ucast w]"

definition be32 :: "u32 \<Rightarrow> buf" where
  "be32 w = [ucast (drop_bit 24 w), ucast (drop_bit 16 w), ucast (drop_bit 8 w), ucast w]"

definition rd_be16 :: "buf \<Rightarrow> nat \<Rightarrow> u16 res" where
  "rd_be16 b i =
     bind_r (rd b i) (\<lambda>x. bind_r (rd b (i + 1)) (\<lambda>y. Inr (push_bit 8 (ucast x) OR ucast y)))"

definition rd_be32 :: "buf \<Rightarrow> nat \<Rightarrow> u32 res" where
  "rd_be32 b i =
     bind_r (rd b i) (\<lambda>x. bind_r (rd b (i + 1)) (\<lambda>y. bind_r (rd b (i + 2)) (\<lambda>z. bind_r (rd b (i + 3)) (\<lambda>v.
     Inr (push_bit 24 (ucast x) OR push_bit 16 (ucast y) OR push_bit 8 (ucast z) OR ucast v)))))"

text \<open>
  The parser of a datagram of \<open>rv\<close> bytes in \<open>b\<close>: offset and length of the payload, or
  \<open>None\<close> for the branches that report an error. Reading the padding count of an empty payload
  reads the byte before it.
\<close>

definition rtp_padding :: "buf \<Rightarrow> byte \<Rightarrow> nat \<Rightarrow> int \<Rightarrow> (nat \<times> int) option res" where
  "rtp_padding b b0 payload payload_len =
     (if bit b0 5 then
        if payload_len < 0 then Inr None
        else
          bind_r (rd b (nat (int payload + payload_len - 1))) (\<lambda>pad.
          let payload_len = payload_len - int (unat pad) in
          if payload_len < 0 then Inr None else Inr (Some (payload, payload_len)))
      else Inr (Some (payload, payload_len)))"

definition rtp_parse :: "buf \<Rightarrow> int \<Rightarrow> (nat \<times> int) option res" where
  "rtp_parse b rv =
     (if rv < int RTP_HDR_LEN then Inr None
      else
        bind_r (rd b 0) (\<lambda>b0.
        if drop_bit 6 b0 \<noteq> RTP_VERSION then Inr None
        else
          let csrc = unat (b0 AND 15);
              payload = RTP_HDR_LEN + 4 * csrc;
              payload_len = rv - int RTP_HDR_LEN - int (4 * csrc)
          in if payload_len < 0 then Inr None
             else if bit b0 4 then
               if payload_len < int RTP_X_HDR_LEN then Inr None
               else
                 bind_r (rd_be16 b (payload + 2)) (\<lambda>xl.
                 let x_len = unat xl * 4 + RTP_X_HDR_LEN;
                     payload = payload + x_len;
                     payload_len = payload_len - int x_len
                 in if payload_len < 0 then Inr None
                    else rtp_padding b b0 payload payload_len)
             else rtp_padding b b0 payload payload_len))"

definition pq_cb_rtp_input :: "('c, 'x) callback" where
  "pq_cb_rtp_input st out inp in_len w =
     (case st of
        Some (St_Rtp state) \<Rightarrow>
          (let (rv, b, w) = sock_read (pr_fd state) (pr_blk_len state + 256) w
           in if rv \<le> 0 then Inr (-1, st, out, w)
              else
                bind_r (rtp_parse b rv) (\<lambda>r.
                case r of
                  None \<Rightarrow> Inr (-1, st, out, w)
                | Some (payload, payload_len) \<Rightarrow>
                    bind_r (rd_be32 b 8) (\<lambda>ssrc.
                    bind_r (rd_be32 b 4) (\<lambda>ts.
                    bind_r (rd_be16 b 2) (\<lambda>sq.
                    let state = state\<lparr>pr_ssrc := ssrc, pr_timestamp := ts, pr_sequence := sq\<rparr> in
                    bind_r (deref out) (\<lambda>d.
                    bind_r (memcpy_c d 0 b payload (nat payload_len)) (\<lambda>d.
                    Inr (payload_len, Some (St_Rtp state), Some d, w))))))))
      | _ \<Rightarrow> Inl Bad_State)"

definition rtp_packet :: "pq_state_rtp \<Rightarrow> buf \<Rightarrow> buf" where
  "rtp_packet state payload =
     [push_bit 6 RTP_VERSION, pr_payload_type state AND 127] @ be16 (pr_sequence state) @
     be32 (pr_timestamp state) @ be32 (pr_ssrc state) @ payload"

definition pq_cb_rtp_output :: "('c, 'x) callback" where
  "pq_cb_rtp_output st out inp in_len w =
     (case st of
        Some (St_Rtp state) \<Rightarrow>
          bind_r (if in_len = 0 then Inr [] else deref inp) (\<lambda>d.
          bind_r (memcpy_c (replicate in_len 0) 0 d 0 in_len) (\<lambda>payload.
          let p = rtp_packet state payload;
              state = state\<lparr>pr_sequence := pr_sequence state + 1,
                            pr_timestamp := pr_timestamp state + pr_duration state\<rparr>;
              (rv, w) = sock_write (pr_fd state) p w
          in Inr (if rv = int (in_len + RTP_HDR_LEN) then 0 else -1, Some (St_Rtp state), out, w)))
      | _ \<Rightarrow> Inl Bad_State)"

definition pq_cb_rtp_exit :: "'c item_state option \<Rightarrow> 'x world \<Rightarrow> 'x world res" where
  "pq_cb_rtp_exit st w = Inr (release w)"

definition rtp_new_state :: "nat \<Rightarrow> nat \<Rightarrow> bool \<Rightarrow> byte \<Rightarrow> 'x world \<Rightarrow> pq_state_rtp \<times> 'x world" where
  "rtp_new_state udp_fd blk_len in_out_n pt w =
     (let state = \<lparr>pr_fd = udp_fd, pr_blk_len = blk_len, pr_duration = 160, pr_payload_type = pt,
                   pr_sequence = 0, pr_timestamp = 0, pr_ssrc = 0\<rparr>
      in if in_out_n then (state, w)
         else
           (let (r, w) = random_c w; state = state\<lparr>pr_ssrc := r\<rparr>;
                (r, w) = random_c w; state = state\<lparr>pr_sequence := ucast r\<rparr>;
                (r, w) = random_c w; state = state\<lparr>pr_timestamp := r\<rparr>
            in (state, w)))"

definition pq_queue_rtp_op ::
    "('c, 'x) queue \<Rightarrow> nat \<Rightarrow> nat \<Rightarrow> bool \<Rightarrow> byte \<Rightarrow> 'x world \<Rightarrow>
     (int \<times> ('c, 'x) queue \<times> 'x world) res" where
  "pq_queue_rtp_op pq udp_fd blk_len in_out_n pt w =
     (case alloc w of
        (False, w) \<Rightarrow> Inr (- ENOMEM, pq, w)
      | (True, w) \<Rightarrow>
          (let (state, w) = rtp_new_state udp_fd blk_len in_out_n pt w
           in bind_r (pq_add_item pq w) (\<lambda>(ok, pq, w).
              if \<not> ok then Inr (- ENOMEM, pq, release w)
              else
                Inr (0, upd_last (\<lambda>item. item
                       \<lparr>it_type := (if in_out_n then TYPE_SOURCE else TYPE_SINK),
                        it_cat_name := Some (if in_out_n then ''source'' else ''sink''),
                        it_sub_name := Some ''rtp'',
                        it_len_in := (if in_out_n then 0 else blk_len),
                        it_len_out := (if in_out_n then blk_len else 0),
                        it_state := Some (St_Rtp state),
                        it_proc := Some (if in_out_n then pq_cb_rtp_input else pq_cb_rtp_output),
                        it_wait := None,
                        it_exit := Some pq_cb_rtp_exit\<rparr>) pq, w))))"

definition pq_queue_rtp_input ::
    "('c, 'x) queue \<Rightarrow> nat \<Rightarrow> nat \<Rightarrow> byte \<Rightarrow> 'x world \<Rightarrow> (int \<times> ('c, 'x) queue \<times> 'x world) res" where
  "pq_queue_rtp_input pq udp_fd blk_len pt w = pq_queue_rtp_op pq udp_fd blk_len True pt w"

definition pq_queue_rtp_output ::
    "('c, 'x) queue \<Rightarrow> nat \<Rightarrow> nat \<Rightarrow> byte \<Rightarrow> 'x world \<Rightarrow> (int \<times> ('c, 'x) queue \<times> 'x world) res" where
  "pq_queue_rtp_output pq udp_fd blk_len pt w = pq_queue_rtp_op pq udp_fd blk_len False pt w"

section \<open>The parser stays inside the datagram\<close>

text \<open>
  It reads only received bytes, and a payload it reports lies inside the datagram, behind the
  fixed header.
\<close>

lemma rd_ex: "i < length b \<Longrightarrow> \<exists>x. rd b i = Inr x"
  by (simp add: rd_def)

lemma rd_be16_ex: "i + 1 < length b \<Longrightarrow> \<exists>x. rd_be16 b i = Inr x"
  by (simp add: rd_be16_def rd_def)

lemma rd_be32_ex: "i + 3 < length b \<Longrightarrow> \<exists>x. rd_be32 b i = Inr x"
  by (simp add: rd_be32_def rd_def)

lemma rtp_padding_safe:
  assumes "12 \<le> off" "0 \<le> n" "int off + n = int (length b)"
  shows "\<exists>r. rtp_padding b b0 off n = Inr r \<and>
    (\<forall>o' n'. r = Some (o', n') \<longrightarrow> 12 \<le> o' \<and> 0 \<le> n' \<and> int o' + n' \<le> int (length b))"
proof -
  have "nat (int off + n - 1) < length b" using assms by linarith
  then obtain x where "rd b (nat (int off + n - 1)) = Inr x" using rd_ex by blast
  moreover have "int off + (n - uint x) \<le> int (length b)"
  proof -
    have "0 \<le> uint x" by simp
    then show ?thesis using assms(3) by linarith
  qed
  ultimately show ?thesis using assms by (auto simp: rtp_padding_def Let_def)
qed

lemma rtp_parse_safe:
  "\<exists>r. rtp_parse b (int (length b)) = Inr r \<and>
    (\<forall>o' n'. r = Some (o', n') \<longrightarrow> 12 \<le> o' \<and> 0 \<le> n' \<and> int o' + n' \<le> int (length b))"
proof (cases "length b < 12")
  case False
  then obtain b0 where b0: "rd b 0 = Inr b0" using rd_ex [of 0 b] by (cases b) auto
  define k where "k = unat (b0 AND 15)"
  define n where "n = int (length b) - 12 - int (4 * k)"
  show ?thesis
  proof (cases "drop_bit 6 b0 \<noteq> RTP_VERSION \<or> n < 0")
    case True
    then show ?thesis using False b0 by (auto simp: rtp_parse_def k_def n_def Let_def)
  next
    case ok: False
    show ?thesis
    proof (cases "bit b0 4")
      case noext: False
      have "rtp_parse b (int (length b)) = rtp_padding b b0 (12 + 4 * k) n"
        using ok noext b0 False by (simp add: rtp_parse_def k_def n_def Let_def)
      then show ?thesis using rtp_padding_safe [of "12 + 4 * k" n b b0] ok by (simp add: n_def)
    next
      case ext: True
      show ?thesis
      proof (cases "n < 4")
        case True
        then show ?thesis using ok ext b0 False by (auto simp: rtp_parse_def k_def n_def Let_def)
      next
        case n4: False
        then have "12 + 4 * k + 2 + 1 < length b" unfolding n_def by linarith
        then obtain xl where xl: "rd_be16 b (12 + 4 * k + 2) = Inr xl" using rd_be16_ex by blast
        define x where "x = unat xl * 4 + 4"
        have p: "rtp_parse b (int (length b)) =
            (if n - int x < 0 then Inr None else rtp_padding b b0 (12 + 4 * k + x) (n - int x))"
          using ok ext b0 False n4 xl by (simp add: rtp_parse_def k_def n_def x_def Let_def)
        show ?thesis
          unfolding p using rtp_padding_safe [of "12 + 4 * k + x" "n - int x" b b0]
          by (simp add: n_def)
      qed
    qed
  qed
qed (simp add: rtp_parse_def)

section \<open>Round trip\<close>

lemma length_be16 [simp]: "length (be16 x) = 2"
  by (simp add: be16_def)

lemma length_be32 [simp]: "length (be32 x) = 4"
  by (simp add: be32_def)

lemma length_rtp_packet [simp]: "length (rtp_packet s p) = 12 + length p"
  by (simp add: rtp_packet_def)

lemma be16_word: "push_bit 8 (ucast (ucast (drop_bit 8 (x::u16)) :: byte)) OR ucast (ucast x :: byte) = x"
  by (rule bit_word_eqI) (auto simp: bit_simps)

lemma be32_word:
  "push_bit 24 (ucast (ucast (drop_bit 24 (x::u32)) :: byte)) OR
   push_bit 16 (ucast (ucast (drop_bit 16 x) :: byte)) OR
   push_bit 8 (ucast (ucast (drop_bit 8 x) :: byte)) OR ucast (ucast x :: byte) = x"
proof (rule bit_word_eqI)
  fix n assume "n < LENGTH(32)"
  then consider "n < 8" | "8 \<le> n" "n < 16" | "16 \<le> n" "n < 24" | "24 \<le> n" "n < 32"
    by (simp add: not_less) linarith
  then show "bit (push_bit 24 (ucast (ucast (drop_bit 24 x) :: byte)) OR
      push_bit 16 (ucast (ucast (drop_bit 16 x) :: byte)) OR
      push_bit 8 (ucast (ucast (drop_bit 8 x) :: byte)) OR ucast (ucast x :: byte) :: u32) n = bit x n"
    by cases (auto simp: bit_simps)
qed

lemma rtp_packet_fields:
  "rd (rtp_packet s p) 0 = Inr 0x80"
  "rd_be16 (rtp_packet s p) 2 = Inr (pr_sequence s)"
  "rd_be32 (rtp_packet s p) 4 = Inr (pr_timestamp s)"
  "rd_be32 (rtp_packet s p) 8 = Inr (pr_ssrc s)"
  "drop 12 (rtp_packet s p) = p"
  by (simp_all add: rtp_packet_def rd_def rd_be16_def rd_be32_def be16_def be32_def be16_word be32_word
      nth_Cons')

lemma rtp_parse_packet: "rtp_parse (rtp_packet s p) (int (12 + length p)) = Inr (Some (12, int (length p)))"
proof -
  have "drop_bit 6 (0x80 :: byte) = 2" "(0x80 :: byte) AND 15 = 0" "\<not> bit (0x80 :: byte) 4"
      "\<not> bit (0x80 :: byte) 5"
    by (simp_all add: bit_numeral_rec)
  then show ?thesis by (simp add: rtp_parse_def rtp_packet_fields rtp_padding_def Let_def)
qed

lemma rtp_output_step:
  assumes "n \<le> length d" and "so_wr (w_socks w (pr_fd s)) = []"
  shows "pq_cb_rtp_output (Some (St_Rtp s)) out (Some d) n w =
    Inr (0, Some (St_Rtp (s\<lparr>pr_sequence := pr_sequence s + 1,
                            pr_timestamp := pr_timestamp s + pr_duration s\<rparr>)), out,
         w\<lparr>w_socks := (w_socks w)(pr_fd s := (w_socks w (pr_fd s))
            \<lparr>so_tx := so_tx (w_socks w (pr_fd s)) @ [rtp_packet s (take n d)]\<rparr>)\<rparr>)"
  using assms by (cases "n = 0") (simp_all add: pq_cb_rtp_output_def mem_simps sock_write_def Let_def)

lemma rtp_input_packet:
  assumes rx: "so_rx (w_socks w (pr_fd r)) = Some (rtp_packet s p) # ds"
    and n: "length p \<le> length d" "length p \<le> pr_blk_len r + 244"
  shows "pq_cb_rtp_input (Some (St_Rtp r)) (Some d) inp k w =
    Inr (int (length p), Some (St_Rtp (r\<lparr>pr_ssrc := pr_ssrc s, pr_timestamp := pr_timestamp s,
                                        pr_sequence := pr_sequence s\<rparr>)),
         Some (p @ drop (length p) d),
         w\<lparr>w_socks := (w_socks w)(pr_fd r := (w_socks w (pr_fd r))\<lparr>so_rx := ds\<rparr>)\<rparr>)"
proof -
  have "sock_read (pr_fd r) (pr_blk_len r + 256) w =
      (int (12 + length p), rtp_packet s p,
       w\<lparr>w_socks := (w_socks w)(pr_fd r := (w_socks w (pr_fd r))\<lparr>so_rx := ds\<rparr>)\<rparr>)"
    using rx n by (simp add: sock_read_def Let_def)
  moreover have "memcpy_c d 0 (rtp_packet s p) 12 (length p) = Inr (p @ drop (length p) d)"
    using n by (simp add: memcpy_c_def rtp_packet_fields)
  ultimately show ?thesis
    using rtp_parse_packet [of s p]
    by (simp add: pq_cb_rtp_input_def rtp_packet_fields)
qed

text \<open>A payload that does not fit the block overflows the output object.\<close>

lemma rtp_input_overflow:
  assumes rx: "so_rx (w_socks w (pr_fd r)) = Some (rtp_packet s p) # ds"
    and n: "length d < length p" "length p \<le> pr_blk_len r + 244"
  shows "pq_cb_rtp_input (Some (St_Rtp r)) (Some d) inp k w = Inl Out_Of_Bounds"
proof -
  have "sock_read (pr_fd r) (pr_blk_len r + 256) w =
      (int (12 + length p), rtp_packet s p,
       w\<lparr>w_socks := (w_socks w)(pr_fd r := (w_socks w (pr_fd r))\<lparr>so_rx := ds\<rparr>)\<rparr>)"
    using rx n by (simp add: sock_read_def Let_def)
  then show ?thesis
    using rtp_parse_packet [of s p] n
    by (simp add: pq_cb_rtp_input_def rtp_packet_fields memcpy_c_def)
qed

section \<open>The items and their contracts\<close>

definition rtp_source :: "nat \<Rightarrow> nat \<Rightarrow> byte \<Rightarrow> ('c, 'x) qitem" where
  "rtp_source fd m pt = zero_item
     \<lparr>it_type := TYPE_SOURCE, it_cat_name := Some ''source'', it_sub_name := Some ''rtp'',
      it_len_in := 0, it_len_out := m,
      it_state := Some (St_Rtp \<lparr>pr_fd = fd, pr_blk_len = m, pr_duration = 160, pr_payload_type = pt,
                               pr_sequence = 0, pr_timestamp = 0, pr_ssrc = 0\<rparr>),
      it_proc := Some pq_cb_rtp_input, it_wait := None, it_exit := Some pq_cb_rtp_exit\<rparr>"

definition rtp_sink :: "nat \<Rightarrow> nat \<Rightarrow> byte \<Rightarrow> u32 \<Rightarrow> u32 \<Rightarrow> u32 \<Rightarrow> ('c, 'x) qitem" where
  \<comment> \<open>with the three random numbers it starts from\<close>
  "rtp_sink fd m pt r1 r2 r3 = zero_item
     \<lparr>it_type := TYPE_SINK, it_cat_name := Some ''sink'', it_sub_name := Some ''rtp'',
      it_len_in := m, it_len_out := 0,
      it_state := Some (St_Rtp \<lparr>pr_fd = fd, pr_blk_len = m, pr_duration = 160, pr_payload_type = pt,
                               pr_sequence = ucast r2, pr_timestamp = r3, pr_ssrc = r1\<rparr>),
      it_proc := Some pq_cb_rtp_output, it_wait := None, it_exit := Some pq_cb_rtp_exit\<rparr>"

lemma random_c_frame:
  "random_c w = (r, w') \<Longrightarrow> w_mem w' = w_mem w \<and> w_files w' = w_files w \<and> w_socks w' = w_socks w \<and>
     w_live w' = w_live w \<and> w_bench w' = w_bench w"
  by (auto simp: random_c_def split: list.splits)

lemma appends_rtp_source: "appends (\<lambda>pq. pq_queue_rtp_input pq fd m pt) 1 (rtp_source fd m pt)"
  unfolding appends_def pq_queue_rtp_input_def
  by (auto simp: pq_queue_rtp_op_def rtp_new_state_def pq_add_item_ok rtp_source_def push_item_def)

text \<open>The sink depends on the random numbers, so it is one of the possible items.\<close>

lemma rtp_output_appended:
  assumes "w_mem w = []" and "all_live (pq_items pq)"
  shows "\<exists>r1 r2 r3 w'. pq_queue_rtp_output pq fd m pt w =
     Inr (0, push_item (rtp_sink fd m pt r1 r2 r3) pq, w') \<and> w_mem w' = [] \<and>
     w_files w' = w_files w \<and> w_socks w' = w_socks w \<and> w_bench w' = w_bench w \<and>
     w_live w' = w_live w + 2"
proof -
  let ?w = "w\<lparr>w_allocs := w_allocs w + 1, w_live := w_live w + 1\<rparr>"
  obtain r1 w1 where 1: "random_c ?w = (r1, w1)" by force
  obtain r2 w2 where 2: "random_c w1 = (r2, w2)" by force
  obtain r3 w3 where 3: "random_c w2 = (r3, w3)" by force
  have "w_mem w3 = []" "w_files w3 = w_files w" "w_socks w3 = w_socks w"
      "w_bench w3 = w_bench w" "w_live w3 = w_live w + 1"
    using assms(1) random_c_frame [OF 1] random_c_frame [OF 2] random_c_frame [OF 3] by simp_all
  then show ?thesis
    using assms 1 2 3
    by (auto simp: pq_queue_rtp_output_def pq_queue_rtp_op_def rtp_new_state_def pq_add_item_ok
        rtp_sink_def push_item_def Let_def)
qed

definition rtp_st :: "nat \<Rightarrow> nat \<Rightarrow> 'c item_state option \<Rightarrow> bool" where
  "rtp_st fd m st \<longleftrightarrow> (\<exists>s. st = Some (St_Rtp s) \<and> pr_fd s = fd \<and> pr_blk_len s = m)"

definition rx_fits :: "nat \<Rightarrow> nat \<Rightarrow> 'x world \<Rightarrow> bool" where
  \<comment> \<open>every datagram still to be read has room for at most \<open>m\<close> bytes of payload\<close>
  "rx_fits fd m w \<longleftrightarrow> (\<forall>p. Some p \<in> set (so_rx (w_socks w fd)) \<longrightarrow> length p \<le> m + 12)"

lemma sock_read_cases:
  assumes "sock_read fd n w = (rv, b, w')"
  shows "(rv \<le> 0 \<or> rv = int (length b)) \<and> length b \<le> n \<and>
    (rx_fits fd m w \<longrightarrow> rx_fits fd m w' \<and> length b \<le> m + 12)"
  using assms
  by (auto simp: sock_read_def rx_fits_def Let_def split: list.splits option.splits)

interpretation rtp_input: stage pq_cb_rtp_input "rtp_st fd m" "rx_fits fd m" "holds m"
    "\<lambda>_ _. True" "\<lambda>b n. n \<le> m \<and> holds m b" for fd m
proof unfold_locales
  fix st :: "'c item_state option" and w :: "'x world" and out inp :: "buf option" and n :: nat
  assume st: "rtp_st fd m st" and w: "rx_fits fd m w" and out: "holds m out"
  obtain s where s: "st = Some (St_Rtp s)" "pr_fd s = fd" "pr_blk_len s = m"
    using st by (auto simp: rtp_st_def)
  obtain d where d: "out = Some d" "m \<le> length d" using out by (auto simp: holds_def)
  obtain rv b w' where rd: "sock_read fd (m + 256) w = (rv, b, w')" by (metis prod_cases3)
  note c = sock_read_cases [OF rd, of m]
  show "\<exists>rv st' out' w'. pq_cb_rtp_input st out inp n w = Inr (rv, st', out', w') \<and>
      rtp_st fd m st' \<and> rx_fits fd m w' \<and> holds m out' \<and> (0 \<le> rv \<longrightarrow> nat rv \<le> m \<and> holds m out')"
  proof (cases "rv \<le> 0")
    case True
    then show ?thesis using s d rd c w st by (simp add: pq_cb_rtp_input_def)
  next
    case False
    then have rv: "rv = int (length b)" using c by simp
    obtain r where r: "rtp_parse b rv = Inr r"
        "\<forall>o' n'. r = Some (o', n') \<longrightarrow> 12 \<le> o' \<and> 0 \<le> n' \<and> int o' + n' \<le> int (length b)"
      unfolding rv using rtp_parse_safe by blast
    show ?thesis
    proof (cases r)
      case None
      then show ?thesis using s d rd c w st r False by (simp add: pq_cb_rtp_input_def)
    next
      case (Some on)
      obtain off k where on: "on = (off, k)" by force
      then have k: "12 \<le> off" "0 \<le> k" "int off + k \<le> int (length b)" using r Some by auto
      then have len: "12 \<le> length b" "off + nat k \<le> length b" "nat k \<le> m" using c w by auto
      obtain a1 a2 a3 where a: "rd_be32 b 8 = Inr a1" "rd_be32 b 4 = Inr a2" "rd_be16 b 2 = Inr a3"
        using rd_be32_ex [of 8 b] rd_be32_ex [of 4 b] rd_be16_ex [of 2 b] len by auto
      let ?d = "take (nat k) (drop off b) @ drop (nat k) d"
      have "memcpy_c d 0 b off (nat k) = Inr ?d" using len d by (simp add: mem_simps)
      moreover have "length ?d = length d" using len d by simp
      ultimately show ?thesis
        using s d rd c w r False Some on a k len
        by (auto simp: pq_cb_rtp_input_def rtp_st_def Let_def)
    qed
  qed
qed

lemma rtp_output_safe:
  assumes "rtp_st fd m st" and "holds n inp"
  shows "\<exists>rv st' w'. pq_cb_rtp_output st out inp n w = Inr (rv, st', out, w') \<and> rtp_st fd m st' \<and>
    rv \<le> 0 \<and> (\<exists>s. w' = w\<lparr>w_socks := s\<rparr> \<and> (\<forall>h. so_rx (s h) = so_rx (w_socks w h)))"
proof -
  obtain s where s: "st = Some (St_Rtp s)" "pr_fd s = fd" "pr_blk_len s = m"
    using assms(1) by (auto simp: rtp_st_def)
  obtain d where d: "inp = Some d" "n \<le> length d" using assms(2) by (auto simp: holds_def)
  have "(if n = 0 then Inr [] else deref inp) = Inr (if n = 0 then [] else d)" using d by simp
  moreover have "memcpy_c (replicate n 0) 0 (if n = 0 then [] else d) 0 n = Inr (take n d)"
    using d by (simp add: memcpy_c_def)
  ultimately show ?thesis
    using s
    by (auto simp: pq_cb_rtp_output_def rtp_st_def sock_write_def Let_def split: list.splits)
qed

interpretation rtp_output: stage pq_cb_rtp_output "rtp_st fd m" "\<lambda>_. True" "\<lambda>_. True"
    "\<lambda>b n. holds n b" "\<lambda>_ n. n = 0" for fd m
  by unfold_locales (use rtp_output_safe in fastforce)

lemma rtp_output_stage:
  fixes W :: "'x world \<Rightarrow> bool"
  assumes W: "\<And>w s. W w \<Longrightarrow> W (w\<lparr>w_socks := s\<rparr>)"
  shows "stage pq_cb_rtp_output (rtp_st fd m :: 'c item_state option \<Rightarrow> bool) W (\<lambda>_. True)
           (\<lambda>b n. holds n b) (\<lambda>_ n. n = 0)"
proof unfold_locales
  fix st :: "'c item_state option" and w :: "'x world" and out inp :: "buf option" and n :: nat
  assume st: "rtp_st fd m st" and w: "W w" and inp: "holds n inp"
  then show "\<exists>rv st' out' w'. pq_cb_rtp_output st out inp n w = Inr (rv, st', out', w') \<and>
      rtp_st fd m st' \<and> W w' \<and> True \<and> (0 \<le> rv \<longrightarrow> nat rv = 0)"
    using rtp_output_safe [OF st inp, of out w] W [OF w] by auto
qed

section \<open>The stream\<close>

text \<open>
  Sending the payloads \<open>ps\<close> one after the other: sequence numbers and timestamps advance by
  one and by the duration, modulo the width of their fields.
\<close>

fun send_all :: "pq_state_rtp \<Rightarrow> buf list \<Rightarrow> 'x world \<Rightarrow> (pq_state_rtp \<times> 'x world) res" where
  "send_all s [] w = Inr (s, w)"
| "send_all s (p # ps) w =
     bind_r (pq_cb_rtp_output (Some (St_Rtp s) :: unit item_state option) None (Some p) (length p) w)
       (\<lambda>(rv, st, out, w).
       case st of Some (St_Rtp s) \<Rightarrow> if rv < 0 then Inr (s, w) else send_all s ps w
                | _ \<Rightarrow> Inl Bad_State)"

definition advance :: "pq_state_rtp \<Rightarrow> nat \<Rightarrow> pq_state_rtp" where
  "advance s k = s\<lparr>pr_sequence := pr_sequence s + of_nat k,
                   pr_timestamp := pr_timestamp s + of_nat k * pr_duration s\<rparr>"

lemma advance_Suc: "advance (s\<lparr>pr_sequence := pr_sequence s + 1,
     pr_timestamp := pr_timestamp s + pr_duration s\<rparr>) k = advance s (Suc k)"
  by (simp add: advance_def algebra_simps)

lemma advance_0 [simp]: "advance s 0 = s"
  by (simp add: advance_def)

lemma send_all_spec:
  assumes "so_wr (w_socks w (pr_fd s)) = []"
  shows "\<exists>w'. send_all s ps w = Inr (advance s (length ps), w') \<and>
    so_tx (w_socks w' (pr_fd s)) = so_tx (w_socks w (pr_fd s)) @
      map (\<lambda>i. rtp_packet (advance s i) (ps ! i)) [0..<length ps]"
  using assms
proof (induction ps arbitrary: s w)
  case (Cons p ps)
  let ?s = "s\<lparr>pr_sequence := pr_sequence s + 1, pr_timestamp := pr_timestamp s + pr_duration s\<rparr>"
  let ?w = "w\<lparr>w_socks := (w_socks w)(pr_fd s := (w_socks w (pr_fd s))
              \<lparr>so_tx := so_tx (w_socks w (pr_fd s)) @ [rtp_packet s p]\<rparr>)\<rparr>"
  obtain w' where w': "send_all ?s ps ?w = Inr (advance ?s (length ps), w')"
      "so_tx (w_socks w' (pr_fd s)) = so_tx (w_socks ?w (pr_fd s)) @
        map (\<lambda>i. rtp_packet (advance ?s i) (ps ! i)) [0..<length ps]"
    using Cons.IH [of ?w ?s] Cons.prems by auto
  have "pq_cb_rtp_output (Some (St_Rtp s) :: unit item_state option) None (Some p) (length p) w =
      Inr (0, Some (St_Rtp ?s), None, ?w)"
    using Cons.prems by (simp add: rtp_output_step)
  then have "send_all s (p # ps) w = send_all ?s ps ?w" by simp
  moreover have "[0..<length (p # ps)] = 0 # map Suc [0..<length ps]"
    by (simp add: map_Suc_upt upt_conv_Cons del: upt_Suc)
  ultimately show ?case
    using w' by (simp add: advance_Suc comp_def del: upt_Suc)
qed simp

text \<open>
  Receiving \<open>n\<close> datagrams, each into an output object of the block length; the payloads come
  out in the order in which they were sent.
\<close>

fun recv_all :: "nat \<Rightarrow> pq_state_rtp \<Rightarrow> 'x world \<Rightarrow> (buf list \<times> pq_state_rtp \<times> 'x world) res" where
  "recv_all 0 r w = Inr ([], r, w)"
| "recv_all (Suc n) r w =
     bind_r (pq_cb_rtp_input (Some (St_Rtp r) :: unit item_state option)
               (Some (replicate (pr_blk_len r) 0)) None 0 w) (\<lambda>(rv, st, out, w).
     case (st, out) of
       (Some (St_Rtp r), Some d) \<Rightarrow>
         if rv < 0 then Inr ([], r, w)
         else bind_r (recv_all n r w) (\<lambda>(ps, r, w). Inr (take (nat rv) d # ps, r, w))
     | _ \<Rightarrow> Inl Bad_State)"

fun packets :: "pq_state_rtp \<Rightarrow> buf list \<Rightarrow> buf list" where
  "packets s [] = []"
| "packets s (p # ps) = rtp_packet s p # packets (advance s 1) ps"

lemma advance_add: "advance (advance s i) j = advance s (i + j)"
  by (simp add: advance_def algebra_simps)

lemma packets_map: "packets s ps = map (\<lambda>i. rtp_packet (advance s i) (ps ! i)) [0..<length ps]"
proof (induction ps arbitrary: s)
  case (Cons p ps)
  have "[0..<length (p # ps)] = 0 # map Suc [0..<length ps]"
    by (simp add: map_Suc_upt upt_conv_Cons del: upt_Suc)
  then show ?case using Cons [of "advance s 1"] by (simp add: advance_add comp_def del: upt_Suc)
qed simp

lemma recv_packets:
  assumes "so_rx (w_socks w (pr_fd r)) = map Some (packets s ps)" and "\<forall>p \<in> set ps. length p \<le> pr_blk_len r"
  shows "\<exists>w'. recv_all (length ps) r w = Inr (ps,
    (if ps = [] then r
     else r\<lparr>pr_ssrc := pr_ssrc s, pr_timestamp := pr_timestamp (advance s (length ps - 1)),
            pr_sequence := pr_sequence (advance s (length ps - 1))\<rparr>), w')"
  using assms
proof (induction ps arbitrary: s r w)
  case (Cons p ps)
  let ?r = "r\<lparr>pr_ssrc := pr_ssrc s, pr_timestamp := pr_timestamp s, pr_sequence := pr_sequence s\<rparr>"
  let ?w = "w\<lparr>w_socks := (w_socks w)(pr_fd r := (w_socks w (pr_fd r))
              \<lparr>so_rx := map Some (packets (advance s 1) ps)\<rparr>)\<rparr>"
  have in1: "pq_cb_rtp_input (Some (St_Rtp r) :: unit item_state option) (Some (replicate (pr_blk_len r) 0)) None 0 w =
      Inr (int (length p), Some (St_Rtp ?r), Some (p @ drop (length p) (replicate (pr_blk_len r) 0)), ?w)"
    by (rule rtp_input_packet) (use Cons.prems in simp_all)
  obtain w' where "recv_all (length ps) ?r ?w = Inr (ps,
      (if ps = [] then ?r
       else ?r\<lparr>pr_ssrc := pr_ssrc (advance s 1), pr_timestamp := pr_timestamp (advance (advance s 1) (length ps - 1)),
              pr_sequence := pr_sequence (advance (advance s 1) (length ps - 1))\<rparr>), w')"
    using Cons.IH [of ?w ?r "advance s 1"] Cons.prems(2) by auto
  moreover have "pr_ssrc (advance s 1) = pr_ssrc s" by (simp add: advance_def)
  ultimately show ?case using in1 by (cases ps) (simp_all add: advance_add)
qed simp

lemma rtp_stream:
  fixes w :: "'x world" and w2 :: "'y world"
  assumes wr: "so_wr (w_socks w (pr_fd s)) = []" and tx: "so_tx (w_socks w (pr_fd s)) = []"
    and send: "send_all s ps w = Inr (s', w')"
    and net: "so_rx (w_socks w2 (pr_fd r)) = map Some (so_tx (w_socks w' (pr_fd s)))"
    and len: "\<forall>p \<in> set ps. length p \<le> pr_blk_len r"
  shows "\<exists>r' w3. recv_all (length ps) r w2 = Inr (ps, r', w3) \<and>
    (ps \<noteq> [] \<longrightarrow> pr_ssrc r' = pr_ssrc s \<and> pr_sequence r' + 1 = pr_sequence s' \<and>
       pr_timestamp r' + pr_duration s = pr_timestamp s')"
proof -
  have s': "s' = advance s (length ps)" and "so_tx (w_socks w' (pr_fd s)) = packets s ps"
    using send_all_spec [OF wr, of ps] send tx by (auto simp: packets_map)
  then have rx: "so_rx (w_socks w2 (pr_fd r)) = map Some (packets s ps)" using net by simp
  have "pr_sequence (advance s (length ps - 1)) + 1 = pr_sequence s'"
      "pr_timestamp (advance s (length ps - 1)) + pr_duration s = pr_timestamp s'" if "ps \<noteq> []"
    using that s' by (cases ps; simp add: advance_def algebra_simps)+
  then show ?thesis using recv_packets [OF rx len] by auto
qed

end
