(* ===== verification/Pq_Alsa.thy ===== *)
theory Pq_Alsa
  imports Item_State
begin

text \<open>
  ALSA source and sink (\<^verbatim>\<open>src/pq_alsa.c\<close>). The ALSA library is the parameter \<open>A\<close>: functions on
  the external part \<open>w_ext\<close> of the world, with handles as numbers. Reading returns the
  count of samples and their bytes; the library writes two bytes per sample.
\<close>

datatype snd_pcm_hw_call =
    HW_MALLOC
  | HW_ANY
  | HW_SET_ACCESS_RW_INTERLEAVED
  | HW_SET_FORMAT_S16_LE
  | HW_SET_RATE nat
  | HW_SET_CHANNELS nat
  | HW_PARAMS

record 'x alsa_lib =
  snd_pcm_open :: "string \<Rightarrow> bool \<Rightarrow> 'x \<Rightarrow> int \<times> nat \<times> 'x"  \<comment> \<open>device, capture\<close>
  snd_pcm_hw :: "snd_pcm_hw_call \<Rightarrow> nat \<Rightarrow> 'x \<Rightarrow> int \<times> 'x"
  snd_pcm_hw_free :: "'x \<Rightarrow> 'x"
  snd_pcm_close :: "nat \<Rightarrow> 'x \<Rightarrow> 'x"
  snd_pcm_prepare :: "nat \<Rightarrow> 'x \<Rightarrow> 'x"
  snd_pcm_readi :: "nat \<Rightarrow> nat \<Rightarrow> 'x \<Rightarrow> int \<times> buf \<times> 'x"
  snd_pcm_writei :: "nat \<Rightarrow> buf \<Rightarrow> 'x \<Rightarrow> int \<times> 'x"
  snd_pcm_avail_update :: "nat \<Rightarrow> 'x \<Rightarrow> int \<times> 'x"

definition ext_call :: "('x \<Rightarrow> 'a \<times> 'x) \<Rightarrow> 'x world \<Rightarrow> 'a \<times> 'x world" where
  "ext_call f w = (let (r, x) = f (w_ext w) in (r, w\<lparr>w_ext := x\<rparr>))"

definition ext_do :: "('x \<Rightarrow> 'x) \<Rightarrow> 'x world \<Rightarrow> 'x world" where
  "ext_do f w = w\<lparr>w_ext := f (w_ext w)\<rparr>"

definition pq_cb_alsa_input :: "'x alsa_lib \<Rightarrow> ('c, 'x) callback" where
  "pq_cb_alsa_input A st out inp in_len w =
     (case st of
        Some (St_Alsa state) \<Rightarrow>
          (let num_samples = pa_blk_len state div 2;
               (rv, x, e) = snd_pcm_readi A (pa_handle state) num_samples (w_ext w);
               w = w\<lparr>w_ext := e\<rparr>
           in bind_r (if x = [] then Inr out
                      else bind_r (deref out) (\<lambda>d. map_sum id Some (memcpy_c d 0 x 0 (length x)))) (\<lambda>out.
              Inr (if rv \<le> 0 then -1 else rv * 2, st, out, w)))
      | _ \<Rightarrow> Inl Bad_State)"

definition pq_cb_alsa_output :: "'x alsa_lib \<Rightarrow> ('c, 'x) callback" where
  "pq_cb_alsa_output A st out inp in_len w =
     (case st of
        Some (St_Alsa state) \<Rightarrow>
          (let num_samples = in_len div 2
           in bind_r (if num_samples = 0 then Inr []
                      else bind_r (deref inp) (\<lambda>d.
                        if 2 * num_samples \<le> length d then Inr (take (2 * num_samples) d)
                        else Inl Out_Of_Bounds)) (\<lambda>x.
              let (rv, w) = ext_call (snd_pcm_writei A (pa_handle state) x) w;
                  (rv, w) =
                    (if rv = - EPIPE
                     then ext_call (snd_pcm_writei A (pa_handle state) x)
                            (ext_do (snd_pcm_prepare A (pa_handle state)) w)
                     else (rv, w))
              in Inr (if rv = int num_samples then 0 else -1, st, out, w)))
      | _ \<Rightarrow> Inl Bad_State)"

definition pq_cb_alsa_wait :: "'x alsa_lib \<Rightarrow> 'c item_state option \<Rightarrow> 'x world \<Rightarrow> (int \<times> 'x world) res" where
  "pq_cb_alsa_wait A st w =
     (case st of
        Some (St_Alsa state) \<Rightarrow>
          (let (rv, w) = ext_call (snd_pcm_avail_update A (pa_handle state)) w
           in Inr (of_bool (rv > 0), w))
      | _ \<Rightarrow> Inl Bad_State)"

definition pq_cb_alsa_exit :: "'x alsa_lib \<Rightarrow> 'c item_state option \<Rightarrow> 'x world \<Rightarrow> 'x world res" where
  "pq_cb_alsa_exit A st w =
     (case st of
        Some (St_Alsa state) \<Rightarrow> Inr (release (ext_do (snd_pcm_close A (pa_handle state)) w))
      | _ \<Rightarrow> Inl Bad_State)"

text \<open>The configuration calls, up to the first one that reports an error.\<close>

fun hw_setup :: "'x alsa_lib \<Rightarrow> nat \<Rightarrow> snd_pcm_hw_call list \<Rightarrow> 'x world \<Rightarrow> int \<times> 'x world" where
  "hw_setup A h [] w = (0, w)"
| "hw_setup A h (c # cs) w =
     (let (rc, w) = ext_call (snd_pcm_hw A c h) w
      in if rc < 0 then (rc, w) else hw_setup A h cs w)"

definition hw_calls :: "snd_pcm_hw_call list" where
  "hw_calls =
     [HW_ANY, HW_SET_ACCESS_RW_INTERLEAVED, HW_SET_FORMAT_S16_LE, HW_SET_RATE 8000, HW_SET_CHANNELS 1,
      HW_PARAMS]"

text \<open>A device that cannot be opened leaves the state allocated under the queue.\<close>

definition pq_queue_alsa_op ::
    "'x alsa_lib \<Rightarrow> ('c, 'x) queue \<Rightarrow> string \<Rightarrow> nat \<Rightarrow> bool \<Rightarrow> 'x world \<Rightarrow>
     (int \<times> ('c, 'x) queue \<times> 'x world) res" where
  "pq_queue_alsa_op A pq alsa_dev blk_len in_out_n w =
     (case alloc w of
        (False, w) \<Rightarrow> Inr (- ENOMEM, pq, w)
      | (True, w) \<Rightarrow>
          (let (rc, h, e) = snd_pcm_open A alsa_dev in_out_n (w_ext w); w = w\<lparr>w_ext := e\<rparr>
           in if rc < 0 then Inr (rc, pq, w)
              else
                (let (rc, w) = ext_call (snd_pcm_hw A HW_MALLOC h) w
                 in if rc < 0 then Inr (rc, pq, release (ext_do (snd_pcm_close A h) w))
                    else
                      (let (rc, w) = hw_setup A h hw_calls w; w = ext_do (snd_pcm_hw_free A) w
                       in if rc < 0 then Inr (rc, pq, release (ext_do (snd_pcm_close A h) w))
                          else
                            bind_r (pq_add_item pq w) (\<lambda>(ok, pq, w).
                            if \<not> ok then Inr (- ENOMEM, pq, release (ext_do (snd_pcm_close A h) w))
                            else
                              Inr (0, upd_last (\<lambda>item. item
                                     \<lparr>it_type := (if in_out_n then TYPE_SOURCE else TYPE_SINK),
                                      it_cat_name := Some (if in_out_n then ''source'' else ''sink''),
                                      it_sub_name := Some ''alsa'',
                                      it_len_in := (if in_out_n then 0 else blk_len),
                                      it_len_out := (if in_out_n then blk_len else 0),
                                      it_state := Some (St_Alsa \<lparr>pa_handle = h, pa_blk_len = blk_len\<rparr>),
                                      it_proc := Some (if in_out_n then pq_cb_alsa_input A else pq_cb_alsa_output A),
                                      it_wait := Some (pq_cb_alsa_wait A),
                                      it_exit := Some (pq_cb_alsa_exit A)\<rparr>) pq, w))))))"

definition pq_queue_alsa_input ::
    "'x alsa_lib \<Rightarrow> ('c, 'x) queue \<Rightarrow> string \<Rightarrow> nat \<Rightarrow> 'x world \<Rightarrow> (int \<times> ('c, 'x) queue \<times> 'x world) res" where
  "pq_queue_alsa_input A pq hwdev blk_len w = pq_queue_alsa_op A pq hwdev blk_len True w"

definition pq_queue_alsa_output ::
    "'x alsa_lib \<Rightarrow> ('c, 'x) queue \<Rightarrow> string \<Rightarrow> nat \<Rightarrow> 'x world \<Rightarrow> (int \<times> ('c, 'x) queue \<times> 'x world) res" where
  "pq_queue_alsa_output A pq hwdev blk_len w = pq_queue_alsa_op A pq hwdev blk_len False w"

section \<open>Items and contracts\<close>

definition alsa_item :: "'x alsa_lib \<Rightarrow> nat \<Rightarrow> nat \<Rightarrow> bool \<Rightarrow> ('c, 'x) qitem" where
  "alsa_item A h m in_out_n = zero_item
     \<lparr>it_type := (if in_out_n then TYPE_SOURCE else TYPE_SINK),
      it_cat_name := Some (if in_out_n then ''source'' else ''sink''), it_sub_name := Some ''alsa'',
      it_len_in := (if in_out_n then 0 else m), it_len_out := (if in_out_n then m else 0),
      it_state := Some (St_Alsa \<lparr>pa_handle = h, pa_blk_len = m\<rparr>),
      it_proc := Some (if in_out_n then pq_cb_alsa_input A else pq_cb_alsa_output A),
      it_wait := Some (pq_cb_alsa_wait A), it_exit := Some (pq_cb_alsa_exit A)\<rparr>"

lemma hw_setup_frame:
  "hw_setup A h cs w = (rc, w') \<Longrightarrow> \<exists>e. w' = w\<lparr>w_ext := e\<rparr>"
proof (induction A h cs w arbitrary: rc w' rule: hw_setup.induct)
  case (1 A h w)
  then show ?case by (auto intro: exI [of _ "w_ext w"])
next
  case (2 A h c cs w)
  obtain r x where r: "snd_pcm_hw A c h (w_ext w) = (r, x)" by force
  show ?case
  proof (cases "r < 0")
    case True
    with 2(2) r show ?thesis by (auto simp: ext_call_def)
  next
    case False
    then have "hw_setup A h cs (w\<lparr>w_ext := x\<rparr>) = (rc, w')" using 2(2) r by (simp add: ext_call_def)
    then obtain e where "w' = w\<lparr>w_ext := x, w_ext := e\<rparr>"
      using 2(1) [of "(r, w\<lparr>w_ext := x\<rparr>)" r "w\<lparr>w_ext := x\<rparr>" rc w'] r False by (auto simp: ext_call_def)
    then show ?thesis by auto
  qed
qed

lemma alsa_op_result:
  assumes "w_mem w = []" and "all_live (pq_items pq)"
  shows "\<exists>rc pq' w'. pq_queue_alsa_op A pq dev m io w = Inr (rc, pq', w') \<and>
    (rc < 0 \<and> pq' = pq \<or> rc = 0 \<and> (\<exists>h. pq' = push_item (alsa_item A h m io) pq)) \<and>
    w_mem w' = [] \<and> w_files w' = w_files w \<and> w_socks w' = w_socks w"
proof -
  let ?w = "w\<lparr>w_allocs := w_allocs w + 1, w_live := w_live w + 1\<rparr>"
  obtain r1 h e1 where 1: "snd_pcm_open A dev io (w_ext w) = (r1, h, e1)" by (metis prod_cases3)
  obtain r2 e2 where 2: "snd_pcm_hw A HW_MALLOC h e1 = (r2, e2)" by force
  obtain r3 w3 where 3: "hw_setup A h hw_calls (?w\<lparr>w_ext := e2\<rparr>) = (r3, w3)" by force
  obtain e3 where e3: "w3 = ?w\<lparr>w_ext := e2, w_ext := e3\<rparr>" using hw_setup_frame [OF 3] by blast
  consider "r1 < 0" | "0 \<le> r1" "r2 < 0" | "0 \<le> r1" "0 \<le> r2" "r3 < 0" | "0 \<le> r1" "0 \<le> r2" "0 \<le> r3"
    by linarith
  then show ?thesis
  proof cases
    case 4
    then show ?thesis
      using assms 1 2 3 e3
      by (auto simp: pq_queue_alsa_op_def ext_call_def ext_do_def pq_add_item_ok alsa_item_def
          push_item_def Let_def)
  qed (use assms 1 2 3 e3 in \<open>auto simp: pq_queue_alsa_op_def ext_call_def ext_do_def release_def Let_def\<close>)
qed

text \<open>What the library documents: at most as many samples as asked for, two bytes each.\<close>

definition alsa_ok :: "'x alsa_lib \<Rightarrow> bool" where
  "alsa_ok A \<longleftrightarrow> (\<forall>h n e. case snd_pcm_readi A h n e of (rv, x, _) \<Rightarrow>
     rv \<le> int n \<and> length x = 2 * nat rv)"

definition alsa_st :: "nat \<Rightarrow> 'c item_state option \<Rightarrow> bool" where
  "alsa_st m st \<longleftrightarrow> (\<exists>s. st = Some (St_Alsa s) \<and> pa_blk_len s = m)"

lemma alsa_input_stage:
  fixes A :: "'x alsa_lib"
  assumes A: "alsa_ok A"
  shows "stage (pq_cb_alsa_input A) (alsa_st m :: 'c item_state option \<Rightarrow> bool) (\<lambda>_. True) (holds m)
           (\<lambda>_ _. True) (\<lambda>b n. n \<le> m \<and> holds m b)"
proof unfold_locales
  fix st :: "'c item_state option" and w :: "'x world" and out inp :: "buf option" and n :: nat
  assume st: "alsa_st m st" and out: "holds m out"
  obtain s where s: "st = Some (St_Alsa s)" "pa_blk_len s = m" using st by (auto simp: alsa_st_def)
  obtain d where d: "out = Some d" "m \<le> length d" using out by (auto simp: holds_def)
  obtain rv x e where r: "snd_pcm_readi A (pa_handle s) (m div 2) (w_ext w) = (rv, x, e)"
    by (metis prod_cases3)
  moreover have "case snd_pcm_readi A (pa_handle s) (m div 2) (w_ext w) of (rv, x, _) \<Rightarrow>
      rv \<le> int (m div 2) \<and> length x = 2 * nat rv"
    by (rule A [unfolded alsa_ok_def, THEN spec, THEN spec, THEN spec])
  ultimately have x: "rv \<le> int (m div 2)" "length x = 2 * nat rv" by simp_all
  then have l: "length x \<le> m" by simp
  then have "memcpy_c d 0 x 0 (length x) = Inr (x @ drop (length x) d)"
    using d by (simp add: mem_simps)
  then show "\<exists>rv st' out' w'. pq_cb_alsa_input A st out inp n w = Inr (rv, st', out', w') \<and>
      alsa_st m st' \<and> True \<and> holds m out' \<and> (0 \<le> rv \<longrightarrow> nat rv \<le> m \<and> holds m out')"
    using s d r x l by (cases "x = []") (auto simp: pq_cb_alsa_input_def alsa_st_def Let_def)
qed

interpretation alsa_output: stage "pq_cb_alsa_output A" "alsa_st m" "\<lambda>_. True" "\<lambda>_. True"
    "\<lambda>b n. holds n b" "\<lambda>_ n. n = 0" for A :: "'x alsa_lib" and m
proof unfold_locales
  fix st :: "'c item_state option" and w :: "'x world" and out inp :: "buf option" and n :: nat
  assume st: "alsa_st m st" and inp: "holds n inp"
  obtain s where s: "st = Some (St_Alsa s)" "pa_blk_len s = m" using st by (auto simp: alsa_st_def)
  obtain d where d: "inp = Some d" "n \<le> length d" using inp by (auto simp: holds_def)
  then have "2 * (n div 2) \<le> length d" by linarith
  then show "\<exists>rv st' out' w'. pq_cb_alsa_output A st out inp n w = Inr (rv, st', out', w') \<and>
      alsa_st m st' \<and> True \<and> True \<and> (0 \<le> rv \<longrightarrow> nat rv = 0)"
    using s d by (auto simp: pq_cb_alsa_output_def alsa_st_def Let_def split: prod.splits)
qed

end
