(* ===== verification/Bench.thy ===== *)
theory Bench
  imports World
begin

text \<open>
  Codec benchmarks (\<^verbatim>\<open>src/benchmark.c\<close>, the macros of \<^verbatim>\<open>include/osmocom/gapk/bench.h\<close>): per
  codec and direction a ring of cycle counts. The arrays are functions of the index, and
  every access checks the bound \<open>OSMO_GAPK_CYCLES_NUM_AVG\<close>. Codecs are given by their number.
\<close>

definition CYCLES_NUM_AVG :: nat where "CYCLES_NUM_AVG = 102400"

definition zero_bench :: bench_cycles where
  "zero_bench = \<lparr>bc_enc = (\<lambda>_. 0), bc_enc_used = 0, bc_dec = (\<lambda>_. 0), bc_dec_used = 0\<rparr>"

definition bench_enable :: "nat \<Rightarrow> 'x world \<Rightarrow> int \<times> 'x world" where
  "bench_enable codec w =
     (case alloc w of
        (False, w) \<Rightarrow> (- ENOMEM, w)
      | (True, w) \<Rightarrow> (0, w\<lparr>w_bench := (w_bench w)(codec := Some zero_bench)\<rparr>))"

text \<open>The accesses of the ring: an index outside the array faults.\<close>

definition cyc_rd :: "(nat \<Rightarrow> u64) \<Rightarrow> nat \<Rightarrow> u64 res" where
  "cyc_rd a i = (if i < CYCLES_NUM_AVG then Inr (a i) else Inl Out_Of_Bounds)"

definition cyc_wr :: "(nat \<Rightarrow> u64) \<Rightarrow> nat \<Rightarrow> u64 \<Rightarrow> (nat \<Rightarrow> u64) res" where
  "cyc_wr a i v = (if i < CYCLES_NUM_AVG then Inr (a(i := v)) else Inl Out_Of_Bounds)"

definition bench_get_cycles :: "nat \<Rightarrow> bool \<Rightarrow> 'x world \<Rightarrow> u64 res" where
  "bench_get_cycles codec enc w =
     (case w_bench w codec of
        None \<Rightarrow> Inr (of_int (- EAGAIN))
      | Some bench \<Rightarrow>
          if enc then
            for_loop [0..<bc_enc_used bench]
              (\<lambda>i cycles. bind_r (cyc_rd (bc_enc bench) i) (\<lambda>c. Inr (cycles + c))) 0
          else
            for_loop [0..<bc_dec_used bench]
              (\<lambda>i cycles. bind_r (cyc_rd (bc_dec bench) i) (\<lambda>c. Inr (cycles + c))) 0)"

definition bench_get_frames :: "nat \<Rightarrow> bool \<Rightarrow> 'x world \<Rightarrow> u32" where
  "bench_get_frames codec enc w =
     (case w_bench w codec of
        None \<Rightarrow> of_int (- EAGAIN)
      | Some bench \<Rightarrow> of_nat (if enc then bc_enc_used bench else bc_dec_used bench))"

text \<open>The pointers stay in the table.\<close>

definition bench_free :: "'x world \<Rightarrow> 'x world" where
  "bench_free w = fold (\<lambda>i w. if w_bench w i = None then w else release w) [0..<6] w"

definition bench_start :: "'x world \<Rightarrow> u64 \<times> 'x world" where
  "bench_start w = get_cycles w"

definition bench_record :: "bool \<Rightarrow> u64 \<Rightarrow> bench_cycles \<Rightarrow> bench_cycles res" where
  "bench_record encode d bc =
     (if encode then
        (let used = (bc_enc_used bc + 1) mod CYCLES_NUM_AVG
         in bind_r (cyc_wr (bc_enc bc) used d) (\<lambda>a. Inr (bc\<lparr>bc_enc_used := used, bc_enc := a\<rparr>)))
      else
        (let used = (bc_dec_used bc + 1) mod CYCLES_NUM_AVG
         in bind_r (cyc_wr (bc_dec bc) used d) (\<lambda>a. Inr (bc\<lparr>bc_dec_used := used, bc_dec := a\<rparr>))))"

definition bench_stop :: "nat \<Rightarrow> bool \<Rightarrow> u64 \<Rightarrow> 'x world \<Rightarrow> 'x world res" where
  "bench_stop codec encode start w =
     (let (stop, w) = get_cycles w
      in case w_bench w codec of
           None \<Rightarrow> Inr w
         | Some bc \<Rightarrow>
             bind_r (bench_record encode (stop - start) bc) (\<lambda>bc.
             Inr (w\<lparr>w_bench := (w_bench w)(codec := Some bc)\<rparr>)))"

section \<open>The ring stays in bounds\<close>

definition bench_ok :: "bench_cycles \<Rightarrow> bool" where
  "bench_ok bc \<longleftrightarrow> bc_enc_used bc < CYCLES_NUM_AVG \<and> bc_dec_used bc < CYCLES_NUM_AVG"

definition benches_ok :: "'x world \<Rightarrow> bool" where
  "benches_ok w \<longleftrightarrow> (\<forall>c bc. w_bench w c = Some bc \<longrightarrow> bench_ok bc)"

lemma NUM_AVG_pos [simp]: "0 < CYCLES_NUM_AVG"
  by (simp add: CYCLES_NUM_AVG_def)

lemma bench_ok_zero [simp]: "bench_ok zero_bench"
  by (simp add: bench_ok_def zero_bench_def)

lemma bench_record_ok:
  "\<exists>bc'. bench_record enc d bc = Inr bc' \<and> (bench_ok bc \<longrightarrow> bench_ok bc')"
  by (auto simp: bench_record_def cyc_wr_def bench_ok_def Let_def)

lemma get_cycles_bench [simp]: "get_cycles w = (c, w') \<Longrightarrow> w_bench w' = w_bench w"
  by (auto simp: get_cycles_def split: list.splits)

lemma bench_stop_safe:
  "\<exists>w'. bench_stop c enc s w = Inr w' \<and> (benches_ok w \<longrightarrow> benches_ok w')"
proof (cases "get_cycles w")
  case (Pair t w1)
  show ?thesis
  proof (cases "w_bench w1 c")
    case None
    then show ?thesis using Pair by (simp add: bench_stop_def benches_ok_def)
  next
    case (Some bc)
    obtain bc' where "bench_record enc (t - s) bc = Inr bc'" "bench_ok bc \<longrightarrow> bench_ok bc'"
      using bench_record_ok by blast
    then show ?thesis using Pair Some by (auto simp: bench_stop_def benches_ok_def)
  qed
qed

lemma get_cycles_frame:
  "get_cycles w = (c, w') \<Longrightarrow> w_files w' = w_files w \<and> w_socks w' = w_socks w \<and> w_ext w' = w_ext w \<and>
     w_live w' = w_live w \<and> w_mem w' = w_mem w"
  by (auto simp: get_cycles_def split: list.splits)

lemma bench_stop_frame:
  "bench_stop c enc s w = Inr w' \<Longrightarrow> w_files w' = w_files w \<and> w_socks w' = w_socks w \<and>
     w_ext w' = w_ext w \<and> w_live w' = w_live w \<and> w_mem w' = w_mem w"
  by (cases "get_cycles w") (auto simp: bench_stop_def bind_r_Inr_iff split: option.splits
      dest!: get_cycles_frame)

section \<open>What is counted\<close>

text \<open>Recording a list of durations, one frame after the other.\<close>

definition record_all :: "bool \<Rightarrow> u64 list \<Rightarrow> bench_cycles \<Rightarrow> bench_cycles res" where
  "record_all enc ds bc = fold (\<lambda>d m. bind_r m (bench_record enc d)) ds (Inr bc)"

lemma record_all_snoc:
  "record_all enc (ds @ [d]) bc = bind_r (record_all enc ds bc) (bench_record enc d)"
  by (simp add: record_all_def)

lemma record_all_spec:
  assumes "length ds < CYCLES_NUM_AVG"
  shows "\<exists>bc. record_all enc ds zero_bench = Inr bc \<and>
    (if enc then bc_enc_used bc = length ds \<and> bc_enc bc 0 = 0 \<and> (\<forall>i<length ds. bc_enc bc (Suc i) = ds ! i)
     else bc_dec_used bc = length ds \<and> bc_dec bc 0 = 0 \<and> (\<forall>i<length ds. bc_dec bc (Suc i) = ds ! i))"
  using assms
proof (induction ds rule: rev_induct)
  case (snoc d ds)
  then show ?case
    by (cases enc) (auto simp: record_all_snoc bench_record_def cyc_wr_def Let_def nth_append less_Suc_eq)
qed (simp add: record_all_def zero_bench_def)

lemma cycles_loop:
  assumes "n \<le> CYCLES_NUM_AVG"
  shows "for_loop [0..<n] (\<lambda>i c. bind_r (cyc_rd a i) (\<lambda>x. Inr (c + x))) 0 = Inr (sum a {..<n})"
proof -
  have "\<exists>s. for_loop [0..<n] (\<lambda>i c. bind_r (cyc_rd a i) (\<lambda>x. Inr (c + x))) 0 = Inr s \<and> s = sum a {..<n}"
    by (rule for_loop_upt) (use assms in \<open>auto simp: cyc_rd_def\<close>)
  then show ?thesis by simp
qed

lemma sum_shifted:
  fixes a :: "nat \<Rightarrow> u64"
  assumes "a 0 = 0" and "\<forall>i<length ds. a (Suc i) = ds ! i"
  shows "sum a {..<length ds} = sum_list (butlast ds)"
proof (cases ds rule: rev_cases)
  case (snoc es d)
  then have "sum a {..<Suc (length es)} = (\<Sum>i<length es. a (Suc i))"
    using assms(1) by (simp add: sum.lessThan_Suc_shift del: sum.lessThan_Suc)
  also have "\<dots> = (\<Sum>i<length es. es ! i)"
    using assms(2) snoc by (intro sum.cong) (auto simp: nth_append)
  also have "\<dots> = sum_list es" by (simp add: sum_list_sum_nth atLeast0LessThan)
  finally show ?thesis using snoc by simp
qed simp

lemma bench_get_cycles_recorded:
  assumes "length ds < CYCLES_NUM_AVG" and "record_all enc ds zero_bench = Inr bc"
    and "w_bench w c = Some bc"
  shows "bench_get_cycles c enc w = Inr (sum_list (butlast ds))"
    and "bench_get_frames c enc w = of_nat (length ds)"
  using record_all_spec [OF assms(1), of enc] assms
  by (auto simp: bench_get_cycles_def bench_get_frames_def cycles_loop sum_shifted split: if_splits)

section \<open>Who owns the memory of the rings\<close>

text \<open>
  The live allocations without those of the rings: what is left once \<^verbatim>\<open>osmo_gapk_bench_free\<close>
  has given the rings back.
\<close>

definition enabled :: "'x world \<Rightarrow> nat set" where
  "enabled w = {c. c < 6 \<and> w_bench w c \<noteq> None}"

definition owed :: "'x world \<Rightarrow> int" where
  "owed w = w_live w - int (card (enabled w))"

lemma finite_enabled [simp]: "finite (enabled w)"
  by (simp add: enabled_def)

lemma owed_live: "w_live w' = w_live w + n \<Longrightarrow> w_bench w' = w_bench w \<Longrightarrow> owed w' = owed w + n"
  by (simp add: owed_def enabled_def)

lemma bench_enable_frame:
  "w_mem w = [] \<Longrightarrow> w_mem (snd (bench_enable c w)) = [] \<and> w_files (snd (bench_enable c w)) = w_files w \<and>
     w_socks (snd (bench_enable c w)) = w_socks w \<and>
     (\<forall>k. k \<noteq> c \<longrightarrow> w_bench (snd (bench_enable c w)) k = w_bench w k) \<and>
     (benches_ok w \<longrightarrow> benches_ok (snd (bench_enable c w)))"
  by (auto simp: bench_enable_def benches_ok_def)

lemma bench_free_fold:
  "w_bench (fold (\<lambda>i w. if w_bench w i = None then w else release w) is w) = w_bench w \<and>
   w_files (fold (\<lambda>i w. if w_bench w i = None then w else release w) is w) = w_files w \<and>
   w_live (fold (\<lambda>i w. if w_bench w i = None then w else release w) is w) =
     w_live w - int (length (filter (\<lambda>i. w_bench w i \<noteq> None) is))"
  by (induction "is" arbitrary: w) auto

lemma bench_free_owed: "w_live (bench_free w) = owed w" "w_files (bench_free w) = w_files w"
proof -
  have "set (filter (\<lambda>i. w_bench w i \<noteq> None) [0..<6]) = enabled w" by (auto simp: enabled_def)
  then have "length (filter (\<lambda>i. w_bench w i \<noteq> None) [0..<6]) = card (enabled w)"
    by (metis distinct_card distinct_filter distinct_upt)
  then show "w_live (bench_free w) = owed w"
    using bench_free_fold [of "[0..<6]" w] by (simp add: bench_free_def owed_def)
  show "w_files (bench_free w) = w_files w"
    using bench_free_fold [of "[0..<6]" w] by (simp add: bench_free_def)
qed

end
