(* ===== verification/Fmt_Nibble.thy ===== *)
theory Fmt_Nibble
  imports Conv
begin

unbundle bit_operations_syntax

text \<open>
  The two formats that put a four-bit magic number in front of the canonical frame:
  \<^verbatim>\<open>src/fmt_gsm.c\<close> (.gsm files and RTP FR) and \<^verbatim>\<open>src/fmt_rtp_efr.c\<close> (RTP EFR). The
  reference description is over the bits of the frame: the magic, then the canonical bits.
\<close>

section \<open>Shifting a frame by four bits\<close>

text \<open>The byte-wise results of the two loops, and what they are on the bits.\<close>

definition shr_bytes :: "byte \<Rightarrow> buf \<Rightarrow> buf" where
  "shr_bytes m c =
     map (\<lambda>i. push_bit 4 (if i = 0 then m else c ! (i - 1)) OR drop_bit 4 (c ! i)) [0..<length c]"

definition shl_bytes :: "buf \<Rightarrow> buf" where
  "shl_bytes c =
     map (\<lambda>i. push_bit 4 (c ! i) OR (if Suc i < length c then drop_bit 4 (c ! Suc i) else 0))
       [0..<length c]"

definition nibble :: "byte \<Rightarrow> bool list" where
  "nibble m = [bit m 3, bit m 2, bit m 1, bit m 0]"

lemma length_shr_bytes [simp]: "length (shr_bytes m c) = length c"
  by (simp add: shr_bytes_def)

lemma length_shl_bytes [simp]: "length (shl_bytes c) = length c"
  by (simp add: shl_bytes_def)

lemma length_nibble [simp]: "length (nibble m) = 4"
  by (simp add: nibble_def)

lemma nth_msb_bits: "n < 8 * length b \<Longrightarrow> msb_bits b ! n = bit (b ! (n div 8)) (7 - n mod 8)"
  by (simp add: msb_bits_def nth_bits_by msb_pos_def)

lemma nth_nibble: "k < 4 \<Longrightarrow> nibble m ! k = bit m (3 - k)"
  by (auto simp: nibble_def less_Suc_eq numeral_eq_Suc)

lemma nth_msb_bits_at: "q < length b \<Longrightarrow> r < 8 \<Longrightarrow> msb_bits b ! (8 * q + r) = bit (b ! q) (7 - r)"
  by (simp add: nth_msb_bits)

lemma byte_bit_cases:
  assumes "k < 8 * (l::nat)"
  obtains q r where "k = 8 * q + r" "q < l" "r < 8"
proof
  show "k = 8 * (k div 8) + k mod 8" "k mod 8 < 8" by simp_all
  show "k div 8 < l" using assms by auto
qed

lemma msb_bits_shr_bytes:
  assumes c: "c \<noteq> []"
  shows "msb_bits (shr_bytes m c) = nibble m @ take (8 * length c - 4) (msb_bits c)"
proof (rule list_eqI)
  show len: "length (msb_bits (shr_bytes m c)) = length (nibble m @ take (8 * length c - 4) (msb_bits c))"
    using c by (cases c) auto
  fix k assume "k < length (nibble m @ take (8 * length c - 4) (msb_bits c))"
  then have "k < 8 * length c" using len by simp
  then obtain q r where k: "k = 8 * q + r" and q: "q < length c" and r: "r < 8"
    by (rule byte_bit_cases)
  let ?rhs = "nibble m @ take (8 * length c - 4) (msb_bits c)"
  have lhs: "msb_bits (shr_bytes m c) ! k = bit (shr_bytes m c ! q) (7 - r)"
    using q r by (simp add: k nth_msb_bits_at)
  consider "q = 0" "r < 4" | "0 < q" "r < 4" | "4 \<le> r" by linarith
  then have "?rhs ! k = bit (shr_bytes m c ! q) (7 - r)"
  proof cases
    case 1
    then have "?rhs ! k = bit m (3 - r)" by (simp add: k nth_append nth_nibble)
    moreover have "bit (shr_bytes m c ! q) (7 - r) = bit m (3 - r)"
      using 1 q r by (auto simp: shr_bytes_def bit_simps dest: bit_imp_le_length)
    ultimately show ?thesis by simp
  next
    case 2
    then have e: "k - 4 = 8 * (q - 1) + (r + 4)" "\<not> k < 4" "k - 4 < 8 * length c - 4"
      using k q r by auto
    then have "?rhs ! k = msb_bits c ! (8 * (q - 1) + (r + 4))" by (simp add: nth_append)
    also have "\<dots> = bit (c ! (q - 1)) (3 - r)"
      using 2 q by (subst nth_msb_bits_at) simp_all
    also have "\<dots> = bit (shr_bytes m c ! q) (7 - r)"
      using 2 q r by (auto simp: shr_bytes_def bit_simps dest: bit_imp_le_length)
    finally show ?thesis .
  next
    case 3
    then have e: "k - 4 = 8 * q + (r - 4)" "\<not> k < 4" "k - 4 < 8 * length c - 4"
      using k q r by auto
    then have "?rhs ! k = msb_bits c ! (8 * q + (r - 4))" by (simp add: nth_append)
    also have "\<dots> = bit (c ! q) (7 - (r - 4))"
      using q r by (subst nth_msb_bits_at) simp_all
    also have "\<dots> = bit (shr_bytes m c ! q) (7 - r)"
      using 3 q r by (auto simp: shr_bytes_def bit_simps add.commute)
    finally show ?thesis .
  qed
  with lhs show "msb_bits (shr_bytes m c) ! k = ?rhs ! k" by simp
qed

lemma msb_bits_shl_bytes:
  assumes c: "c \<noteq> []"
  shows "msb_bits (shl_bytes c) = drop 4 (msb_bits c) @ replicate 4 False"
proof (rule list_eqI)
  show len: "length (msb_bits (shl_bytes c)) = length (drop 4 (msb_bits c) @ replicate 4 False)"
    using c by (cases c) auto
  fix k assume "k < length (drop 4 (msb_bits c) @ replicate 4 False)"
  then have "k < 8 * length c" using len by simp
  then obtain q r where k: "k = 8 * q + r" and q: "q < length c" and r: "r < 8"
    by (rule byte_bit_cases)
  let ?rhs = "drop 4 (msb_bits c) @ replicate 4 False"
  have lhs: "msb_bits (shl_bytes c) ! k = bit (shl_bytes c ! q) (7 - r)"
    using q r by (simp add: k nth_msb_bits_at)
  consider "r < 4" | "4 \<le> r" "Suc q < length c" | "4 \<le> r" "Suc q = length c"
    using q by linarith
  then have "?rhs ! k = bit (shl_bytes c ! q) (7 - r)"
  proof cases
    case 1
    then have e: "4 + k = 8 * q + (r + 4)" "k < 8 * length c - 4" using k q by auto
    then have "?rhs ! k = msb_bits c ! (8 * q + (r + 4))" by (simp add: nth_append ac_simps)
    also have "\<dots> = bit (c ! q) (3 - r)" using 1 q by (subst nth_msb_bits_at) simp_all
    also have "\<dots> = bit (shl_bytes c ! q) (7 - r)"
      using 1 q by (auto simp: shl_bytes_def bit_simps dest: bit_imp_le_length)
    finally show ?thesis .
  next
    case 2
    then have e: "4 + k = 8 * Suc q + (r - 4)" "k < 8 * length c - 4" using k r by auto
    then have "?rhs ! k = msb_bits c ! (8 * Suc q + (r - 4))" by (simp add: nth_append ac_simps)
    also have "\<dots> = bit (c ! Suc q) (7 - (r - 4))" using 2 r by (subst nth_msb_bits_at) simp_all
    also have "\<dots> = bit (shl_bytes c ! q) (7 - r)"
      using 2 q r by (auto simp: shl_bytes_def bit_simps add.commute)
    finally show ?thesis .
  next
    case 3
    then have "\<not> k < 8 * length c - 4" "k - (8 * length c - 4) < 4" using k q r by auto
    then have "\<not> ?rhs ! k" by (simp add: nth_append)
    moreover have "\<not> bit (shl_bytes c ! q) (7 - r)"
      using 3 q r by (auto simp: shl_bytes_def bit_simps)
    ultimately show ?thesis by simp
  qed
  with lhs show "msb_bits (shl_bytes c) ! k = ?rhs ! k" by simp
qed

text \<open>The reference descriptions: a magic nibble in front, or the first nibble dropped.\<close>

definition add_nibble :: "byte \<Rightarrow> buf \<Rightarrow> buf" where
  "add_nibble m c = msb_bytes (nibble m @ take (8 * length c - 4) (msb_bits c))"

definition drop_nibble :: "buf \<Rightarrow> buf" where
  "drop_nibble c = msb_bytes (drop 4 (msb_bits c) @ replicate 4 False)"

lemma shr_bytes_eq: "c \<noteq> [] \<Longrightarrow> shr_bytes m c = add_nibble m c"
  unfolding add_nibble_def by (rule msb.bits_inject) (cases c, simp_all add: msb_bits_shr_bytes)

lemma shl_bytes_eq: "c \<noteq> [] \<Longrightarrow> shl_bytes c = drop_nibble c"
  unfolding drop_nibble_def by (rule msb.bits_inject) (cases c, simp_all add: msb_bits_shl_bytes)

lemma length_add_nibble: "c \<noteq> [] \<Longrightarrow> length (add_nibble m c) = length c"
  by (simp flip: shr_bytes_eq)

lemma length_drop_nibble: "c \<noteq> [] \<Longrightarrow> length (drop_nibble c) = length c"
  by (simp flip: shl_bytes_eq)

lemma drop_add_nibble:
  assumes "padded (8 * l - 4) l c" and "0 < l"
  shows "drop_nibble (add_nibble m c) = c"
proof (rule msb.bits_inject)
  have l: "length c = l" "c \<noteq> []" using assms by (auto simp: padded_def)
  have "msb_bits c = take (8 * l - 4) (msb_bits c) @ drop (8 * l - 4) (msb_bits c)" by simp
  also have "\<dots> = take (8 * l - 4) (msb_bits c) @ replicate 4 False"
    using assms by (simp add: padded_def)
  finally show "msb_bits (drop_nibble (add_nibble m c)) = msb_bits c"
    using l by (cases l) (simp_all add: drop_nibble_def add_nibble_def)
qed

lemma padded_drop_nibble:
  assumes "length c = l" and "0 < l"
  shows "padded (8 * l - 4) l (drop_nibble c)"
proof -
  have "c \<noteq> []" using assms by auto
  then show ?thesis using assms
    by (cases l) (simp_all add: padded_def length_drop_nibble, simp add: drop_nibble_def)
qed

section \<open>\<^verbatim>\<open>src/fmt_gsm.c\<close>\<close>

definition GSM_LEN :: nat where [simp, code_unfold]: "GSM_LEN = 33"
definition GSM_MAGIC :: byte where [simp, code_unfold]: "GSM_MAGIC = 0xd"

definition gsm_from_canon :: conv where
  "gsm_from_canon dst src src_len =
     bind_r (assert_c (src_len = FR_CANON_LEN)) (\<lambda>_.
     bind_r (rd src 0) (\<lambda>s0.
     bind_r (wr dst 0 (push_bit 4 GSM_MAGIC OR drop_bit 4 s0)) (\<lambda>dst.
     bind_r (for_loop [1..<GSM_LEN] (\<lambda>i dst.
               bind_r (rd src (i - 1)) (\<lambda>p.
               bind_r (rd src i) (\<lambda>s. wr dst i (push_bit 4 p OR drop_bit 4 s)))) dst) (\<lambda>dst.
     Inr (dst, int GSM_LEN)))))"

definition gsm_to_canon :: conv where
  "gsm_to_canon dst src src_len =
     bind_r (assert_c (src_len = GSM_LEN)) (\<lambda>_.
     bind_r (for_loop [0..<GSM_LEN - 1] (\<lambda>i dst.
               bind_r (rd src i) (\<lambda>s.
               bind_r (rd src (i + 1)) (\<lambda>t. wr dst i (push_bit 4 s OR drop_bit 4 t)))) dst) (\<lambda>dst.
     bind_r (rd src (GSM_LEN - 1)) (\<lambda>s.
     bind_r (wr dst (GSM_LEN - 1) (push_bit 4 s)) (\<lambda>dst.
     Inr (dst, int FR_CANON_LEN)))))"

section \<open>\<^verbatim>\<open>src/fmt_rtp_efr.c\<close>\<close>

definition RTP_EFR_LEN :: nat where [simp, code_unfold]: "RTP_EFR_LEN = 31"
definition EFR_MAGIC :: byte where [simp, code_unfold]: "EFR_MAGIC = 0xc"

definition DAMAGED_PACKET :: buf where
  "DAMAGED_PACKET =
     [0xc0, 0x00, 0x00, 0x00, 0x00, 0x00, 0x00, 0x00, 0x00, 0x00, 0x00, 0x00, 0x00, 0x00, 0x00,
      0x00, 0x00, 0x00, 0x00, 0x00, 0x00, 0x00, 0x00, 0x00, 0x00, 0x00, 0x00, 0x00, 0x00, 0x00, 0x00]"

definition SILENCE :: buf where
  "SILENCE =
     [0xcf, 0xff, 0xff, 0xff, 0xff, 0xff, 0xff, 0xff, 0xff, 0xff, 0xff, 0xff, 0xe0, 0x00, 0x00,
      0x00, 0x00, 0x00, 0x00, 0x00, 0x00, 0x00, 0x00, 0x00, 0x00, 0x00, 0x00, 0x00, 0x00, 0x00, 0x00]"

definition rtp_efr_from_canon :: conv where
  "rtp_efr_from_canon dst src src_len =
     bind_r (assert_c (src_len = EFR_CANON_LEN)) (\<lambda>_.
     bind_r (rd src 0) (\<lambda>s0.
     bind_r (wr dst 0 (push_bit 4 EFR_MAGIC OR drop_bit 4 s0)) (\<lambda>dst.
     bind_r (for_loop [1..<RTP_EFR_LEN] (\<lambda>i dst.
               bind_r (rd src (i - 1)) (\<lambda>p.
               bind_r (rd src i) (\<lambda>s. wr dst i (push_bit 4 p OR drop_bit 4 s)))) dst) (\<lambda>dst.
     Inr (dst, int RTP_EFR_LEN)))))"

text \<open>
  \<^verbatim>\<open>memcmp\<close> and the loop read the first \<open>EFR_LEN\<close> bytes of the source; a source object
  shorter than that faults in the comparison.
\<close>

definition rtp_efr_to_canon :: conv where
  "rtp_efr_to_canon dst src src_len =
     (if src_len \<noteq> RTP_EFR_LEN then
        bind_r (memset_c dst 0 EFR_CANON_LEN) (\<lambda>dst. Inr (dst, int EFR_CANON_LEN))
      else if length src < RTP_EFR_LEN then Inl Out_Of_Bounds
      else
        (let src = (if DAMAGED_PACKET = take RTP_EFR_LEN src then SILENCE else src) in
         bind_r (for_loop [0..<RTP_EFR_LEN - 1] (\<lambda>i dst.
                   bind_r (rd src i) (\<lambda>s.
                   bind_r (rd src (i + 1)) (\<lambda>t. wr dst i (push_bit 4 s OR drop_bit 4 t)))) dst) (\<lambda>dst.
         bind_r (rd src (RTP_EFR_LEN - 1)) (\<lambda>s.
         bind_r (wr dst (RTP_EFR_LEN - 1) (push_bit 4 s)) (\<lambda>dst.
         Inr (dst, int EFR_CANON_LEN))))))"

section \<open>The loops compute the reference description\<close>

lemma shift_in_loop:
  assumes l: "1 \<le> l" "l \<le> length src" "l \<le> length dst"
  shows "bind_r (rd src 0) (\<lambda>s0.
     bind_r (wr dst 0 (push_bit 4 m OR drop_bit 4 s0)) (\<lambda>dst.
     for_loop [1..<l] (\<lambda>i dst.
        bind_r (rd src (i - 1)) (\<lambda>p.
        bind_r (rd src i) (\<lambda>s. wr dst i (push_bit 4 p OR drop_bit 4 s)))) dst))
   = Inr (add_nibble m (take l src) @ drop l dst)"
proof -
  let ?h = "\<lambda>i. push_bit 4 (src ! (i - 1)) OR drop_bit 4 (src ! i)"
  let ?v = "push_bit 4 m OR drop_bit 4 (src ! 0)"
  have "for_loop [1..<l] (\<lambda>i dst. bind_r (rd src (i - 1)) (\<lambda>p. bind_r (rd src i) (\<lambda>s.
          wr dst i (push_bit 4 p OR drop_bit 4 s)))) (dst[0 := ?v]) =
        Inr (take 1 (dst[0 := ?v]) @ map ?h [1..<l] @ drop l (dst[0 := ?v]))"
    using l by (intro for_loop_fill) (auto simp: mem_simps)
  also have "take 1 (dst[0 := ?v]) = [?v]" using l by (cases dst) auto
  also have "drop l (dst[0 := ?v]) = drop l dst" using l by simp
  also have "[?v] @ map ?h [1..<l] @ drop l dst = shr_bytes m (take l src) @ drop l dst"
    using l by (auto simp: shr_bytes_def nth_Cons' intro!: list_eqI)
  also have "shr_bytes m (take l src) = add_nibble m (take l src)"
    using l by (intro shr_bytes_eq) auto
  finally show ?thesis
    using l order_less_le_trans [of 0 l "length src"] order_less_le_trans [of 0 l "length dst"]
    by (simp add: mem_simps)
qed

lemma shift_out_loop:
  assumes l: "1 \<le> l" "l \<le> length src" "l \<le> length dst"
  shows "bind_r (for_loop [0..<l - 1] (\<lambda>i dst.
        bind_r (rd src i) (\<lambda>s.
        bind_r (rd src (i + 1)) (\<lambda>t. wr dst i (push_bit 4 s OR drop_bit 4 t)))) dst) (\<lambda>dst.
     bind_r (rd src (l - 1)) (\<lambda>s. wr dst (l - 1) (push_bit 4 s)))
   = Inr (drop_nibble (take l src) @ drop l dst)"
proof -
  let ?h = "\<lambda>i. push_bit 4 (src ! i) OR drop_bit 4 (src ! Suc i)"
  obtain k where k: "l = Suc k" using l by (cases l) auto
  have "for_loop [0..<l - 1] (\<lambda>i dst. bind_r (rd src i) (\<lambda>s. bind_r (rd src (i + 1)) (\<lambda>t.
          wr dst i (push_bit 4 s OR drop_bit 4 t)))) dst =
        Inr (take 0 dst @ map ?h [0..<l - 1] @ drop (l - 1) dst)"
    using l by (intro for_loop_fill) (auto simp: mem_simps)
  moreover have "wr (map ?h [0..<k] @ drop k dst) k (push_bit 4 (src ! k)) =
      Inr (shl_bytes (take l src) @ drop l dst)"
    using l k by (auto simp: wr_def shl_bytes_def min_def list_update_append
        simp flip: Cons_nth_drop_Suc)
  moreover have "shl_bytes (take l src) = drop_nibble (take l src)"
    using l by (intro shl_bytes_eq) auto
  ultimately show ?thesis using l k by (simp add: mem_simps)
qed

lemma gsm_from_canon_eq:
  "33 \<le> length src \<Longrightarrow> 33 \<le> length dst \<Longrightarrow>
     gsm_from_canon dst src 33 = Inr (add_nibble GSM_MAGIC (take 33 src) @ drop 33 dst, 33)"
  using shift_in_loop [of 33 src dst GSM_MAGIC]
  by (auto simp: gsm_from_canon_def mem_simps bind_r_Inr_iff)

lemma gsm_to_canon_eq:
  "33 \<le> length src \<Longrightarrow> 33 \<le> length dst \<Longrightarrow>
     gsm_to_canon dst src 33 = Inr (drop_nibble (take 33 src) @ drop 33 dst, 33)"
  using shift_out_loop [of 33 src dst]
  by (auto simp: gsm_to_canon_def mem_simps bind_r_Inr_iff)

lemma rtp_efr_from_canon_eq:
  "31 \<le> length src \<Longrightarrow> 31 \<le> length dst \<Longrightarrow>
     rtp_efr_from_canon dst src 31 = Inr (add_nibble EFR_MAGIC (take 31 src) @ drop 31 dst, 31)"
  using shift_in_loop [of 31 src dst EFR_MAGIC]
  by (auto simp: rtp_efr_from_canon_def mem_simps bind_r_Inr_iff)

definition rtp_efr_dec :: "buf \<Rightarrow> buf" where
  "rtp_efr_dec fr = drop_nibble (if fr = DAMAGED_PACKET then SILENCE else fr)"

lemma rtp_efr_to_canon_eq:
  assumes "31 \<le> length src" and "31 \<le> length dst"
  shows "rtp_efr_to_canon dst src 31 = Inr (rtp_efr_dec (take 31 src) @ drop 31 dst, 31)"
proof -
  define s where "s = (if DAMAGED_PACKET = take 31 src then SILENCE else src)"
  have s: "31 \<le> length s" "take 31 s = (if take 31 src = DAMAGED_PACKET then SILENCE else take 31 src)"
    using assms by (auto simp: s_def SILENCE_def)
  show ?thesis
    using shift_out_loop [of 31 s dst] assms s
    by (auto simp: rtp_efr_to_canon_def rtp_efr_dec_def Let_def mem_simps bind_r_Inr_iff
        simp flip: s_def)
qed

lemma rtp_efr_to_canon_short:
  "n \<noteq> 31 \<Longrightarrow> 31 \<le> length dst \<Longrightarrow>
     rtp_efr_to_canon dst src n = Inr (replicate 31 0 @ drop 31 dst, 31)"
  by (simp add: rtp_efr_to_canon_def mem_simps)

section \<open>The formats lose nothing\<close>

interpretation gsm: lossless_format gsm_from_canon "add_nibble GSM_MAGIC" gsm_to_canon drop_nibble
    33 33 "\<lambda>_. True" "padded 260 33"
proof unfold_locales
  fix src dst :: buf assume "33 \<le> length src" "33 \<le> length dst"
  then show "gsm_from_canon dst src 33 = Inr (add_nibble GSM_MAGIC (take 33 src) @ drop 33 dst, int 33)"
    and "gsm_to_canon dst src 33 = Inr (drop_nibble (take 33 src) @ drop 33 dst, int 33)"
    by (simp_all add: gsm_from_canon_eq gsm_to_canon_eq)
next
  fix c :: buf
  show "length (add_nibble GSM_MAGIC c) = 33" "length (drop_nibble c) = 33" if "length c = 33"
    using that length_add_nibble [of c] length_drop_nibble [of c] by (cases c; simp)+
  show "padded 260 33 (drop_nibble c)" if "length c = 33"
    using that padded_drop_nibble [of c 33] by simp
  show "drop_nibble (add_nibble GSM_MAGIC c) = c" "length c = 33" if "padded 260 33 c"
    using that drop_add_nibble [of 33 c] by (simp_all add: padded_def)
qed simp

interpretation gsm_from_strict: strict_conv gsm_from_canon "add_nibble GSM_MAGIC" 33 33
  by unfold_locales (simp add: gsm_from_canon_def mem_simps)

text \<open>
  RTP EFR: the all-zero frame with the magic stands for a damaged packet, so the all-zero
  canonical frame is the one frame that does not come back.
\<close>

definition efr_canon_ok :: "buf \<Rightarrow> bool" where
  "efr_canon_ok c \<longleftrightarrow> padded 244 31 c \<and> c \<noteq> replicate 31 0"

definition rtp_efr_frame :: "buf \<Rightarrow> bool" where
  "rtp_efr_frame fr \<longleftrightarrow> drop_nibble fr \<noteq> replicate 31 0"

lemma add_nibble_zero: "add_nibble EFR_MAGIC (replicate 31 0) = DAMAGED_PACKET"
proof -
  have "shr_bytes EFR_MAGIC (replicate 31 0) = DAMAGED_PACKET"
    by (simp add: shr_bytes_def DAMAGED_PACKET_def nth_Cons' upt_rec_numeral eval_nat_numeral)
  then show ?thesis by (simp add: shr_bytes_eq)
qed

lemma drop_nibble_damaged: "drop_nibble DAMAGED_PACKET = replicate 31 0"
  using drop_add_nibble [of 31 "replicate 31 0" EFR_MAGIC, unfolded add_nibble_zero]
  by (simp add: padded_def msb_bits_def)

interpretation rtp_efr: lossless_format rtp_efr_from_canon "add_nibble EFR_MAGIC" rtp_efr_to_canon
    rtp_efr_dec 31 31 rtp_efr_frame efr_canon_ok
proof unfold_locales
  fix src dst :: buf assume "31 \<le> length src" "31 \<le> length dst"
  then show "rtp_efr_from_canon dst src 31 = Inr (add_nibble EFR_MAGIC (take 31 src) @ drop 31 dst, int 31)"
    and "rtp_efr_to_canon dst src 31 = Inr (rtp_efr_dec (take 31 src) @ drop 31 dst, int 31)"
    by (simp_all add: rtp_efr_from_canon_eq rtp_efr_to_canon_eq)
next
  fix c :: buf
  have s: "length SILENCE = 31" "SILENCE \<noteq> []" by (simp_all add: SILENCE_def)
  show "length (add_nibble EFR_MAGIC c) = 31" if "length c = 31"
    using that length_add_nibble [of c] by (cases c) simp_all
  show "length (rtp_efr_dec c) = 31" if "length c = 31"
    using that s length_drop_nibble [of c] length_drop_nibble [of SILENCE]
    by (cases c) (auto simp: rtp_efr_dec_def)
  show "length c = 31" if "efr_canon_ok c"
    using that by (simp add: efr_canon_ok_def padded_def)
  show "efr_canon_ok (rtp_efr_dec c)" if "length c = 31" "rtp_efr_frame c"
    using that padded_drop_nibble [of c 31] drop_nibble_damaged
    by (auto simp: efr_canon_ok_def rtp_efr_frame_def rtp_efr_dec_def)
  assume c: "efr_canon_ok c"
  then have dn: "drop_nibble (add_nibble EFR_MAGIC c) = c"
    using drop_add_nibble [of 31 c] by (simp add: efr_canon_ok_def)
  with c show "rtp_efr_frame (add_nibble EFR_MAGIC c)"
    by (simp add: rtp_efr_frame_def efr_canon_ok_def)
  from dn c have "add_nibble EFR_MAGIC c \<noteq> DAMAGED_PACKET"
    using drop_nibble_damaged by (auto simp: efr_canon_ok_def)
  with dn show "rtp_efr_dec (add_nibble EFR_MAGIC c) = c" by (simp add: rtp_efr_dec_def)
qed

end
