(* ===== verification/Bit_Tables.thy ===== *)
theory Bit_Tables
  imports Conv "HOL-Library.Multiset"
begin

unbundle bit_operations_syntax

text \<open>
  The bit importance tables of the GSM codecs and the frames reordered by them, which
  \<^verbatim>\<open>src/fmt_ti.c\<close>, \<^verbatim>\<open>src/fmt_racal.c\<close> and \<^verbatim>\<open>src/fmt_amr.c\<close> share.

  The tables are arrays of libosmocodec and no code of this repository: they are the
  parameter \<open>T\<close> of every definition. \<open>good_tables T\<close> says what their documentation
  promises and the converters rely on: each is a permutation of the bit numbers of its
  frame, and the half-rate tables put the two mode bits (canonical bits 34 and 35) at
  positions 93 and 94.

  \<open>reordered\<close> is the reference description of a converter (which bit goes where, zero
  everywhere else); \<open>reorder_frame\<close>, proved in the context of \<open>bit_mover\<close>, says that a
  copying loop over a \<open>good_map\<close> computes it.
\<close>

section \<open>The bit order tables\<close>

record bit_tables =
  gsm610_bitorder :: "nat list"
  gsm620_unvoiced_bitorder :: "nat list"
  gsm620_voiced_bitorder :: "nat list"
  gsm660_bitorder :: "nat list"
  gsm690_12_2_bitorder :: "nat list"

definition is_perm :: "nat \<Rightarrow> nat list \<Rightarrow> bool" where
  "is_perm n t \<longleftrightarrow> length t = n \<and> distinct t \<and> (\<forall>x \<in> set t. x < n)"

definition mode_bits :: "nat list \<Rightarrow> bool" where
  "mode_bits t \<longleftrightarrow> (t ! 93 = 34 \<and> t ! 94 = 35) \<or> (t ! 93 = 35 \<and> t ! 94 = 34)"

definition good_tables :: "bit_tables \<Rightarrow> bool" where
  "good_tables T \<longleftrightarrow>
     is_perm 260 (gsm610_bitorder T) \<and>
     is_perm 112 (gsm620_unvoiced_bitorder T) \<and> mode_bits (gsm620_unvoiced_bitorder T) \<and>
     is_perm 112 (gsm620_voiced_bitorder T) \<and> mode_bits (gsm620_voiced_bitorder T) \<and>
     is_perm 260 (gsm660_bitorder T) \<and>
     is_perm 244 (gsm690_12_2_bitorder T)"

lemma is_perm_length: "is_perm n t \<Longrightarrow> length t = n"
  by (simp add: is_perm_def)

lemma is_perm_less: "is_perm n t \<Longrightarrow> i < n \<Longrightarrow> t ! i < n"
  by (simp add: is_perm_def)

lemma is_perm_inj: "is_perm n t \<Longrightarrow> i < n \<Longrightarrow> j < n \<Longrightarrow> t ! i = t ! j \<longleftrightarrow> i = j"
  by (simp add: is_perm_def nth_eq_iff_index_eq)

lemma is_perm_surj:
  assumes "is_perm n t" and "k < n"
  shows "\<exists>i<n. t ! i = k"
proof -
  have "card (set t) = n" "set t \<subseteq> {..<n}" using assms by (auto simp: is_perm_def distinct_card)
  then have "set t = {..<n}" by (simp add: card_subset_eq)
  then have "k \<in> set t" using assms by simp
  then show ?thesis using assms by (auto simp: is_perm_def in_set_conv_nth)
qed

lemma is_perm_swap:
  assumes p: "is_perm n t" and i: "i < n" and j: "j < n"
  shows "is_perm n (t[i := t ! j, j := t ! i])"
proof -
  have "mset (t[i := t ! j, j := t ! i]) = mset t"
    using p i j by (simp add: is_perm_def mset_swap)
  then have "set (t[i := t ! j, j := t ! i]) = set t" by (metis set_mset_mset)
  with p i j show ?thesis by (simp add: is_perm_def distinct_swap)
qed

text \<open>An example of tables with these properties: the identity, the mode bits exchanged.\<close>

definition swap_mode :: "nat list" where
  "swap_mode = ([0..<112])[34 := 93, 93 := 34, 35 := 94, 94 := 35]"

lemma is_perm_upt: "is_perm n [0..<n]"
  by (simp add: is_perm_def)

lemma is_perm_swap_mode: "is_perm 112 swap_mode"
  using is_perm_swap [OF is_perm_swap [OF is_perm_upt [of 112], of 34 93], of 35 94]
  by (simp add: swap_mode_def)

definition identity_tables :: bit_tables where
  "identity_tables =
     \<lparr>gsm610_bitorder = [0..<260], gsm620_unvoiced_bitorder = swap_mode,
      gsm620_voiced_bitorder = swap_mode, gsm660_bitorder = [0..<260],
      gsm690_12_2_bitorder = [0..<244]\<rparr>"

lemma good_identity_tables: "good_tables identity_tables"
  by (simp add: good_tables_def identity_tables_def is_perm_upt is_perm_swap_mode)
     (simp add: mode_bits_def swap_mode_def)

section \<open>Half rate: which table\<close>

text \<open>
  All four half-rate converters pick the table by the mode bits; they read them in the
  order of the format at hand.
\<close>

definition bit_mapping :: "bit_tables \<Rightarrow> nat \<Rightarrow> nat list" where
  "bit_mapping T voiced =
     (if voiced \<noteq> 0 then gsm620_voiced_bitorder T else gsm620_unvoiced_bitorder T)"

section \<open>Reordered frames: the reference description\<close>

text \<open>
  The frame of \<open>l\<close> bytes that holds, for each \<open>i < n\<close> with \<open>m i = Some (di, si)\<close>, bit
  \<open>si\<close> of the source bits at position \<open>di\<close>, and zero bits elsewhere.
\<close>

definition reordered :: "nat \<Rightarrow> (nat \<Rightarrow> (nat \<times> nat) option) \<Rightarrow> nat \<Rightarrow> bool list \<Rightarrow> bool list" where
  "reordered l m n xs = place (8 * l) (moves m xs n)"

definition swap_m :: "(nat \<Rightarrow> (nat \<times> nat) option) \<Rightarrow> nat \<Rightarrow> (nat \<times> nat) option" where
  "swap_m m i = map_option prod.swap (m i)"

lemma swap_m_Some [simp]: "swap_m m i = Some (a, b) \<longleftrightarrow> m i = Some (b, a)"
  by (auto simp: swap_m_def)

lemma swap_m_total: "swap_m (\<lambda>i. Some (d i, s i)) = (\<lambda>i. Some (s i, d i))"
  by (simp add: swap_m_def fun_eq_iff)

lemma length_reordered [simp]: "length (reordered l m n xs) = 8 * l"
  by (simp add: reordered_def)

lemma reordered_bit:
  assumes "dest_inj m n" and "i < n" and "m i = Some (di, si)" and "di < 8 * l"
  shows "reordered l m n xs ! di = xs ! si"
  using assms unfolding reordered_def
  by (intro nth_place_in distinct_moves) (auto simp: set_moves)

lemma reordered_gap:
  "(\<forall>i<n. \<forall>si. m i \<noteq> Some (k, si)) \<Longrightarrow> k < 8 * l \<Longrightarrow> \<not> reordered l m n xs ! k"
  unfolding reordered_def by (intro nth_place_out) (auto simp: fst_moves)

lemma reordered_cong:
  assumes "\<And>i di si. i < n \<Longrightarrow> m i = Some (di, si) \<Longrightarrow> xs ! si = ys ! si"
  shows "reordered l m n xs = reordered l m n ys"
proof -
  have "moves m xs n = moves m ys n"
    unfolding moves_def using assms
    by (intro arg_cong [where f = concat] map_cong refl) (auto split: option.splits)
  then show ?thesis by (simp add: reordered_def)
qed

lemma reordered_take:
  assumes "\<And>i di si. i < n \<Longrightarrow> m i = Some (di, si) \<Longrightarrow> si < k"
  shows "reordered l m n (take k xs) = reordered l m n xs"
  using assms by (intro reordered_cong) auto

text \<open>Moving the bits back restores a frame whose other bits are zero.\<close>

lemma reordered_back:
  assumes inj: "dest_inj m n" "dest_inj (swap_m m) n"
    and range: "\<And>i di si. i < n \<Longrightarrow> m i = Some (di, si) \<Longrightarrow> di < 8 * l"
    and xs: "length xs = 8 * l'"
    and zero: "\<And>k. k < 8 * l' \<Longrightarrow> (\<forall>i<n. \<forall>di. m i \<noteq> Some (di, k)) \<Longrightarrow> \<not> xs ! k"
  shows "reordered l' (swap_m m) n (reordered l m n xs) = xs"
proof (rule list_eqI)
  fix k assume k: "k < length xs"
  show "reordered l' (swap_m m) n (reordered l m n xs) ! k = xs ! k"
  proof (cases "\<exists>i<n. \<exists>di. m i = Some (di, k)")
    case True
    then obtain i di where i: "i < n" "m i = Some (di, k)" by blast
    then have "reordered l' (swap_m m) n (reordered l m n xs) ! k = reordered l m n xs ! di"
      using k xs inj by (intro reordered_bit) auto
    also have "\<dots> = xs ! k" using i inj range by (intro reordered_bit) auto
    finally show ?thesis .
  next
    case False
    then have "\<not> reordered l' (swap_m m) n (reordered l m n xs) ! k"
      using k xs by (intro reordered_gap) auto
    with False zero k xs show ?thesis by auto
  qed
qed (use xs in simp)

section \<open>Facts about the maps of good tables\<close>

text \<open>
  \<open>good_map l l' n m\<close>: \<open>m\<close> moves \<open>n\<close> bits of a frame of \<open>l'\<close> bytes into a frame of \<open>l\<close>
  bytes, no bit read twice and none written twice.
\<close>

definition good_map :: "nat \<Rightarrow> nat \<Rightarrow> nat \<Rightarrow> (nat \<Rightarrow> (nat \<times> nat) option) \<Rightarrow> bool" where
  "good_map l l' n m \<longleftrightarrow>
     dest_inj m n \<and> dest_inj (swap_m m) n \<and>
     (\<forall>i<n. \<forall>di si. m i = Some (di, si) \<longrightarrow> di < 8 * l \<and> si < 8 * l')"

lemma good_map_range:
  "good_map l l' n m \<Longrightarrow> i < n \<Longrightarrow> m i = Some (di, si) \<Longrightarrow> di < 8 * l \<and> si < 8 * l'"
  unfolding good_map_def by blast

lemma good_map_inj: "good_map l l' n m \<Longrightarrow> dest_inj m n"
  by (simp add: good_map_def)

lemma good_map_swap: "good_map l l' n m \<Longrightarrow> good_map l' l n (swap_m m)"
proof -
  have "swap_m (swap_m m) = m" by (rule ext) (simp add: swap_m_def option.map_comp option.map_ident comp_def)
  then show "good_map l l' n m \<Longrightarrow> good_map l' l n (swap_m m)" by (auto simp: good_map_def)
qed

lemma good_map_total:
  assumes "\<And>i j. i < n \<Longrightarrow> j < n \<Longrightarrow> d i = d j \<longleftrightarrow> i = j"
    and "\<And>i j. i < n \<Longrightarrow> j < n \<Longrightarrow> s i = s j \<longleftrightarrow> i = j"
    and "\<And>i. i < n \<Longrightarrow> d i < 8 * l \<and> s i < 8 * l'"
  shows "good_map l l' n (\<lambda>i. Some (d i, s i))"
  using assms by (auto simp: good_map_def dest_inj_def)

lemma good_map_table:
  assumes t: "is_perm n t" and n: "n \<le> 8 * l'"
    and d: "\<And>i j. d i = d j \<longleftrightarrow> i = j" and l: "\<And>i. i < n \<Longrightarrow> d i < 8 * l"
  shows "good_map l l' n (\<lambda>i. Some (d i, t ! i))"
  using is_perm_inj [OF t] order_less_le_trans [OF is_perm_less [OF t] n] d l
  by (intro good_map_total) auto

lemma gsm610_perm: "good_tables T \<Longrightarrow> is_perm 260 (gsm610_bitorder T)"
  by (simp add: good_tables_def)

lemma gsm660_perm: "good_tables T \<Longrightarrow> is_perm 260 (gsm660_bitorder T)"
  by (simp add: good_tables_def)

lemma gsm690_perm: "good_tables T \<Longrightarrow> is_perm 244 (gsm690_12_2_bitorder T)"
  by (simp add: good_tables_def)

lemma bit_mapping_perm: "good_tables T \<Longrightarrow> is_perm 112 (bit_mapping T v)"
  by (simp add: good_tables_def bit_mapping_def)

lemma bit_mapping_mode: "good_tables T \<Longrightarrow> mode_bits (bit_mapping T v)"
  by (simp add: good_tables_def bit_mapping_def)

context bit_mover begin

lemma reorder_frame:
  assumes m: "good_map l l' n m" and src: "l' \<le> length src" and dst: "l \<le> length dst"
    and body: "\<And>i d. i < n \<Longrightarrow> f i d =
       (case m i of None \<Rightarrow> Inr d | Some (di, si) \<Rightarrow> bind_r (gs src si) (pd d di))"
    and clear: "\<And>k. k < 8 * l \<Longrightarrow> (\<forall>i<n. \<forall>si. m i \<noteq> Some (k, si)) \<Longrightarrow> \<not> vd dst ! k"
  shows "for_loop [0..<n] f dst = Inr (pkd (reordered l m n (vs (take l' src))) @ drop l dst)"
proof -
  have "vs src = vs (take l' src) @ vs (drop l' src)" by (simp flip: src.bits_append)
  then have tk: "vs (take l' src) = take (8 * l') (vs src)"
    using src by (simp add: src.length_bits)
  have "for_loop [0..<n] f dst = Inr (pkd (place (8 * l) (moves m (vs src) n)) @ drop l dst)"
  proof (rule move_frame [OF body _ good_map_inj [OF m] dst clear])
    show "di < 8 * l \<and> si < 8 * length src" if "i < n" "m i = Some (di, si)" for i di si
      using good_map_range [OF m that] src by auto
  qed
  also have "place (8 * l) (moves m (vs src) n) = reordered l m n (vs (take l' src))"
    using good_map_range [OF m] by (simp add: tk reordered_take) (simp add: reordered_def)
  finally show ?thesis .
qed

end

lemma zero_byte_bit: "n < 8 * length b \<Longrightarrow> b ! (n div 8) = 0 \<Longrightarrow> \<not> msb_bits b ! n \<and> \<not> lsb_bits b ! n"
  by (simp add: msb_bits_def lsb_bits_def nth_bits_by)

lemma zero_head_bit: "n < 8 * l \<Longrightarrow> \<not> msb_bits (replicate l 0 @ b) ! n"
proof -
  assume n: "n < 8 * l"
  then have "n div 8 < l" by auto
  then have "(replicate l 0 @ b) ! (n div 8) = 0" by (simp add: nth_append)
  then show "\<not> msb_bits (replicate l 0 @ b) ! n"
    using n by (intro zero_byte_bit [THEN conjunct1]) auto
qed

lemma tail_clear:
  assumes t: "is_perm n t" and k: "k < 8 * Suc l" "n \<le> 8 * Suc l" "8 * l \<le> n"
    and un: "\<forall>i<n. \<forall>si. Some (t ! i, s i) \<noteq> Some (k, si)" and dst: "l < length dst"
  shows "\<not> msb_bits (dst[l := 0]) ! k"
proof -
  have "n \<le> k" using is_perm_surj [OF t, of k] un by (cases "k < n") auto
  then have "k div 8 = l" using k by auto
  with k dst show ?thesis by (intro zero_byte_bit [THEN conjunct1]) auto
qed

definition hr_voiced :: "buf \<Rightarrow> bool" where
  "hr_voiced c \<longleftrightarrow> msb_bits c ! 34 \<or> msb_bits c ! 35"

lemma msb_bits_take: "msb_bits (take n b) = take (8 * n) (msb_bits b)"
  by (simp add: msb_bits_def bits_by_take)

lemma msb_bits_drop: "msb_bits (drop n b) = drop (8 * n) (msb_bits b)"
  by (simp add: msb_bits_def bits_by_drop)

lemma lsb_bits_take: "lsb_bits (take n b) = take (8 * n) (lsb_bits b)"
  by (simp add: lsb_bits_def bits_by_take)

lemma msb_get_in: "n < 8 * length b \<Longrightarrow> msb_get_bit b n = Inr (of_bool (msb_bits b ! n))"
  by (simp add: msb.get_bit)

lemma lsb_get_in: "n < 8 * length b \<Longrightarrow> lsb_get_bit b n = Inr (of_bool (lsb_bits b ! n))"
  by (simp add: lsb.get_bit)

lemma perm_full_clear:
  assumes "is_perm n t" and "\<forall>i<n. \<forall>si. Some (t ! i, s i) \<noteq> Some (k, si)" and "k < n"
  shows False
  using is_perm_surj [OF assms(1,3)] assms(2) by auto

section \<open>Frames reordered by a permutation\<close>

lemma table_roundtrip:
  assumes t: "is_perm n t" and n: "n \<le> 8 * l'" and c: "padded n l' c"
    and d: "\<And>i j. d i = d j \<longleftrightarrow> i = j" and l: "\<And>i. i < n \<Longrightarrow> d i < 8 * l"
  shows "reordered l' (\<lambda>i. Some (t ! i, d i)) n (reordered l (\<lambda>i. Some (d i, t ! i)) n (msb_bits c)) =
     msb_bits c"
proof -
  let ?m = "\<lambda>i. Some (d i, t ! i)"
  have g: "good_map l l' n ?m" using t n d l by (rule good_map_table)
  have "reordered l' (swap_m ?m) n (reordered l ?m n (msb_bits c)) = msb_bits c"
  proof (rule reordered_back)
    show "dest_inj ?m n" "dest_inj (swap_m ?m) n" using g by (simp_all add: good_map_def)
    show "length (msb_bits c) = 8 * l'" using c by (simp add: padded_def)
    fix k assume "k < 8 * l'" "\<forall>i<n. \<forall>di. ?m i \<noteq> Some (di, k)"
    then show "\<not> msb_bits c ! k"
      using is_perm_surj [OF t, of k] padded_bit [OF c, of k] by (cases "k < n") auto
  qed (use l in auto)
  then show ?thesis by (simp add: swap_m_total)
qed

lemma table_padded:
  assumes t: "is_perm n t" and n: "n \<le> 8 * l'"
  shows "padded n l' (msb_bytes (reordered l' (\<lambda>i. Some (t ! i, d i)) n xs))"
proof (rule paddedI)
  fix k assume k: "n \<le> k" "k < 8 * l'"
  have "\<not> reordered l' (\<lambda>i. Some (t ! i, d i)) n xs ! k"
    using k is_perm_less [OF t] by (intro reordered_gap) force+
  then show "\<not> msb_bits (msb_bytes (reordered l' (\<lambda>i. Some (t ! i, d i)) n xs)) ! k" by simp
qed simp

lemma padded_full: "padded (8 * l) l c \<longleftrightarrow> length c = l"
  by (auto simp: padded_def)

end
