(* ===== verification/Fmt_Ti.thy ===== *)
theory Fmt_Ti
  imports Bit_Tables
begin

unbundle bit_operations_syntax

text \<open>
  The TI Calypso buffer formats (\<^verbatim>\<open>src/fmt_ti.c\<close>): the canonical bits in the order of
  importance, with a gap of four bits, in a buffer of 33 bytes. The half- and full-rate
  formats are lossless. The EFR loops stop after 244 of the 260 entries of the table;
  which canonical bits survive is stated exactly.
\<close>

definition TI_LEN :: nat where [simp, code_unfold]: "TI_LEN = 33"

definition ti_hr_from_canon :: "bit_tables \<Rightarrow> conv" where
  "ti_hr_from_canon T dst src src_len =
     bind_r (assert_c (src_len = HR_CANON_LEN)) (\<lambda>_.
     bind_r (memset_c dst 0 TI_LEN) (\<lambda>dst.
     bind_r (msb_get_bit src 34) (\<lambda>v1. bind_r (msb_get_bit src 35) (\<lambda>v0.
     let voiced = push_bit 1 v1 OR v0 in
     bind_r (for_loop [0..<112] (\<lambda>i dst.
               bind_r (rd (bit_mapping T voiced) i) (\<lambda>si.
               let di = (if i \<ge> 95 then i + 4 else i) in
               bind_r (msb_get_bit src si) (msb_put_bit dst di))) dst) (\<lambda>dst.
     Inr (dst, int TI_LEN))))))"

definition ti_hr_to_canon :: "bit_tables \<Rightarrow> conv" where
  "ti_hr_to_canon T dst src src_len =
     bind_r (assert_c (src_len = TI_LEN)) (\<lambda>_.
     bind_r (msb_get_bit src 94) (\<lambda>v1. bind_r (msb_get_bit src 93) (\<lambda>v0.
     let voiced = push_bit 1 v1 OR v0 in
     bind_r (for_loop [0..<112] (\<lambda>i dst.
               let si = (if i \<ge> 95 then i + 4 else i) in
               bind_r (rd (bit_mapping T voiced) i) (\<lambda>di.
               bind_r (msb_get_bit src si) (msb_put_bit dst di))) dst) (\<lambda>dst.
     Inr (dst, int HR_CANON_LEN)))))"

definition ti_fr_from_canon :: "bit_tables \<Rightarrow> conv" where
  "ti_fr_from_canon T dst src src_len =
     bind_r (assert_c (src_len = FR_CANON_LEN)) (\<lambda>_.
     bind_r (wr dst 23 0) (\<lambda>dst. bind_r (wr dst 22 0) (\<lambda>dst.
     bind_r (for_loop [0..<260] (\<lambda>i dst.
               bind_r (rd (gsm610_bitorder T) i) (\<lambda>si.
               let di = (if i \<ge> 182 then i + 4 else i) in
               bind_r (msb_get_bit src si) (msb_put_bit dst di))) dst) (\<lambda>dst.
     Inr (dst, int TI_LEN)))))"

definition ti_fr_to_canon :: "bit_tables \<Rightarrow> conv" where
  "ti_fr_to_canon T dst src src_len =
     bind_r (assert_c (src_len = TI_LEN)) (\<lambda>_.
     bind_r (wr dst 32 0) (\<lambda>dst.
     bind_r (for_loop [0..<260] (\<lambda>i dst.
               let si = (if i \<ge> 182 then i + 4 else i) in
               bind_r (rd (gsm610_bitorder T) i) (\<lambda>di.
               bind_r (msb_get_bit src si) (msb_put_bit dst di))) dst) (\<lambda>dst.
     Inr (dst, int FR_CANON_LEN))))"

text \<open>
  The EFR table numbers the 260 bits behind the preliminary channel coding; the chain of
  conditions maps such a number to the canonical bit, or to nothing (a C \<^verbatim>\<open>continue\<close>) for
  the repeated bits and the CRC.
\<close>

definition efr_index :: "nat \<Rightarrow> nat option" where
  "efr_index t =
     (if t < 71 then Some t
      else if t < 73 then None
      else if t < 123 then Some (t - 2)
      else if t < 125 then None
      else if t < 178 then Some (t - 4)
      else if t < 180 then None
      else if t < 230 then Some (t - 6)
      else if t < 232 then None
      else if t < 252 then Some (t - 8)
      else None)"

definition ti_efr_from_canon :: "bit_tables \<Rightarrow> conv" where
  "ti_efr_from_canon T dst src src_len =
     bind_r (assert_c (src_len = EFR_CANON_LEN)) (\<lambda>_.
     bind_r (memset_c dst 0 33) (\<lambda>dst.
     bind_r (for_loop [0..<244] (\<lambda>i dst.
               bind_r (rd (gsm660_bitorder T) i) (\<lambda>tsi.
               let di = (if i \<ge> 182 then i + 4 else i) in
               case efr_index tsi of
                 None \<Rightarrow> Inr dst
               | Some si \<Rightarrow> bind_r (msb_get_bit src si) (msb_put_bit dst di))) dst) (\<lambda>dst.
     Inr (dst, int TI_LEN))))"

definition ti_efr_to_canon :: "bit_tables \<Rightarrow> conv" where
  "ti_efr_to_canon T dst src src_len =
     bind_r (assert_c (src_len = TI_LEN)) (\<lambda>_.
     bind_r (memset_c dst 0 EFR_CANON_LEN) (\<lambda>dst.
     bind_r (for_loop [0..<244] (\<lambda>i dst.
               let si = (if i \<ge> 182 then i + 4 else i) in
               bind_r (rd (gsm660_bitorder T) i) (\<lambda>tdi.
               case efr_index tdi of
                 None \<Rightarrow> Inr dst
               | Some di \<Rightarrow> bind_r (msb_get_bit src si) (msb_put_bit dst di))) dst) (\<lambda>dst.
     Inr (dst, int EFR_CANON_LEN))))"

text \<open>The positions of the TI buffer: a gap of four bits at position \<open>g\<close>.\<close>

definition ti_pos :: "nat \<Rightarrow> nat \<Rightarrow> nat" where
  "ti_pos g i = (if i \<ge> g then i + 4 else i)"

lemma ti_pos_inj: "ti_pos g i = ti_pos g j \<longleftrightarrow> i = j"
  by (auto simp: ti_pos_def)

definition ti_fr_map :: "bit_tables \<Rightarrow> nat \<Rightarrow> (nat \<times> nat) option" where
  "ti_fr_map T i = Some (ti_pos 182 i, gsm610_bitorder T ! i)"

definition ti_efr_map :: "bit_tables \<Rightarrow> nat \<Rightarrow> (nat \<times> nat) option" where
  "ti_efr_map T i = map_option (\<lambda>si. (ti_pos 182 i, si)) (efr_index (gsm660_bitorder T ! i))"

definition ti_hr_map :: "bit_tables \<Rightarrow> bool \<Rightarrow> nat \<Rightarrow> (nat \<times> nat) option" where
  "ti_hr_map T v i = Some (ti_pos 95 i, bit_mapping T (of_bool v) ! i)"

lemma efr_index_inj: "efr_index a = Some k \<Longrightarrow> efr_index b = Some k \<Longrightarrow> a = b"
  by (auto simp: efr_index_def split: if_splits)

lemma efr_index_less: "efr_index a = Some k \<Longrightarrow> k < 244"
  by (auto simp: efr_index_def split: if_splits)

lemma efr_index_surj: "k < 244 \<Longrightarrow> \<exists>t<260. efr_index t = Some k"
proof -
  assume k: "k < 244"
  consider "k < 71" | "71 \<le> k" "k < 121" | "121 \<le> k" "k < 174" | "174 \<le> k" "k < 224" | "224 \<le> k"
    by linarith
  then show ?thesis
  proof cases
    case 1 then show ?thesis by (intro exI [of _ k]) (simp add: efr_index_def)
  next
    case 2 then show ?thesis by (intro exI [of _ "k + 2"]) (simp add: efr_index_def)
  next
    case 3 then show ?thesis by (intro exI [of _ "k + 4"]) (simp add: efr_index_def)
  next
    case 4 then show ?thesis by (intro exI [of _ "k + 6"]) (simp add: efr_index_def)
  next
    case 5 with k show ?thesis by (intro exI [of _ "k + 8"]) (simp add: efr_index_def)
  qed
qed

lemma good_ti_fr_map: "good_tables T \<Longrightarrow> good_map 33 33 260 (ti_fr_map T)"
  unfolding ti_fr_map_def
  by (rule good_map_table [OF gsm610_perm]) (auto simp: ti_pos_inj ti_pos_def)

lemma good_ti_hr_map: "good_tables T \<Longrightarrow> good_map 33 14 112 (ti_hr_map T v)"
  unfolding ti_hr_map_def
  by (rule good_map_table [OF bit_mapping_perm]) (auto simp: ti_pos_inj ti_pos_def)

lemma good_ti_efr_map:
  assumes T: "good_tables T"
  shows "good_map 33 31 244 (ti_efr_map T)"
proof -
  note p = gsm660_perm [OF T]
  have "i = j" if "i < 244" "j < 244" "efr_index (gsm660_bitorder T ! i) = Some k"
      "efr_index (gsm660_bitorder T ! j) = Some k" for i j k
    using efr_index_inj [OF that(3,4)] is_perm_inj [OF p, of i j] that(1,2) by simp
  then show ?thesis
    by (auto simp: good_map_def dest_inj_def ti_efr_map_def ti_pos_inj ti_pos_def
        dest: efr_index_less)
qed

lemma ti_pos_gap:
  assumes "\<forall>i<n. ti_pos g i \<noteq> k" and "k < n + 4" and "g \<le> n"
  shows "g \<le> k \<and> k < g + 4"
proof (rule ccontr)
  assume "\<not> ?thesis"
  then consider "k < g" | "g + 4 \<le> k" by linarith
  then show False
  proof cases
    case 1
    with assms(1) [rule_format, of k] assms(3) show False by (simp add: ti_pos_def)
  next
    case 2
    define j where "j = k - 4"
    have "k = j + 4" "g \<le> j" "j < n" using 2 assms(2) by (auto simp: j_def)
    with assms(1) show False by (auto simp: ti_pos_def)
  qed
qed

lemma ti_fr_from_canon_eq:
  assumes T: "good_tables T" and src: "33 \<le> length src" and dst: "33 \<le> length dst"
  shows "ti_fr_from_canon T dst src 33 =
     Inr (msb_bytes (reordered 33 (ti_fr_map T) 260 (msb_bits (take 33 src))) @ drop 33 dst, 33)"
proof -
  let ?dst = "dst[23 := 0, 22 := 0]"
  have "for_loop [0..<260] (\<lambda>i dst. bind_r (rd (gsm610_bitorder T) i) (\<lambda>si.
           let di = (if i \<ge> 182 then i + 4 else i) in
           bind_r (msb_get_bit src si) (msb_put_bit dst di))) ?dst =
        Inr (msb_bytes (reordered 33 (ti_fr_map T) 260 (msb_bits (take 33 src))) @ drop 33 ?dst)"
  proof (rule mm.reorder_frame [OF good_ti_fr_map [OF T] src])
    fix k assume k: "k < 8 * 33" "\<forall>i<260. \<forall>si. ti_fr_map T i \<noteq> Some (k, si)"
    then have "182 \<le> k \<and> k < 182 + 4"
      by (intro ti_pos_gap [of 260]) (auto simp: ti_fr_map_def)
    then have "k div 8 = 22 \<or> k div 8 = 23" by auto
    then show "\<not> msb_bits ?dst ! k"
      using k dst by (intro zero_byte_bit [THEN conjunct1]) (auto simp: nth_list_update)
  qed (use dst is_perm_length [OF gsm610_perm [OF T]] in
        \<open>simp_all add: ti_fr_map_def ti_pos_def mem_simps Let_def\<close>)
  with dst show ?thesis by (simp add: ti_fr_from_canon_def mem_simps)
qed

lemma ti_fr_to_canon_eq:
  assumes T: "good_tables T" and src: "33 \<le> length src" and dst: "33 \<le> length dst"
  shows "ti_fr_to_canon T dst src 33 =
     Inr (msb_bytes (reordered 33 (swap_m (ti_fr_map T)) 260 (msb_bits (take 33 src))) @ drop 33 dst, 33)"
proof -
  have "for_loop [0..<260] (\<lambda>i dst. let si = (if i \<ge> 182 then i + 4 else i) in
           bind_r (rd (gsm610_bitorder T) i) (\<lambda>di.
           bind_r (msb_get_bit src si) (msb_put_bit dst di))) (dst[32 := 0]) =
        Inr (msb_bytes (reordered 33 (swap_m (ti_fr_map T)) 260 (msb_bits (take 33 src))) @
             drop 33 (dst[32 := 0]))"
  proof (rule mm.reorder_frame [OF good_map_swap [OF good_ti_fr_map [OF T]] src])
    fix k assume k: "k < 8 * 33" "\<forall>i<260. \<forall>si. swap_m (ti_fr_map T) i \<noteq> Some (k, si)"
    then show "\<not> msb_bits (dst[32 := 0]) ! k"
      using dst by (intro tail_clear [OF gsm610_perm [OF T]]) (auto simp: ti_fr_map_def)
  qed (use dst is_perm_length [OF gsm610_perm [OF T]] in
        \<open>simp_all add: ti_fr_map_def swap_m_def ti_pos_def mem_simps Let_def\<close>)
  with dst show ?thesis by (simp add: ti_fr_to_canon_def mem_simps)
qed

lemma ti_efr_from_canon_eq:
  assumes T: "good_tables T" and src: "31 \<le> length src" and dst: "33 \<le> length dst"
  shows "ti_efr_from_canon T dst src 31 =
     Inr (msb_bytes (reordered 33 (ti_efr_map T) 244 (msb_bits (take 31 src))) @ drop 33 dst, 33)"
proof -
  have "for_loop [0..<244] (\<lambda>i dst. bind_r (rd (gsm660_bitorder T) i) (\<lambda>tsi.
          let di = (if i \<ge> 182 then i + 4 else i) in
          case efr_index tsi of None \<Rightarrow> Inr dst
          | Some si \<Rightarrow> bind_r (msb_get_bit src si) (msb_put_bit dst di))) (replicate 33 0 @ drop 33 dst) =
        Inr (msb_bytes (reordered 33 (ti_efr_map T) 244 (msb_bits (take 31 src))) @
             drop 33 (replicate 33 0 @ drop 33 dst))"
    by (rule mm.reorder_frame [OF good_ti_efr_map [OF T] src])
       (use dst is_perm_length [OF gsm660_perm [OF T]] in
        \<open>auto simp: ti_efr_map_def ti_pos_def mem_simps Let_def zero_head_bit split: option.splits\<close>)
  with dst show ?thesis by (simp add: ti_efr_from_canon_def mem_simps)
qed

lemma ti_efr_to_canon_eq:
  assumes T: "good_tables T" and src: "33 \<le> length src" and dst: "31 \<le> length dst"
  shows "ti_efr_to_canon T dst src 33 =
     Inr (msb_bytes (reordered 31 (swap_m (ti_efr_map T)) 244 (msb_bits (take 33 src))) @ drop 31 dst, 31)"
proof -
  have "for_loop [0..<244] (\<lambda>i dst. let si = (if i \<ge> 182 then i + 4 else i) in
          bind_r (rd (gsm660_bitorder T) i) (\<lambda>tdi.
          case efr_index tdi of None \<Rightarrow> Inr dst
          | Some di \<Rightarrow> bind_r (msb_get_bit src si) (msb_put_bit dst di))) (replicate 31 0 @ drop 31 dst) =
        Inr (msb_bytes (reordered 31 (swap_m (ti_efr_map T)) 244 (msb_bits (take 33 src))) @
             drop 31 (replicate 31 0 @ drop 31 dst))"
    by (rule mm.reorder_frame [OF good_map_swap [OF good_ti_efr_map [OF T]] src])
       (use dst is_perm_length [OF gsm660_perm [OF T]] in
        \<open>auto simp: ti_efr_map_def swap_m_def ti_pos_def mem_simps Let_def zero_head_bit
          split: option.splits\<close>)
  with dst show ?thesis by (simp add: ti_efr_to_canon_def mem_simps)
qed

definition ti_hr_voiced :: "buf \<Rightarrow> bool" where
  "ti_hr_voiced fr \<longleftrightarrow> msb_bits fr ! 94 \<or> msb_bits fr ! 93"

lemma ti_hr_from_canon_eq:
  assumes T: "good_tables T" and src: "14 \<le> length src" and dst: "33 \<le> length dst"
  shows "ti_hr_from_canon T dst src 14 =
     Inr (msb_bytes (reordered 33 (ti_hr_map T (hr_voiced (take 14 src))) 112 (msb_bits (take 14 src)))
          @ drop 33 dst, 33)"
proof -
  let ?v = "hr_voiced (take 14 src)"
  have "for_loop [0..<112] (\<lambda>i dst. bind_r (rd (bit_mapping T (of_bool ?v)) i) (\<lambda>si.
          let di = (if i \<ge> 95 then i + 4 else i) in
          bind_r (msb_get_bit src si) (msb_put_bit dst di))) (replicate 33 0 @ drop 33 dst) =
        Inr (msb_bytes (reordered 33 (ti_hr_map T ?v) 112 (msb_bits (take 14 src))) @
             drop 33 (replicate 33 0 @ drop 33 dst))"
    by (rule mm.reorder_frame [OF good_ti_hr_map [OF T] src])
       (use dst is_perm_length [OF bit_mapping_perm [OF T]] in
        \<open>auto simp: ti_hr_map_def ti_pos_def mem_simps Let_def zero_head_bit\<close>)
  moreover have "?v \<longleftrightarrow> msb_bits src ! 34 \<or> msb_bits src ! 35"
    by (simp add: hr_voiced_def msb_bits_take)
  ultimately show ?thesis using src dst
    by (cases "msb_bits src ! 34"; cases "msb_bits src ! 35")
       (simp_all add: ti_hr_from_canon_def mem_simps msb_get_in bit_mapping_def)
qed

lemma ti_hr_to_canon_eq:
  assumes T: "good_tables T" and src: "33 \<le> length src" and dst: "14 \<le> length dst"
  shows "ti_hr_to_canon T dst src 33 =
     Inr (msb_bytes (reordered 14 (swap_m (ti_hr_map T (ti_hr_voiced (take 33 src)))) 112
            (msb_bits (take 33 src))) @ drop 14 dst, 14)"
proof -
  let ?v = "ti_hr_voiced (take 33 src)"
  note perm = bit_mapping_perm [OF T, of "of_bool ?v"]
  have "for_loop [0..<112] (\<lambda>i dst. let si = (if i \<ge> 95 then i + 4 else i) in
          bind_r (rd (bit_mapping T (of_bool ?v)) i) (\<lambda>di.
          bind_r (msb_get_bit src si) (msb_put_bit dst di))) dst =
        Inr (msb_bytes (reordered 14 (swap_m (ti_hr_map T ?v)) 112 (msb_bits (take 33 src))) @ drop 14 dst)"
  proof (rule mm.reorder_frame [OF good_map_swap [OF good_ti_hr_map [OF T]] src])
    fix k assume "k < 8 * 14" "\<forall>i<112. \<forall>si. swap_m (ti_hr_map T ?v) i \<noteq> Some (k, si)"
    then show "\<not> msb_bits dst ! k"
      using perm_full_clear [OF perm, of _ k] by (auto simp: ti_hr_map_def)
  qed (use dst is_perm_length [OF perm] in
        \<open>simp_all add: ti_hr_map_def swap_m_def ti_pos_def mem_simps Let_def\<close>)
  moreover have "?v \<longleftrightarrow> msb_bits src ! 94 \<or> msb_bits src ! 93"
    by (simp add: ti_hr_voiced_def msb_bits_take)
  ultimately show ?thesis using src dst
    by (cases "msb_bits src ! 94"; cases "msb_bits src ! 93")
       (simp_all add: ti_hr_to_canon_def mem_simps msb_get_in bit_mapping_def)
qed

section \<open>The formats lose nothing\<close>

definition ti_fr_enc :: "bit_tables \<Rightarrow> buf \<Rightarrow> buf" where
  "ti_fr_enc T c = msb_bytes (reordered 33 (ti_fr_map T) 260 (msb_bits c))"

definition ti_fr_dec :: "bit_tables \<Rightarrow> buf \<Rightarrow> buf" where
  "ti_fr_dec T fr = msb_bytes (reordered 33 (swap_m (ti_fr_map T)) 260 (msb_bits fr))"

definition ti_hr_enc :: "bit_tables \<Rightarrow> buf \<Rightarrow> buf" where
  "ti_hr_enc T c = msb_bytes (reordered 33 (ti_hr_map T (hr_voiced c)) 112 (msb_bits c))"

definition ti_hr_dec :: "bit_tables \<Rightarrow> buf \<Rightarrow> buf" where
  "ti_hr_dec T fr = msb_bytes (reordered 14 (swap_m (ti_hr_map T (ti_hr_voiced fr))) 112 (msb_bits fr))"

lemma ti_fr_lossless:
  assumes T: "good_tables T"
  shows "lossless_format (ti_fr_from_canon T) (ti_fr_enc T) (ti_fr_to_canon T) (ti_fr_dec T)
           33 33 (\<lambda>_. True) (padded 260 33)"
proof unfold_locales
  fix c assume c: "padded 260 33 c"
  show "ti_fr_dec T (ti_fr_enc T c) = c"
    using table_roundtrip [OF gsm610_perm [OF T] _ c, of "ti_pos 182" 33]
    by (simp add: ti_fr_dec_def ti_fr_enc_def ti_fr_map_def [abs_def] swap_m_def [abs_def] ti_pos_inj)
       (simp add: ti_pos_def)
next
  fix fr :: buf
  show "padded 260 33 (ti_fr_dec T fr)"
    using table_padded [OF gsm610_perm [OF T]]
    by (simp add: ti_fr_dec_def ti_fr_map_def [abs_def] swap_m_def [abs_def])
qed (simp_all add: ti_fr_from_canon_eq ti_fr_to_canon_eq T ti_fr_enc_def ti_fr_dec_def padded_def)

lemma ti_hr_voiced_enc:
  assumes T: "good_tables T" and c: "length c = 14"
  shows "ti_hr_voiced (ti_hr_enc T c) = hr_voiced c"
proof -
  let ?t = "bit_mapping T (of_bool (hr_voiced c))"
  have "msb_bits (ti_hr_enc T c) ! i = msb_bits c ! (?t ! i)" if "i < 95" for i
    using that reordered_bit [OF good_map_inj [OF good_ti_hr_map [OF T, of "hr_voiced c"]], of i i]
    by (simp add: ti_hr_enc_def ti_hr_map_def ti_pos_def)
  then show ?thesis
    using bit_mapping_mode [OF T, of "of_bool (hr_voiced c)"]
    by (auto simp: ti_hr_voiced_def mode_bits_def) (auto simp: hr_voiced_def)
qed

lemma hr_voiced_ti_dec:
  assumes T: "good_tables T" and fr: "length fr = 33"
  shows "hr_voiced (ti_hr_dec T fr) = ti_hr_voiced fr"
proof -
  let ?t = "bit_mapping T (of_bool (ti_hr_voiced fr))"
  have "msb_bits (ti_hr_dec T fr) ! (?t ! i) = msb_bits fr ! i" if "i < 95" for i
    using that is_perm_less [OF bit_mapping_perm [OF T], of i "of_bool (ti_hr_voiced fr)"]
      reordered_bit [OF good_map_inj [OF good_map_swap [OF good_ti_hr_map [OF T, of "ti_hr_voiced fr"]]],
        of i "?t ! i" i 14]
    by (simp add: ti_hr_dec_def ti_hr_map_def ti_pos_def)
  from this [of 93] this [of 94] show ?thesis
    using bit_mapping_mode [OF T, of "of_bool (ti_hr_voiced fr)"]
    by (auto simp: hr_voiced_def mode_bits_def) (auto simp: ti_hr_voiced_def)
qed

lemma ti_hr_lossless:
  assumes T: "good_tables T"
  shows "lossless_format (ti_hr_from_canon T) (ti_hr_enc T) (ti_hr_to_canon T) (ti_hr_dec T)
           14 33 (\<lambda>_. True) (\<lambda>c. length c = 14)"
proof unfold_locales
  fix c :: buf assume c: "length c = 14"
  then have p: "padded 112 14 c" using padded_full [of 14 c] by simp
  have "ti_hr_dec T (ti_hr_enc T c) =
      msb_bytes (reordered 14 (swap_m (ti_hr_map T (hr_voiced c))) 112 (msb_bits (ti_hr_enc T c)))"
    by (simp add: ti_hr_dec_def ti_hr_voiced_enc [OF T c])
  also have "\<dots> = c"
  proof -
    have "reordered 14 (\<lambda>i. Some (bit_mapping T (of_bool (hr_voiced c)) ! i, ti_pos 95 i)) 112
        (reordered 33 (\<lambda>i. Some (ti_pos 95 i, bit_mapping T (of_bool (hr_voiced c)) ! i)) 112
          (msb_bits c)) = msb_bits c"
      by (rule table_roundtrip [OF bit_mapping_perm [OF T] _ p])
         (simp_all add: ti_pos_inj, simp add: ti_pos_def)
    then show ?thesis
      unfolding ti_hr_enc_def ti_hr_map_def [abs_def] swap_m_def [abs_def] by simp
  qed
  finally show "ti_hr_dec T (ti_hr_enc T c) = c" .
qed (simp_all add: ti_hr_from_canon_eq ti_hr_to_canon_eq T ti_hr_enc_def ti_hr_dec_def)


section \<open>EFR: which bits survive\<close>

definition ti_efr_enc :: "bit_tables \<Rightarrow> buf \<Rightarrow> buf" where
  "ti_efr_enc T c = msb_bytes (reordered 33 (ti_efr_map T) 244 (msb_bits c))"

definition ti_efr_dec :: "bit_tables \<Rightarrow> buf \<Rightarrow> buf" where
  "ti_efr_dec T fr = msb_bytes (reordered 31 (swap_m (ti_efr_map T)) 244 (msb_bits fr))"

text \<open>The canonical bits that the first 244 entries of the table reach.\<close>

definition ti_efr_covered :: "bit_tables \<Rightarrow> nat list" where
  "ti_efr_covered T = List.map_filter efr_index (take 244 (gsm660_bitorder T))"

lemma set_ti_efr_covered:
  assumes "good_tables T"
  shows "k \<in> set (ti_efr_covered T) \<longleftrightarrow> (\<exists>i<244. \<exists>d. ti_efr_map T i = Some (d, k))"
proof -
  have "t \<in> set (take 244 (gsm660_bitorder T)) \<longleftrightarrow> (\<exists>i<244. t = gsm660_bitorder T ! i)" for t
    using is_perm_length [OF gsm660_perm [OF assms]] by (auto simp: in_set_conv_nth)
  then show ?thesis
    by (fastforce simp: ti_efr_covered_def List.map_filter_def ti_efr_map_def image_iff)
qed

lemma ti_efr_dec_enc_bit:
  assumes T: "good_tables T" and k: "k < 248"
  shows "msb_bits (ti_efr_dec T (ti_efr_enc T c)) ! k \<longleftrightarrow>
           k \<in> set (ti_efr_covered T) \<and> msb_bits c ! k"
proof (cases "\<exists>i<244. \<exists>d. ti_efr_map T i = Some (d, k)")
  case True
  then obtain i d where i: "i < 244" "ti_efr_map T i = Some (d, k)" by blast
  note g = good_ti_efr_map [OF T]
  have d: "d < 8 * 33" using good_map_range [OF g i] by simp
  have "msb_bits (ti_efr_dec T (ti_efr_enc T c)) ! k = msb_bits (ti_efr_enc T c) ! d"
    unfolding ti_efr_dec_def using i k good_map_inj [OF good_map_swap [OF g]]
    by (simp add: reordered_bit [of _ _ i])
  also have "\<dots> = msb_bits c ! k"
    unfolding ti_efr_enc_def using i d good_map_inj [OF g] by (simp add: reordered_bit [of _ _ i])
  finally show ?thesis using True by (simp add: set_ti_efr_covered [OF T])
next
  case False
  then have "\<not> msb_bits (ti_efr_dec T (ti_efr_enc T c)) ! k"
    using k by (simp add: ti_efr_dec_def reordered_gap)
  with False show ?thesis by (simp add: set_ti_efr_covered [OF T])
qed

lemma padded_ti_efr_dec:
  fixes fr :: buf
  assumes T: "good_tables T"
  shows "padded 244 31 (ti_efr_dec T fr)"
proof (rule paddedI)
  fix k :: nat assume k: "244 \<le> k" "k < 8 * 31"
  have "swap_m (ti_efr_map T) i \<noteq> Some (k, s)" for i s
    using k efr_index_less [of _ k] by (auto simp: ti_efr_map_def)
  then show "\<not> msb_bits (ti_efr_dec T fr) ! k"
    using k by (simp add: ti_efr_dec_def reordered_gap)
qed (simp add: ti_efr_dec_def)

text \<open>
  The format is lossless exactly when the sixteen table entries that the loops never reach
  are the sixteen they would skip.
\<close>

lemma ti_efr_lossless_iff:
  assumes T: "good_tables T"
  shows "(\<forall>c. padded 244 31 c \<longrightarrow> ti_efr_dec T (ti_efr_enc T c) = c) \<longleftrightarrow>
         (\<forall>t \<in> set (drop 244 (gsm660_bitorder T)). efr_index t = None)"
proof
  note p = gsm660_perm [OF T]
  assume lossless: "\<forall>c. padded 244 31 c \<longrightarrow> ti_efr_dec T (ti_efr_enc T c) = c"
  show "\<forall>t \<in> set (drop 244 (gsm660_bitorder T)). efr_index t = None"
  proof (rule ccontr)
    assume "\<not> ?thesis"
    then obtain t k where t: "t \<in> set (drop 244 (gsm660_bitorder T))" "efr_index t = Some k" by auto
    have k: "k < 244" by (rule efr_index_less [OF t(2)])
    define c where "c = msb_bytes (place 248 [(k, True)])"
    have bits: "msb_bits c = place 248 [(k, True)]" by (simp add: c_def)
    have "padded 244 31 c"
      by (rule paddedI) (use k in \<open>auto simp: bits nth_place\<close>, simp add: c_def)
    then have "ti_efr_dec T (ti_efr_enc T c) = c" using lossless by blast
    then have "msb_bits (ti_efr_dec T (ti_efr_enc T c)) ! k" using k by (simp add: bits nth_place)
    then have "k \<in> set (ti_efr_covered T)" using k by (simp add: ti_efr_dec_enc_bit [OF T])
    then obtain s where s: "s \<in> set (take 244 (gsm660_bitorder T))" "efr_index s = Some k"
      by (auto simp: ti_efr_covered_def List.map_filter_def)
    then have "s = t" using t efr_index_inj by blast
    moreover have "set (take 244 (gsm660_bitorder T)) \<inter> set (drop 244 (gsm660_bitorder T)) = {}"
      using p by (simp add: is_perm_def set_take_disj_set_drop_if_distinct)
    ultimately show False using s t by blast
  qed
next
  note p = gsm660_perm [OF T]
  assume skipped: "\<forall>t \<in> set (drop 244 (gsm660_bitorder T)). efr_index t = None"
  show "\<forall>c. padded 244 31 c \<longrightarrow> ti_efr_dec T (ti_efr_enc T c) = c"
  proof (intro allI impI)
    fix c assume c: "padded 244 31 c"
    show "ti_efr_dec T (ti_efr_enc T c) = c"
    proof (rule msb.bits_inject, rule list_eqI)
      fix k assume "k < length (msb_bits c)"
      then have k: "k < 248" using c by (simp add: padded_def)
      have "k \<in> set (ti_efr_covered T)" if k': "k < 244"
      proof -
        obtain t where t: "t < 260" "efr_index t = Some k" using efr_index_surj [OF k'] by blast
        obtain i where i: "i < 260" "gsm660_bitorder T ! i = t" using is_perm_surj [OF p t(1)] by blast
        have "i < 244"
        proof (rule ccontr)
          assume "\<not> i < 244"
          then have "t \<in> set (drop 244 (gsm660_bitorder T))"
            using i is_perm_length [OF p] by (auto simp: set_conv_nth intro!: exI [of _ "i - 244"])
          with skipped t show False by simp
        qed
        with i t show ?thesis by (auto simp: set_ti_efr_covered [OF T] ti_efr_map_def)
      qed
      then show "msb_bits (ti_efr_dec T (ti_efr_enc T c)) ! k = msb_bits c ! k"
        using k padded_bit [OF c, of k] by (cases "k < 244") (simp_all add: ti_efr_dec_enc_bit [OF T])
    qed (use c padded_ti_efr_dec [OF T] in \<open>simp add: padded_def\<close>)
  qed
qed

end
