(* ===== verification/Fmt_Racal.thy ===== *)
theory Fmt_Racal
  imports Bit_Tables
begin

unbundle bit_operations_syntax

text \<open>
  The Racal 6103E recordings (\<^verbatim>\<open>src/fmt_racal.c\<close>): the canonical bits in the order of
  importance, least significant bit of each byte first. All three formats are lossless.
\<close>

definition RACAL_HR_LEN :: nat where [simp, code_unfold]: "RACAL_HR_LEN = 14"

definition RACAL_FR_LEN :: nat where [simp, code_unfold]: "RACAL_FR_LEN = 33"

definition RACAL_EFR_LEN :: nat where [simp, code_unfold]: "RACAL_EFR_LEN = 31"

definition racal_hr_from_canon :: "bit_tables \<Rightarrow> conv" where
  "racal_hr_from_canon T dst src src_len =
     bind_r (assert_c (src_len = HR_CANON_LEN)) (\<lambda>_.
     bind_r (msb_get_bit src 34) (\<lambda>v1. bind_r (msb_get_bit src 35) (\<lambda>v0.
     let voiced = push_bit 1 v1 OR v0 in
     bind_r (for_loop [0..<112] (\<lambda>i dst.
               bind_r (rd (bit_mapping T voiced) i) (\<lambda>si.
               bind_r (msb_get_bit src si) (lsb_put_bit dst i))) dst) (\<lambda>dst.
     Inr (dst, int RACAL_HR_LEN)))))"

definition racal_hr_to_canon :: "bit_tables \<Rightarrow> conv" where
  "racal_hr_to_canon T dst src src_len =
     bind_r (assert_c (src_len = HR_CANON_LEN)) (\<lambda>_.
     bind_r (lsb_get_bit src 94) (\<lambda>v1. bind_r (lsb_get_bit src 93) (\<lambda>v0.
     let voiced = push_bit 1 v1 OR v0 in
     bind_r (for_loop [0..<112] (\<lambda>i dst.
               bind_r (rd (bit_mapping T voiced) i) (\<lambda>di.
               bind_r (lsb_get_bit src i) (msb_put_bit dst di))) dst) (\<lambda>dst.
     Inr (dst, int RACAL_HR_LEN)))))"

definition racal_fr_from_canon :: "bit_tables \<Rightarrow> conv" where
  "racal_fr_from_canon T dst src src_len =
     bind_r (assert_c (src_len = FR_CANON_LEN)) (\<lambda>_.
     bind_r (wr dst 32 0) (\<lambda>dst.
     bind_r (for_loop [0..<260] (\<lambda>i dst.
               bind_r (rd (gsm610_bitorder T) i) (\<lambda>si.
               bind_r (msb_get_bit src si) (lsb_put_bit dst i))) dst) (\<lambda>dst.
     Inr (dst, int RACAL_FR_LEN))))"

definition racal_fr_to_canon :: "bit_tables \<Rightarrow> conv" where
  "racal_fr_to_canon T dst src src_len =
     bind_r (assert_c (src_len = RACAL_FR_LEN)) (\<lambda>_.
     bind_r (wr dst 32 0) (\<lambda>dst.
     bind_r (for_loop [0..<260] (\<lambda>i dst.
               bind_r (rd (gsm610_bitorder T) i) (\<lambda>di.
               bind_r (lsb_get_bit src i) (msb_put_bit dst di))) dst) (\<lambda>dst.
     Inr (dst, int FR_CANON_LEN))))"

definition racal_efr_from_canon :: conv where
  "racal_efr_from_canon dst src src_len =
     bind_r (assert_c (src_len = EFR_CANON_LEN)) (\<lambda>_.
     bind_r (wr dst 30 0) (\<lambda>dst.
     bind_r (for_loop [0..<244] (\<lambda>i dst.
               bind_r (msb_get_bit src i) (lsb_put_bit dst i)) dst) (\<lambda>dst.
     Inr (dst, int RACAL_EFR_LEN))))"

definition racal_efr_to_canon :: conv where
  "racal_efr_to_canon dst src src_len =
     bind_r (assert_c (src_len = RACAL_EFR_LEN)) (\<lambda>_.
     bind_r (wr dst 30 0) (\<lambda>dst.
     bind_r (for_loop [0..<244] (\<lambda>i dst.
               bind_r (lsb_get_bit src i) (msb_put_bit dst i)) dst) (\<lambda>dst.
     Inr (dst, int EFR_CANON_LEN))))"

definition racal_fr_map :: "bit_tables \<Rightarrow> nat \<Rightarrow> (nat \<times> nat) option" where
  "racal_fr_map T i = Some (i, gsm610_bitorder T ! i)"

definition same_map :: "nat \<Rightarrow> (nat \<times> nat) option" where
  "same_map i = Some (i, i)"

definition racal_hr_map :: "bit_tables \<Rightarrow> bool \<Rightarrow> nat \<Rightarrow> (nat \<times> nat) option" where
  "racal_hr_map T v i = Some (i, bit_mapping T (of_bool v) ! i)"

lemma good_racal_fr_map: "good_tables T \<Longrightarrow> good_map 33 33 260 (racal_fr_map T)"
  unfolding racal_fr_map_def by (rule good_map_table [OF gsm610_perm]) auto

lemma good_same_map: "good_map 31 31 244 same_map"
  unfolding same_map_def by (rule good_map_total) auto

lemma good_racal_hr_map: "good_tables T \<Longrightarrow> good_map 14 14 112 (racal_hr_map T v)"
  unfolding racal_hr_map_def by (rule good_map_table [OF bit_mapping_perm]) auto

lemma racal_fr_from_canon_eq:
  assumes T: "good_tables T" and src: "33 \<le> length src" and dst: "33 \<le> length dst"
  shows "racal_fr_from_canon T dst src 33 =
     Inr (lsb_bytes (reordered 33 (racal_fr_map T) 260 (msb_bits (take 33 src))) @ drop 33 dst, 33)"
proof -
  have "for_loop [0..<260] (\<lambda>i dst. bind_r (rd (gsm610_bitorder T) i) (\<lambda>si.
           bind_r (msb_get_bit src si) (lsb_put_bit dst i))) (dst[32 := 0]) =
        Inr (lsb_bytes (reordered 33 (racal_fr_map T) 260 (msb_bits (take 33 src))) @
             drop 33 (dst[32 := 0]))"
  proof (rule ml.reorder_frame [OF good_racal_fr_map [OF T] src])
    fix k assume k: "k < 8 * 33" "\<forall>i<260. \<forall>si. racal_fr_map T i \<noteq> Some (k, si)"
    then have "260 \<le> k" using not_less by (auto simp: racal_fr_map_def)
    then have "k div 8 = 32" using k(1) by auto
    with k dst show "\<not> lsb_bits (dst[32 := 0]) ! k"
      by (intro zero_byte_bit [THEN conjunct2]) auto
  qed (use dst is_perm_length [OF gsm610_perm [OF T]] in
        \<open>simp_all add: racal_fr_map_def mem_simps\<close>)
  with dst show ?thesis by (simp add: racal_fr_from_canon_def mem_simps)
qed

lemma racal_fr_to_canon_eq:
  assumes T: "good_tables T" and src: "33 \<le> length src" and dst: "33 \<le> length dst"
  shows "racal_fr_to_canon T dst src 33 =
     Inr (msb_bytes (reordered 33 (swap_m (racal_fr_map T)) 260 (lsb_bits (take 33 src))) @ drop 33 dst, 33)"
proof -
  have "for_loop [0..<260] (\<lambda>i dst. bind_r (rd (gsm610_bitorder T) i) (\<lambda>di.
           bind_r (lsb_get_bit src i) (msb_put_bit dst di))) (dst[32 := 0]) =
        Inr (msb_bytes (reordered 33 (swap_m (racal_fr_map T)) 260 (lsb_bits (take 33 src))) @
             drop 33 (dst[32 := 0]))"
  proof (rule lm.reorder_frame [OF good_map_swap [OF good_racal_fr_map [OF T]] src])
    fix k assume k: "k < 8 * 33" "\<forall>i<260. \<forall>si. swap_m (racal_fr_map T) i \<noteq> Some (k, si)"
    then show "\<not> msb_bits (dst[32 := 0]) ! k"
      using dst by (intro tail_clear [OF gsm610_perm [OF T]]) (auto simp: racal_fr_map_def)
  qed (use dst is_perm_length [OF gsm610_perm [OF T]] in
        \<open>simp_all add: racal_fr_map_def swap_m_def mem_simps\<close>)
  with dst show ?thesis by (simp add: racal_fr_to_canon_def mem_simps)
qed

lemma racal_efr_from_canon_eq:
  assumes src: "31 \<le> length src" and dst: "31 \<le> length dst"
  shows "racal_efr_from_canon dst src 31 =
     Inr (lsb_bytes (reordered 31 same_map 244 (msb_bits (take 31 src))) @ drop 31 dst, 31)"
proof -
  have "for_loop [0..<244] (\<lambda>i dst. bind_r (msb_get_bit src i) (lsb_put_bit dst i)) (dst[30 := 0]) =
        Inr (lsb_bytes (reordered 31 same_map 244 (msb_bits (take 31 src))) @ drop 31 (dst[30 := 0]))"
  proof (rule ml.reorder_frame [OF good_same_map src])
    fix k assume k: "k < 8 * 31" "\<forall>i<244. \<forall>si. same_map i \<noteq> Some (k, si)"
    then have "244 \<le> k" using not_less by (auto simp: same_map_def)
    then have "k div 8 = 30" using k(1) by auto
    with k dst show "\<not> lsb_bits (dst[30 := 0]) ! k"
      by (intro zero_byte_bit [THEN conjunct2]) auto
  qed (use dst in \<open>simp_all add: same_map_def mem_simps\<close>)
  with dst show ?thesis by (simp add: racal_efr_from_canon_def mem_simps)
qed

lemma racal_efr_to_canon_eq:
  assumes src: "31 \<le> length src" and dst: "31 \<le> length dst"
  shows "racal_efr_to_canon dst src 31 =
     Inr (msb_bytes (reordered 31 (swap_m same_map) 244 (lsb_bits (take 31 src))) @ drop 31 dst, 31)"
proof -
  have "for_loop [0..<244] (\<lambda>i dst. bind_r (lsb_get_bit src i) (msb_put_bit dst i)) (dst[30 := 0]) =
        Inr (msb_bytes (reordered 31 (swap_m same_map) 244 (lsb_bits (take 31 src))) @
             drop 31 (dst[30 := 0]))"
  proof (rule lm.reorder_frame [OF good_map_swap [OF good_same_map] src])
    fix k assume k: "k < 8 * 31" "\<forall>i<244. \<forall>si. swap_m same_map i \<noteq> Some (k, si)"
    then show "\<not> msb_bits (dst[30 := 0]) ! k"
      using dst by (intro tail_clear [OF is_perm_upt [of 244]]) (auto simp: same_map_def)
  qed (use dst in \<open>simp_all add: same_map_def swap_m_def mem_simps\<close>)
  with dst show ?thesis by (simp add: racal_efr_to_canon_def mem_simps)
qed

definition racal_hr_voiced :: "buf \<Rightarrow> bool" where
  "racal_hr_voiced fr \<longleftrightarrow> lsb_bits fr ! 94 \<or> lsb_bits fr ! 93"

lemma racal_hr_from_canon_eq:
  assumes T: "good_tables T" and src: "14 \<le> length src" and dst: "14 \<le> length dst"
  shows "racal_hr_from_canon T dst src 14 =
     Inr (lsb_bytes (reordered 14 (racal_hr_map T (hr_voiced (take 14 src))) 112 (msb_bits (take 14 src)))
          @ drop 14 dst, 14)"
proof -
  let ?v = "hr_voiced (take 14 src)"
  have "for_loop [0..<112] (\<lambda>i dst. bind_r (rd (bit_mapping T (of_bool ?v)) i) (\<lambda>si.
          bind_r (msb_get_bit src si) (lsb_put_bit dst i))) dst =
        Inr (lsb_bytes (reordered 14 (racal_hr_map T ?v) 112 (msb_bits (take 14 src))) @ drop 14 dst)"
    by (rule ml.reorder_frame [OF good_racal_hr_map [OF T] src])
       (use dst is_perm_length [OF bit_mapping_perm [OF T]] in
        \<open>auto simp: racal_hr_map_def mem_simps\<close>)
  moreover have "?v \<longleftrightarrow> msb_bits src ! 34 \<or> msb_bits src ! 35"
    by (simp add: hr_voiced_def msb_bits_take)
  ultimately show ?thesis using src dst
    by (cases "msb_bits src ! 34"; cases "msb_bits src ! 35")
       (simp_all add: racal_hr_from_canon_def mem_simps msb_get_in bit_mapping_def)
qed

lemma racal_hr_to_canon_eq:
  assumes T: "good_tables T" and src: "14 \<le> length src" and dst: "14 \<le> length dst"
  shows "racal_hr_to_canon T dst src 14 =
     Inr (msb_bytes (reordered 14 (swap_m (racal_hr_map T (racal_hr_voiced (take 14 src)))) 112
            (lsb_bits (take 14 src))) @ drop 14 dst, 14)"
proof -
  let ?v = "racal_hr_voiced (take 14 src)"
  note perm = bit_mapping_perm [OF T, of "of_bool ?v"]
  have "for_loop [0..<112] (\<lambda>i dst. bind_r (rd (bit_mapping T (of_bool ?v)) i) (\<lambda>di.
          bind_r (lsb_get_bit src i) (msb_put_bit dst di))) dst =
        Inr (msb_bytes (reordered 14 (swap_m (racal_hr_map T ?v)) 112 (lsb_bits (take 14 src))) @ drop 14 dst)"
  proof (rule lm.reorder_frame [OF good_map_swap [OF good_racal_hr_map [OF T]] src])
    fix k assume "k < 8 * 14" "\<forall>i<112. \<forall>si. swap_m (racal_hr_map T ?v) i \<noteq> Some (k, si)"
    then show "\<not> msb_bits dst ! k"
      using perm_full_clear [OF perm, of _ k] by (auto simp: racal_hr_map_def)
  qed (use dst is_perm_length [OF perm] in
        \<open>simp_all add: racal_hr_map_def swap_m_def mem_simps\<close>)
  moreover have "?v \<longleftrightarrow> lsb_bits src ! 94 \<or> lsb_bits src ! 93"
    by (simp add: racal_hr_voiced_def lsb_bits_take)
  ultimately show ?thesis using src dst
    by (cases "lsb_bits src ! 94"; cases "lsb_bits src ! 93")
       (simp_all add: racal_hr_to_canon_def mem_simps lsb_get_in bit_mapping_def)
qed

section \<open>The formats lose nothing\<close>

definition racal_fr_enc :: "bit_tables \<Rightarrow> buf \<Rightarrow> buf" where
  "racal_fr_enc T c = lsb_bytes (reordered 33 (racal_fr_map T) 260 (msb_bits c))"

definition racal_fr_dec :: "bit_tables \<Rightarrow> buf \<Rightarrow> buf" where
  "racal_fr_dec T fr = msb_bytes (reordered 33 (swap_m (racal_fr_map T)) 260 (lsb_bits fr))"

definition racal_efr_enc :: "buf \<Rightarrow> buf" where
  "racal_efr_enc c = lsb_bytes (reordered 31 same_map 244 (msb_bits c))"

definition racal_efr_dec :: "buf \<Rightarrow> buf" where
  "racal_efr_dec fr = msb_bytes (reordered 31 (swap_m same_map) 244 (lsb_bits fr))"

definition racal_hr_enc :: "bit_tables \<Rightarrow> buf \<Rightarrow> buf" where
  "racal_hr_enc T c = lsb_bytes (reordered 14 (racal_hr_map T (hr_voiced c)) 112 (msb_bits c))"

definition racal_hr_dec :: "bit_tables \<Rightarrow> buf \<Rightarrow> buf" where
  "racal_hr_dec T fr =
     msb_bytes (reordered 14 (swap_m (racal_hr_map T (racal_hr_voiced fr))) 112 (lsb_bits fr))"

lemma racal_fr_lossless:
  assumes T: "good_tables T"
  shows "lossless_format (racal_fr_from_canon T) (racal_fr_enc T) (racal_fr_to_canon T) (racal_fr_dec T)
           33 33 (\<lambda>_. True) (padded 260 33)"
proof unfold_locales
  fix c assume c: "padded 260 33 c"
  show "racal_fr_dec T (racal_fr_enc T c) = c"
    using table_roundtrip [OF gsm610_perm [OF T] _ c, of "\<lambda>i. i" 33]
    by (simp add: racal_fr_dec_def racal_fr_enc_def racal_fr_map_def [abs_def] swap_m_def [abs_def])
next
  fix fr :: buf
  show "padded 260 33 (racal_fr_dec T fr)"
    using table_padded [OF gsm610_perm [OF T]]
    by (simp add: racal_fr_dec_def racal_fr_map_def [abs_def] swap_m_def [abs_def])
qed (simp_all add: racal_fr_from_canon_eq racal_fr_to_canon_eq T racal_fr_enc_def racal_fr_dec_def
      padded_def)

lemma same_map_table: "same_map i = Some (i, [0..<244] ! i)" if "i < 244"
  using that by (simp add: same_map_def)

lemma reordered_map_cong:
  "(\<And>i. i < n \<Longrightarrow> m i = m' i) \<Longrightarrow> reordered l m n xs = reordered l m' n xs"
  unfolding reordered_def moves_def
  by (intro arg_cong [where f = "place (8 * l)"] arg_cong [where f = concat] map_cong) auto

interpretation racal_efr: lossless_format racal_efr_from_canon racal_efr_enc
    racal_efr_to_canon racal_efr_dec 31 31 "\<lambda>_. True" "padded 244 31"
proof unfold_locales
  let ?t = "[0..<244::nat]"
  have m: "reordered 31 same_map 244 xs = reordered 31 (\<lambda>i. Some (i, ?t ! i)) 244 xs"
    "reordered 31 (swap_m same_map) 244 xs = reordered 31 (\<lambda>i. Some (?t ! i, i)) 244 xs" for xs
    by (auto intro!: reordered_map_cong simp: swap_m_def same_map_def)
  show "racal_efr_dec (racal_efr_enc c) = c" if "padded 244 31 c" for c
    using table_roundtrip [OF is_perm_upt [of 244] _ that, of "\<lambda>i. i" 31]
    by (simp add: racal_efr_dec_def racal_efr_enc_def m)
  show "padded 244 31 (racal_efr_dec fr)" for fr
    using table_padded [OF is_perm_upt [of 244]] by (simp add: racal_efr_dec_def m)
qed (simp_all add: racal_efr_from_canon_eq racal_efr_to_canon_eq racal_efr_enc_def racal_efr_dec_def
      padded_def)

lemma racal_hr_voiced_enc:
  assumes T: "good_tables T" and c: "length c = 14"
  shows "racal_hr_voiced (racal_hr_enc T c) = hr_voiced c"
proof -
  let ?t = "bit_mapping T (of_bool (hr_voiced c))"
  have "lsb_bits (racal_hr_enc T c) ! i = msb_bits c ! (?t ! i)" if "i < 112" for i
    using that reordered_bit [OF good_map_inj [OF good_racal_hr_map [OF T, of "hr_voiced c"]], of i i]
    by (simp add: racal_hr_enc_def racal_hr_map_def)
  then show ?thesis
    using bit_mapping_mode [OF T, of "of_bool (hr_voiced c)"]
    by (auto simp: racal_hr_voiced_def mode_bits_def) (auto simp: hr_voiced_def)
qed

lemma racal_hr_lossless:
  assumes T: "good_tables T"
  shows "lossless_format (racal_hr_from_canon T) (racal_hr_enc T) (racal_hr_to_canon T) (racal_hr_dec T)
           14 14 (\<lambda>_. True) (\<lambda>c. length c = 14)"
proof unfold_locales
  fix c :: buf assume c: "length c = 14"
  then have p: "padded 112 14 c" using padded_full [of 14 c] by simp
  have "racal_hr_dec T (racal_hr_enc T c) =
      msb_bytes (reordered 14 (swap_m (racal_hr_map T (hr_voiced c))) 112 (lsb_bits (racal_hr_enc T c)))"
    by (simp add: racal_hr_dec_def racal_hr_voiced_enc [OF T c])
  also have "\<dots> = c"
    using table_roundtrip [OF bit_mapping_perm [OF T] _ p, of "\<lambda>i. i" 14 "of_bool (hr_voiced c)"]
    by (simp add: racal_hr_enc_def racal_hr_map_def [abs_def] swap_m_def [abs_def])
  finally show "racal_hr_dec T (racal_hr_enc T c) = c" .
qed (simp_all add: racal_hr_from_canon_eq racal_hr_to_canon_eq T racal_hr_enc_def racal_hr_dec_def)

end
