(* ===== verification/Fmt_Amr.thy ===== *)
theory Fmt_Amr
  imports Bit_Tables
begin

unbundle bit_operations_syntax

text \<open>
  EFR frames in .amr files (\<^verbatim>\<open>src/fmt_amr.c\<close>): a header byte, then the 244 bits of the frame
  in the order of the AMR 12.2 table.
\<close>

definition AMR_EFR_LEN :: nat where [simp, code_unfold]: "AMR_EFR_LEN = 32"

definition amr_efr_from_canon :: "bit_tables \<Rightarrow> conv" where
  "amr_efr_from_canon T dst src src_len =
     bind_r (assert_c (src_len = EFR_CANON_LEN)) (\<lambda>_.
     bind_r (wr dst 0 0x3c) (\<lambda>dst.
     bind_r (wr dst 31 0) (\<lambda>dst.
     bind_r (for_loop [0..<244] (\<lambda>i dst.
               bind_r (rd (gsm690_12_2_bitorder T) i) (\<lambda>si.
               bind_r (msb_get_bit src si) (msb_put_bit dst (8 + i)))) dst) (\<lambda>dst.
     Inr (dst, int AMR_EFR_LEN)))))"

definition amr_efr_to_canon :: "bit_tables \<Rightarrow> conv" where
  "amr_efr_to_canon T dst src src_len =
     bind_r (assert_c (src_len = AMR_EFR_LEN)) (\<lambda>_.
     bind_r (rd src 0) (\<lambda>b0.
     if b0 \<noteq> 0x3c then Inr (dst, -1)
     else
       bind_r (wr dst 30 0) (\<lambda>dst.
       bind_r (for_loop [0..<244] (\<lambda>i dst.
                 bind_r (rd (gsm690_12_2_bitorder T) i) (\<lambda>di.
                 bind_r (msb_get_bit src (8 + i)) (msb_put_bit dst di))) dst) (\<lambda>dst.
       Inr (dst, int EFR_CANON_LEN)))))"

definition amr_efr_map :: "bit_tables \<Rightarrow> nat \<Rightarrow> (nat \<times> nat) option" where
  "amr_efr_map T i = Some (i, gsm690_12_2_bitorder T ! i)"

lemma good_amr_efr_map: "good_tables T \<Longrightarrow> good_map 31 31 244 (amr_efr_map T)"
  unfolding amr_efr_map_def by (rule good_map_table [OF gsm690_perm]) auto

section \<open>Behind the header byte\<close>

definition amr_efr_enc :: "bit_tables \<Rightarrow> buf \<Rightarrow> buf" where
  "amr_efr_enc T c = 0x3c # msb_bytes (reordered 31 (amr_efr_map T) 244 (msb_bits c))"

definition amr_efr_dec :: "bit_tables \<Rightarrow> buf \<Rightarrow> buf" where
  "amr_efr_dec T fr = msb_bytes (reordered 31 (swap_m (amr_efr_map T)) 244 (msb_bits (drop 1 fr)))"

definition amr_efr_frame :: "buf \<Rightarrow> bool" where
  "amr_efr_frame fr \<longleftrightarrow> fr ! 0 = 0x3c"

lemma amr_efr_enc_append:
  "amr_efr_enc T c = [0x3c] @ msb_bytes (reordered 31 (amr_efr_map T) 244 (msb_bits c))"
  by (simp add: amr_efr_enc_def)

lemma scatter_shift:
  "scatter (as @ xs) (map (\<lambda>(k, b). (length as + k, b)) ps) = as @ scatter xs ps"
  by (induction xs ps rule: scatter.induct) (auto simp: list_update_append)

lemma amr_efr_from_canon_eq:
  assumes T: "good_tables T" and src: "31 \<le> length src" and dst: "32 \<le> length dst"
  shows "amr_efr_from_canon T dst src 31 = Inr (amr_efr_enc T (take 31 src) @ drop 32 dst, 32)"
proof -
  let ?t = "gsm690_12_2_bitorder T" and ?dst = "dst[0 := 0x3c, 31 := 0]"
  let ?ps = "map (\<lambda>i. (i, msb_bits src ! (?t ! i))) [0..<244]"
  let ?f = "\<lambda>i dst. bind_r (rd ?t i) (\<lambda>si. bind_r (msb_get_bit src si) (msb_put_bit dst (8 + i)))"
  note t = gsm690_perm [OF T]
  have "\<exists>d'. for_loop [0..<244] ?f ?dst = Inr d' \<and>
      msb_bits d' = scatter (msb_bits ?dst) (moves (\<lambda>i. Some (8 + i, ?t ! i)) (msb_bits src) 244)"
  proof (rule mm.move_loop)
    show "di < 8 * length ?dst \<and> si < 8 * length src"
      if "i < 244" "Some (8 + i, ?t ! i) = Some (di, si)" for i di si
      using that is_perm_less [OF t, of i] src dst by auto
  qed (simp add: mem_simps is_perm_length [OF t])
  then obtain d' where d': "for_loop [0..<244] ?f ?dst = Inr d'"
    "msb_bits d' = scatter (msb_bits ?dst) (moves (\<lambda>i. Some (8 + i, ?t ! i)) (msb_bits src) 244)"
    by blast
  define r where "r = tl dst"
  have r: "?dst = [0x3c] @ r[30 := 0]" "31 \<le> length r" "drop 31 (r[30 := 0]) = drop 32 dst"
    using dst by (cases dst; simp add: r_def)+
  have "msb_bits ?dst = msb_bits [0x3c] @ msb_bits (r[30 := 0])"
    unfolding r(1) by (rule msb.bits_append)
  moreover have "moves (\<lambda>i. Some (8 + i, ?t ! i)) (msb_bits src) 244 =
      map (\<lambda>(k, b). (length (msb_bits [0x3c]) + k, b)) ?ps"
    unfolding moves_total by simp
  ultimately have "msb_bits d' = msb_bits [0x3c] @ scatter (msb_bits (r[30 := 0])) ?ps"
    unfolding d'(2) by (simp only: scatter_shift)
  also have "scatter (msb_bits (r[30 := 0])) ?ps = place (8 * 31) ?ps @ drop (8 * 31) (msb_bits (r[30 := 0]))"
  proof (rule scatter_place)
    fix k assume "k < 8 * 31" "k \<notin> fst ` set ?ps"
    then have "k div 8 = 30" "k < 8 * length r" using r(2) by (force simp: image_iff)+
    then show "\<not> msb_bits (r[30 := 0]) ! k"
      using r(2) by (intro zero_byte_bit [THEN conjunct1]) auto
  qed (use r(2) in \<open>auto simp: comp_def\<close>)
  also have "place (8 * 31) ?ps = reordered 31 (amr_efr_map T) 244 (msb_bits (take 31 src))"
  proof -
    have "?t ! i < 248" if "i < 244" for i using is_perm_less [OF t that] by simp
    then have eq: "map (\<lambda>i. (i, msb_bits (take 31 src) ! (?t ! i))) [0..<244] = ?ps"
      by (simp add: msb_bits_take)
    show ?thesis unfolding reordered_def amr_efr_map_def [abs_def] moves_total by (simp only: eq)
  qed
  also have "drop (8 * 31) (msb_bits (r[30 := 0])) = msb_bits (drop 32 dst)"
    by (simp only: r(3) flip: msb_bits_drop)
  also have "reordered 31 (amr_efr_map T) 244 (msb_bits (take 31 src)) =
      msb_bits (msb_bytes (reordered 31 (amr_efr_map T) 244 (msb_bits (take 31 src))))"
    by simp
  finally have "msb_bits d' = msb_bits (amr_efr_enc T (take 31 src) @ drop 32 dst)"
    by (simp only: amr_efr_enc_append msb.bits_append append_assoc)
  then have "d' = amr_efr_enc T (take 31 src) @ drop 32 dst" by (rule msb.bits_inject)
  moreover have "dst \<noteq> []" using dst by auto
  ultimately show ?thesis using d'(1) dst by (simp add: amr_efr_from_canon_def mem_simps)
qed

lemma amr_efr_to_canon_eq:
  assumes T: "good_tables T" and src: "32 \<le> length src" and dst: "31 \<le> length dst"
    and magic: "amr_efr_frame (take 32 src)"
  shows "amr_efr_to_canon T dst src 32 = Inr (amr_efr_dec T (take 32 src) @ drop 31 dst, 31)"
proof -
  let ?t = "gsm690_12_2_bitorder T" and ?m = "\<lambda>i. Some (gsm690_12_2_bitorder T ! i, 8 + i)"
  note t = gsm690_perm [OF T]
  have g: "good_map 31 32 244 ?m"
  proof (rule good_map_total)
    show "?t ! i < 8 * 31 \<and> 8 + i < 8 * 32" if "i < 244" for i
      using is_perm_less [OF t that] that by simp
  qed (simp_all add: is_perm_inj [OF t])
  have "for_loop [0..<244] (\<lambda>i dst. bind_r (rd ?t i) (\<lambda>di.
          bind_r (msb_get_bit src (8 + i)) (msb_put_bit dst di))) (dst[30 := 0]) =
        Inr (msb_bytes (reordered 31 ?m 244 (msb_bits (take 32 src))) @ drop 31 (dst[30 := 0]))"
  proof (rule mm.reorder_frame [OF g src])
    fix k assume k: "k < 8 * 31" "\<forall>i<244. \<forall>si. ?m i \<noteq> Some (k, si)"
    then show "\<not> msb_bits (dst[30 := 0]) ! k"
      using dst by (intro tail_clear [OF t]) auto
  qed (use dst is_perm_length [OF t] in \<open>simp_all add: mem_simps\<close>)
  also have "reordered 31 ?m 244 (msb_bits (take 32 src)) =
      reordered 31 (swap_m (amr_efr_map T)) 244 (msb_bits (drop 1 (take 32 src)))"
    unfolding reordered_def amr_efr_map_def [abs_def] swap_m_total moves_total
    using src by (simp add: msb_bits_drop)
  finally have "for_loop [0..<244] (\<lambda>i dst. bind_r (rd ?t i) (\<lambda>di.
          bind_r (msb_get_bit src (8 + i)) (msb_put_bit dst di))) (dst[30 := 0]) =
        Inr (amr_efr_dec T (take 32 src) @ drop 31 dst)" by (simp add: amr_efr_dec_def)
  moreover have "src ! 0 = 0x3c" "src \<noteq> []" using magic src by (auto simp: amr_efr_frame_def)
  ultimately show ?thesis using dst by (simp add: amr_efr_to_canon_def mem_simps)
qed

lemma amr_efr_to_canon_bad_magic:
  "32 \<le> length src \<Longrightarrow> src ! 0 \<noteq> 0x3c \<Longrightarrow> amr_efr_to_canon T dst src 32 = Inr (dst, -1)"
proof -
  assume "32 \<le> length src" "src ! 0 \<noteq> 0x3c"
  moreover from this have "src \<noteq> []" by auto
  ultimately show ?thesis by (simp add: amr_efr_to_canon_def mem_simps)
qed

lemma amr_efr_lossless:
  assumes T: "good_tables T"
  shows "lossless_format (amr_efr_from_canon T) (amr_efr_enc T) (amr_efr_to_canon T) (amr_efr_dec T)
           31 32 amr_efr_frame (padded 244 31)"
proof unfold_locales
  fix c assume c: "padded 244 31 c"
  show "amr_efr_dec T (amr_efr_enc T c) = c"
    using table_roundtrip [OF gsm690_perm [OF T] _ c, of "\<lambda>i. i" 31]
    by (simp add: amr_efr_dec_def amr_efr_enc_def amr_efr_map_def [abs_def] swap_m_def [abs_def])
next
  fix fr :: buf
  show "padded 244 31 (amr_efr_dec T fr)"
    using table_padded [OF gsm690_perm [OF T]]
    by (simp add: amr_efr_dec_def amr_efr_map_def [abs_def] swap_m_def [abs_def])
qed (simp_all add: amr_efr_from_canon_eq amr_efr_to_canon_eq T padded_def amr_efr_frame_def,
     simp_all add: amr_efr_enc_def amr_efr_dec_def)

end
