(* ===== verification/Host_Words.thy ===== *)
theory Host_Words
  imports Bits
begin

unbundle bit_operations_syntax

text \<open>
  Arrays of \<^verbatim>\<open>uint16_t\<close> over byte buffers. The code reads and writes them through casts
  (\<^verbatim>\<open>(uint16_t *)dst\<close>), in the byte order of the host, which is a parameter of every
  definition that does so.
\<close>

datatype endian = Little | Big

definition u16_bytes :: "endian \<Rightarrow> u16 \<Rightarrow> buf" where
  "u16_bytes e w =
     (case e of Little \<Rightarrow> [ucast w, ucast (drop_bit 8 w)]
              | Big \<Rightarrow> [ucast (drop_bit 8 w), ucast w])"

definition u16_of :: "endian \<Rightarrow> byte \<Rightarrow> byte \<Rightarrow> u16" where
  "u16_of e x y =
     (case e of Little \<Rightarrow> push_bit 8 (ucast y) OR ucast x
              | Big \<Rightarrow> push_bit 8 (ucast x) OR ucast y)"

definition get_u16 :: "endian \<Rightarrow> buf \<Rightarrow> nat \<Rightarrow> u16 res" where
  "get_u16 e b i = bind_r (rd b (2 * i)) (\<lambda>x. bind_r (rd b (2 * i + 1)) (\<lambda>y. Inr (u16_of e x y)))"

definition put_u16 :: "endian \<Rightarrow> buf \<Rightarrow> nat \<Rightarrow> u16 \<Rightarrow> buf res" where
  "put_u16 e b i w =
     bind_r (wr b (2 * i + 1) (u16_bytes e w ! 1)) (\<lambda>b. wr b (2 * i) (u16_bytes e w ! 0))"

text \<open>The words that a buffer holds.\<close>

definition words_of :: "endian \<Rightarrow> buf \<Rightarrow> u16 list" where
  "words_of e b = map (\<lambda>i. u16_of e (b ! (2 * i)) (b ! (2 * i + 1))) [0..<length b div 2]"

definition bytes_of :: "endian \<Rightarrow> u16 list \<Rightarrow> buf" where
  "bytes_of e ws = concat (map (u16_bytes e) ws)"

lemma length_u16_bytes [simp]: "length (u16_bytes e w) = 2"
  by (simp add: u16_bytes_def split: endian.splits)

lemma length_bytes_of [simp]: "length (bytes_of e ws) = 2 * length ws"
  by (induction ws) (simp_all add: bytes_of_def)

lemma length_words_of [simp]: "length (words_of e b) = length b div 2"
  by (simp add: words_of_def)

lemma u16_of_bytes [simp]: "u16_of e (u16_bytes e w ! 0) (u16_bytes e w ! Suc 0) = w"
  by (cases e; rule bit_word_eqI) (auto simp: u16_of_def u16_bytes_def bit_simps)

lemma u16_bytes_of [simp]: "u16_bytes e (u16_of e x y) = [x, y]"
  by (cases e)
     (auto simp: u16_of_def u16_bytes_def bit_simps intro!: bit_word_eqI)

lemma bytes_of_append: "bytes_of e (ws @ vs) = bytes_of e ws @ bytes_of e vs"
  by (simp add: bytes_of_def)

lemma nth_bytes_of:
  "i < length ws \<Longrightarrow> bytes_of e ws ! (2 * i) = u16_bytes e (ws ! i) ! 0 \<and>
     bytes_of e ws ! (2 * i + 1) = u16_bytes e (ws ! i) ! 1"
proof (induction ws arbitrary: i)
  case (Cons w ws)
  show ?case
  proof (cases i)
    case 0
    then show ?thesis by (simp add: bytes_of_def nth_append)
  next
    case (Suc j)
    with Cons.IH [of j] Cons.prems show ?thesis by (simp add: bytes_of_def nth_append)
  qed
qed simp

lemma words_of_bytes_of [simp]: "words_of e (bytes_of e ws) = ws"
  by (rule list_eqI) (auto simp: words_of_def nth_bytes_of [simplified])

lemma words_of_append: "even (length a) \<Longrightarrow> words_of e (a @ b) = words_of e a @ words_of e b"
proof (rule list_eqI)
  assume a: "even (length a)"
  fix i assume "i < length (words_of e a @ words_of e b)"
  then have i: "i < length a div 2 + length b div 2" by simp
  show "words_of e (a @ b) ! i = (words_of e a @ words_of e b) ! i"
  proof (cases "i < length a div 2")
    case True
    with a show ?thesis by (auto simp: words_of_def nth_append)
  next
    case False
    then obtain j where j: "i = length a div 2 + j" "j < length b div 2"
      using i le_Suc_ex not_less by (metis add_less_cancel_left)
    with a show ?thesis by (auto simp: words_of_def nth_append)
  qed
qed auto

lemma bytes_of_words_of: "even (length b) \<Longrightarrow> bytes_of e (words_of e b) = b"
proof (induction b rule: induct_list012)
  case (3 x y zs)
  have "words_of e ([x, y] @ zs) = words_of e [x, y] @ words_of e zs"
    by (rule words_of_append) simp
  moreover have "words_of e [x, y] = [u16_of e x y]" by (simp add: words_of_def)
  ultimately show ?case using 3 by (simp add: bytes_of_def)
qed (simp_all add: words_of_def bytes_of_def)

lemma get_u16_in: "2 * i + 1 < length b \<Longrightarrow> get_u16 e b i = Inr (words_of e b ! i)"
  by (auto simp: get_u16_def rd_def words_of_def)

lemma words_of_take: "2 * k \<le> n \<Longrightarrow> take k (words_of e (take n b)) = take k (words_of e b)"
  by (rule list_eqI) (auto simp: words_of_def)

lemma put_u16_next:
  assumes "2 * length ws + 1 < length dst"
  shows "put_u16 e (bytes_of e ws @ drop (2 * length ws) dst) (length ws) w =
         Inr (bytes_of e (ws @ [w]) @ drop (2 * length (ws @ [w])) dst)"
proof -
  have "drop (2 * length ws) dst =
      dst ! (2 * length ws) # dst ! (2 * length ws + 1) # drop (2 * length ws + 2) dst"
    using assms by (simp add: Cons_nth_drop_Suc)
  moreover have "u16_bytes e w = [u16_bytes e w ! 0, u16_bytes e w ! 1]"
    by (cases e) (simp_all add: u16_bytes_def)
  ultimately show ?thesis
    using assms
    by (simp add: put_u16_def wr_def list_update_append bytes_of_append) (simp add: bytes_of_def)
qed

end
