(* ===== verification/Fmt_Hr.thy ===== *)
theory Fmt_Hr
  imports Bit_Tables Host_Words
begin

unbundle bit_operations_syntax

text \<open>
  The half-rate formats that keep the order of the bits: \<^verbatim>\<open>src/fmt_hr_ref.c\<close> (the parameter
  words of the 3GPP reference codec), \<^verbatim>\<open>src/fmt_rtp_hr_etsi.c\<close> and \<^verbatim>\<open>src/fmt_rtp_hr_ietf.c\<close>
  (RTP payloads).

  The parameter words are specified by splitting the 112 canonical bits into fields of the
  widths of the parameter list; the loops of the code are proved equal to that.
\<close>

section \<open>\<^verbatim>\<open>src/fmt_hr_ref.c\<close>\<close>

definition params_unvoiced :: "nat list" where
  "params_unvoiced = [5, 11, 9, 8, 1, 2, 7, 7, 5, 7, 7, 5, 7, 7, 5, 7, 7, 5]"

definition params_voiced :: "nat list" where
  "params_voiced = [5, 11, 9, 8, 1, 2, 8, 9, 5, 4, 9, 5, 4, 9, 5, 4, 9, 5]"

definition hr_params :: "bool \<Rightarrow> nat list" where
  "hr_params voiced = (if voiced then params_voiced else params_unvoiced)"

definition hr_ref_from_canon :: "endian \<Rightarrow> buf \<Rightarrow> buf \<Rightarrow> (buf \<times> int) res" where
  "hr_ref_from_canon e hr_ref canon =
     bind_r (msb_get_bit canon 34) (\<lambda>v1. bind_r (msb_get_bit canon 35) (\<lambda>v0.
     let params = hr_params (push_bit 1 v1 OR v0 \<noteq> 0) in
     bind_r (for_loop [0..<18] (\<lambda>i (hr_ref, j).
               bind_r (rd params i) (\<lambda>l.
               bind_r (for_loop [0..<l] (\<lambda>k w.
                         bind_r (msb_get_bit canon (j + k)) (\<lambda>b.
                         Inr (push_bit 1 w OR of_nat b))) (0 :: u16)) (\<lambda>w.
               bind_r (put_u16 e hr_ref i w) (\<lambda>hr_ref.
               Inr (hr_ref, j + l))))) (hr_ref, 0)) (\<lambda>(hr_ref, j).
     Inr (hr_ref, 0))))"

definition hr_ref_to_canon :: "endian \<Rightarrow> buf \<Rightarrow> buf \<Rightarrow> (buf \<times> int) res" where
  "hr_ref_to_canon e canon hr_ref =
     bind_r (get_u16 e hr_ref 5) (\<lambda>voiced.
     let params = hr_params (voiced \<noteq> 0) in
     bind_r (for_loop [0..<18] (\<lambda>i (canon, j).
               bind_r (rd params i) (\<lambda>l.
               bind_r (get_u16 e hr_ref i) (\<lambda>w.
               bind_r (for_loop [0..<l] (\<lambda>k canon.
                         msb_put_bit canon (j + k) (unat (w AND push_bit (l - k - 1) 1))) canon) (\<lambda>canon.
               Inr (canon, j + l))))) (canon, 0)) (\<lambda>(canon, j).
     Inr (canon, 0)))"

definition hr_ref_dec_from_canon :: "endian \<Rightarrow> conv" where
  "hr_ref_dec_from_canon e dst src src_len =
     bind_r (assert_c (src_len = HR_CANON_LEN)) (\<lambda>_.
     bind_r (hr_ref_from_canon e dst src) (\<lambda>(hr_ref, rv).
     if rv \<noteq> 0 then Inr (hr_ref, rv)
     else
       bind_r (put_u16 e hr_ref 18 0) (\<lambda>hr_ref.
       bind_r (put_u16 e hr_ref 19 0) (\<lambda>hr_ref.
       bind_r (put_u16 e hr_ref 20 0) (\<lambda>hr_ref.
       bind_r (put_u16 e hr_ref 21 0) (\<lambda>hr_ref.
       Inr (hr_ref, int HR_REF_DEC_LEN)))))))"

definition hr_ref_dec_to_canon :: "endian \<Rightarrow> conv" where
  "hr_ref_dec_to_canon e dst src src_len =
     bind_r (assert_c (src_len = HR_REF_DEC_LEN)) (\<lambda>_.
     bind_r (hr_ref_to_canon e dst src) (\<lambda>(dst, rv).
     if rv \<noteq> 0 then Inr (dst, rv) else Inr (dst, int HR_CANON_LEN)))"

definition hr_ref_enc_from_canon :: "endian \<Rightarrow> conv" where
  "hr_ref_enc_from_canon e dst src src_len =
     bind_r (assert_c (src_len = HR_CANON_LEN)) (\<lambda>_.
     bind_r (hr_ref_from_canon e dst src) (\<lambda>(hr_ref, rv).
     if rv \<noteq> 0 then Inr (hr_ref, rv)
     else
       bind_r (put_u16 e hr_ref 18 0) (\<lambda>hr_ref.
       bind_r (put_u16 e hr_ref 19 0) (\<lambda>hr_ref.
       Inr (hr_ref, int HR_REF_ENC_LEN)))))"

definition hr_ref_enc_to_canon :: "endian \<Rightarrow> conv" where
  "hr_ref_enc_to_canon e dst src src_len =
     bind_r (assert_c (src_len = HR_REF_ENC_LEN)) (\<lambda>_.
     bind_r (hr_ref_to_canon e dst src) (\<lambda>(dst, rv).
     if rv \<noteq> 0 then Inr (dst, rv) else Inr (dst, int HR_CANON_LEN)))"

section \<open>\<^verbatim>\<open>src/fmt_rtp_hr_etsi.c\<close>\<close>

definition rtp_hr_etsi_from_canon :: conv where
  "rtp_hr_etsi_from_canon dst src src_len =
     bind_r (assert_c (src_len = HR_CANON_LEN)) (\<lambda>_.
     bind_r (memcpy_c dst 0 src 0 src_len) (\<lambda>dst.
     Inr (dst, int src_len)))"

definition rtp_hr_etsi_to_canon :: conv where
  "rtp_hr_etsi_to_canon dst src src_len =
     (if src_len \<noteq> HR_CANON_LEN then
        bind_r (memset_c dst 0 HR_CANON_LEN) (\<lambda>dst. Inr (dst, int HR_CANON_LEN))
      else
        bind_r (memcpy_c dst 0 src 0 src_len) (\<lambda>dst. Inr (dst, int HR_CANON_LEN)))"

section \<open>\<^verbatim>\<open>src/fmt_rtp_hr_ietf.c\<close>\<close>

definition RTP_HR_LEN :: nat where [simp, code_unfold]: "RTP_HR_LEN = HR_CANON_LEN + 1"

text \<open>The frame types of the ToC byte, with the values the enumeration gives them.\<close>

datatype rtp_hr_ietf_ft = FT_GOOD_SPEECH | FT_GOOD_SID | FT_NO_DATA

fun ft_val :: "rtp_hr_ietf_ft \<Rightarrow> byte" where
  "ft_val FT_GOOD_SPEECH = 0"
| "ft_val FT_GOOD_SID = 2"
| "ft_val FT_NO_DATA = 7"

definition rtp_hr_ietf_from_canon :: conv where
  "rtp_hr_ietf_from_canon dst src src_len =
     bind_r (assert_c (src_len = HR_CANON_LEN)) (\<lambda>_.
     let ft = FT_GOOD_SPEECH in
     bind_r (wr dst 0 (push_bit 4 (ft_val ft AND 7))) (\<lambda>dst.
     bind_r (memcpy_c dst 1 src 0 src_len) (\<lambda>dst.
     Inr (dst, int RTP_HR_LEN))))"

definition rtp_hr_ietf_to_canon :: conv where
  "rtp_hr_ietf_to_canon dst src src_len =
     (if src_len \<noteq> RTP_HR_LEN then
        bind_r (memset_c dst 0 RTP_HR_LEN) (\<lambda>dst. Inr (dst, int HR_CANON_LEN))
      else
        bind_r (memcpy_c dst 0 src 1 HR_CANON_LEN) (\<lambda>dst. Inr (dst, int HR_CANON_LEN)))"

section \<open>Fields of bits\<close>

fun fields :: "nat list \<Rightarrow> 'a list \<Rightarrow> 'a list list" where
  "fields [] bs = []"
| "fields (l # ls) bs = take l bs # fields ls (drop l bs)"

definition field_val :: "bool list \<Rightarrow> u16" where
  "field_val bs = horner_sum of_bool 2 (rev bs)"

definition field_bits :: "nat \<Rightarrow> u16 \<Rightarrow> bool list" where
  "field_bits l w = map (\<lambda>k. bit w (l - k - 1)) [0..<l]"

lemma length_fields [simp]: "length (fields ls bs) = length ls"
  by (induction ls bs rule: fields.induct) auto

lemma length_field_bits [simp]: "length (field_bits l w) = l"
  by (simp add: field_bits_def)

lemma nth_fields:
  "i < length ls \<Longrightarrow> fields ls bs ! i = take (ls ! i) (drop (sum_list (take i ls)) bs)"
  by (induction ls bs arbitrary: i rule: fields.induct)
     (auto simp: nth_Cons' take_Cons' add.commute)

lemma concat_fields: "concat (fields ls bs) = take (sum_list ls) bs"
  by (induction ls bs rule: fields.induct) (auto simp: take_add)

lemma field_val_snoc: "field_val (bs @ [b]) = push_bit 1 (field_val bs) OR of_bool b"
proof -
  have "\<not> bit (push_bit 1 x) n \<or> \<not> bit (of_bool b :: u16) n" for x :: u16 and n
    by (cases n; simp only: bit_push_bit_iff bit_of_bool_iff; simp)
  then have "push_bit 1 (field_val bs) OR of_bool b = push_bit 1 (field_val bs) + of_bool b"
    by (intro disjunctive_add [symmetric]) blast
  then show ?thesis by (simp add: field_val_def)
qed

lemma bit_field_val: "bit (field_val bs) n \<longleftrightarrow> n < 16 \<and> n < length bs \<and> bs ! (length bs - Suc n)"
  by (auto simp: field_val_def bit_horner_sum_bit_word_iff rev_nth)

lemma field_bits_val: "length bs \<le> 16 \<Longrightarrow> field_bits (length bs) (field_val bs) = bs"
  by (rule list_eqI) (auto simp: field_bits_def bit_field_val)

lemma field_val_bits: "l \<le> 16 \<Longrightarrow> field_val (field_bits l w) = take_bit l w"
  by (rule bit_word_eqI) (auto simp: bit_field_val field_bits_def bit_simps)

lemma hr_params_facts:
  "length (hr_params v) = 18" "sum_list (hr_params v) = 112" "\<forall>l \<in> set (hr_params v). l \<le> 16"
  "hr_params v ! 5 = 2" "sum_list (take 5 (hr_params v)) = 34"
  by (cases v; simp add: hr_params_def params_voiced_def params_unvoiced_def)+

section \<open>The loops compute the fields\<close>

definition hr_voiced_bit :: "buf \<Rightarrow> bool" where
  "hr_voiced_bit c \<longleftrightarrow> msb_bits c ! 34 \<or> msb_bits c ! 35"

definition hr_ref_words :: "buf \<Rightarrow> u16 list" where
  "hr_ref_words c = map field_val (fields (hr_params (hr_voiced_bit c)) (msb_bits c))"

lemma read_field:
  assumes "j + l \<le> 8 * length c"
  shows "for_loop [0..<l] (\<lambda>k w. bind_r (msb_get_bit c (j + k)) (\<lambda>b.
           Inr (push_bit 1 w OR of_nat b))) (0 :: u16) = Inr (field_val (take l (drop j (msb_bits c))))"
proof -
  have "\<exists>w. for_loop [0..<l] (\<lambda>k w. bind_r (msb_get_bit c (j + k)) (\<lambda>b.
           Inr (push_bit 1 w OR of_nat b))) (0 :: u16) = Inr w
         \<and> w = field_val (take l (drop j (msb_bits c)))"
  proof (rule for_loop_upt)
    fix i w assume "i < l" "w = field_val (take i (drop j (msb_bits c)))"
    then show "\<exists>w'. bind_r (msb_get_bit c (j + i)) (\<lambda>b. Inr (push_bit 1 w OR of_nat b)) = Inr w'
        \<and> w' = field_val (take (Suc i) (drop j (msb_bits c)))"
      using assms by (simp add: msb_get_in take_Suc_conv_app_nth field_val_snoc)
  qed (simp add: field_val_def)
  then show ?thesis by simp
qed

lemma and_mask_bit: "m < 16 \<Longrightarrow> 0 < unat ((w::u16) AND 2 ^ m) \<longleftrightarrow> bit w m"
  by (simp add: unat_gt_0 and_exp_eq_0_iff_not_bit)

lemma write_field:
  assumes "j + l \<le> 8 * length c" and l: "l \<le> 16"
  shows "\<exists>c'. for_loop [0..<l] (\<lambda>k canon. msb_put_bit canon (j + k)
             (unat ((w::u16) AND push_bit (l - k - 1) 1))) c = Inr c'
         \<and> msb_bits c' = take j (msb_bits c) @ field_bits l w @ drop (j + l) (msb_bits c)"
proof -
  let ?P = "\<lambda>i c'. msb_bits c' = take j (msb_bits c) @ take i (field_bits l w) @ drop (j + i) (msb_bits c)"
  have "\<exists>c'. for_loop [0..<l] (\<lambda>k canon. msb_put_bit canon (j + k)
             (unat (w AND push_bit (l - k - 1) 1))) c = Inr c' \<and> ?P l c'"
  proof (rule for_loop_upt [where P = ?P])
    fix i c' assume i: "i < l" and P: "?P i c'"
    have n: "j + i < length (msb_bits c')" using P i assms by (simp add: arg_cong [OF P])
    have d: "drop (j + i) (msb_bits c) = msb_bits c ! (j + i) # drop (j + Suc i) (msb_bits c)"
      using i assms by (simp add: Cons_nth_drop_Suc)
    obtain c'' where c'': "msb_put_bit c' (j + i) (unat (w AND push_bit (l - i - 1) 1)) = Inr c''"
        "msb_bits c'' = (msb_bits c')[j + i := bit w (l - i - 1)]"
      using msb.put_bit [OF n, of "unat (w AND push_bit (l - i - 1) 1)"] i l
      by (auto simp: and_mask_bit)
    moreover have "?P (Suc i) c''"
      using i assms c''(2) P d
      by (simp add: list_update_append take_Suc_conv_app_nth field_bits_def)
    ultimately show "\<exists>c''. msb_put_bit c' (j + i) (unat (w AND push_bit (l - i - 1) 1)) = Inr c'' \<and> ?P (Suc i) c''"
      by blast
  qed simp
  then show ?thesis by simp
qed

lemma fields_take: "sum_list ls \<le> n \<Longrightarrow> fields ls (take n bs) = fields ls bs"
  by (induction ls bs arbitrary: n rule: fields.induct) (auto simp: min_def drop_take)

lemma params_step:
  assumes "i < 18"
  shows "hr_params v ! i \<le> 16" and "sum_list (take (Suc i) (hr_params v)) =
      sum_list (take i (hr_params v)) + hr_params v ! i"
    and "sum_list (take i (hr_params v)) + hr_params v ! i \<le> 112"
proof -
  have i: "i < length (hr_params v)" using assms by (simp add: hr_params_facts)
  then show "hr_params v ! i \<le> 16" using hr_params_facts(3) nth_mem by blast
  show s: "sum_list (take (Suc i) (hr_params v)) = sum_list (take i (hr_params v)) + hr_params v ! i"
    using i by (simp add: take_Suc_conv_app_nth)
  have "sum_list (hr_params v) =
      sum_list (take (Suc i) (hr_params v)) + sum_list (drop (Suc i) (hr_params v))"
    by (simp flip: sum_list_append)
  then show "sum_list (take i (hr_params v)) + hr_params v ! i \<le> 112"
    using s hr_params_facts(2) [of v] by simp
qed

lemma hr_voiced_bit_take: "14 \<le> length c \<Longrightarrow> hr_voiced_bit (take 14 c) = hr_voiced_bit c"
  by (simp add: hr_voiced_bit_def msb_bits_def bits_by_take)

lemma hr_ref_words_take: "14 \<le> length c \<Longrightarrow> hr_ref_words (take 14 c) = hr_ref_words c"
  by (simp add: hr_ref_words_def hr_voiced_bit_take hr_params_facts fields_take
      msb_bits_def bits_by_take)

lemma length_hr_ref_words [simp]: "length (hr_ref_words c) = 18"
  by (simp add: hr_ref_words_def hr_params_facts)

lemma write_words_loop:
  fixes v and c :: buf
  defines "ws \<equiv> map field_val (fields (hr_params v) (msb_bits c))"
  assumes c: "14 \<le> length c" and d: "36 \<le> length dst"
  shows "for_loop [0..<18] (\<lambda>i (hr_ref, j).
               bind_r (rd (hr_params v) i) (\<lambda>l.
               bind_r (for_loop [0..<l] (\<lambda>k w.
                         bind_r (msb_get_bit c (j + k)) (\<lambda>b.
                         Inr (push_bit 1 w OR of_nat b))) (0 :: u16)) (\<lambda>w.
               bind_r (put_u16 e hr_ref i w) (\<lambda>hr_ref.
               Inr (hr_ref, j + l))))) (dst, 0)
         = Inr (bytes_of e ws @ drop 36 dst, 112)" (is "for_loop _ ?f _ = _")
proof -
  let ?P = "\<lambda>i (hr, j). hr = bytes_of e (take i ws) @ drop (2 * i) dst
                \<and> j = sum_list (take i (hr_params v))"
  have len: "length ws = 18" by (simp add: ws_def hr_params_facts)
  have "\<exists>s'. for_loop [0..<18] ?f (dst, 0) = Inr s' \<and> ?P 18 s'"
  proof (rule for_loop_upt [where P = ?P])
    fix i s assume i: "i < 18" and "?P i s"
    then obtain hr j where s: "s = (hr, j)" "hr = bytes_of e (take i ws) @ drop (2 * i) dst"
        "j = sum_list (take i (hr_params v))" by auto
    let ?l = "hr_params v ! i"
    have w: "field_val (take ?l (drop j (msb_bits c))) = ws ! i"
      using i by (simp add: ws_def nth_fields hr_params_facts s)
    have "j + ?l \<le> 8 * length c" using params_step(3) [OF i, of v] c s(3) by linarith
    then have r: "for_loop [0..<?l] (\<lambda>k w. bind_r (msb_get_bit c (j + k)) (\<lambda>b.
        Inr (push_bit 1 w OR of_nat b))) (0 :: u16) = Inr (ws ! i)"
      using read_field [of j ?l c] w by simp
    have p: "put_u16 e hr i (ws ! i) = Inr (bytes_of e (take (Suc i) ws) @ drop (2 * Suc i) dst)"
      using put_u16_next [of "take i ws" dst e "ws ! i"] i len d s
      by (simp add: take_Suc_conv_app_nth min_def)
    show "\<exists>s'. ?f i s = Inr s' \<and> ?P (Suc i) s'"
      using i params_step(2) [OF i] r p by (simp add: s(1) mem_simps hr_params_facts s(3) [symmetric])
  qed (simp add: bytes_of_def)
  then show ?thesis by (auto simp: len hr_params_facts)
qed

definition hr_ref_bits :: "bool \<Rightarrow> u16 list \<Rightarrow> bool list" where
  "hr_ref_bits v ws = concat (map2 field_bits (hr_params v) ws)"

lemma length_map2_fields:
  "length ls = length ws \<Longrightarrow> length (concat (map2 field_bits ls ws)) = sum_list ls"
  by (induction ls ws rule: list_induct2) auto

lemma length_hr_ref_bits: "length ws = 18 \<Longrightarrow> length (hr_ref_bits v ws) = 112"
  by (simp add: hr_ref_bits_def length_map2_fields hr_params_facts)

lemma read_words_loop:
  fixes v and src :: buf and e :: endian
  defines "ws \<equiv> take 18 (words_of e src)"
  assumes s: "36 \<le> length src" and d: "14 \<le> length dst"
  shows "for_loop [0..<18] (\<lambda>i (canon, j).
               bind_r (rd (hr_params v) i) (\<lambda>l.
               bind_r (get_u16 e src i) (\<lambda>w.
               bind_r (for_loop [0..<l] (\<lambda>k canon.
                         msb_put_bit canon (j + k) (unat (w AND push_bit (l - k - 1) 1))) canon) (\<lambda>canon.
               Inr (canon, j + l))))) (dst, 0)
         = Inr (msb_bytes (hr_ref_bits v ws) @ drop 14 dst, 112)" (is "for_loop _ ?f _ = _")
proof -
  let ?fs = "map2 field_bits (hr_params v) ws"
  let ?P = "\<lambda>i (canon, j). msb_bits canon = concat (take i ?fs) @ drop j (msb_bits dst)
                \<and> j = sum_list (take i (hr_params v))"
  have len: "length ws = 18" using s by (simp add: ws_def)
  have cl: "length (concat (take i ?fs)) = sum_list (take i (hr_params v))" if "i \<le> 18" for i
    using that len length_map2_fields [of "take i (hr_params v)" "take i ws"]
    by (simp add: take_map take_zip hr_params_facts)
  have "\<exists>s'. for_loop [0..<18] ?f (dst, 0) = Inr s' \<and> ?P 18 s'"
  proof (rule for_loop_upt [where P = ?P])
    fix i s' assume i: "i < 18" and P: "?P i s'"
    let ?l = "hr_params v ! i"
    obtain canon j where s': "s' = (canon, j)" "j = sum_list (take i (hr_params v))"
        "msb_bits canon = concat (take i ?fs) @ drop j (msb_bits dst)" using P by auto
    note step = params_step [OF i, of v]
    have lc: "length canon = length dst"
      using arg_cong [OF s'(3), of length] cl [of i] i step d s'(2) by simp
    have g: "get_u16 e src i = Inr (ws ! i)" using i s by (simp add: get_u16_in ws_def)
    have "j + ?l \<le> 8 * length canon" using step lc d s'(2) by linarith
    then obtain c' where c': "for_loop [0..<?l] (\<lambda>k canon. msb_put_bit canon (j + k)
          (unat (ws ! i AND push_bit (?l - k - 1) 1))) canon = Inr c'"
        "msb_bits c' = take j (msb_bits canon) @ field_bits ?l (ws ! i) @ drop (j + ?l) (msb_bits canon)"
      using write_field [of j ?l canon "ws ! i"] step by blast
    have "?P (Suc i) (c', j + ?l)"
      using c'(2) s' step cl [of i] i len
      by (simp add: take_Suc_conv_app_nth hr_params_facts add.commute)
    then show "\<exists>s''. ?f i s' = Inr s'' \<and> ?P (Suc i) s''"
      using i c'(1) by (simp add: s'(1) mem_simps hr_params_facts g)
  qed simp
  then obtain c' where c': "for_loop [0..<18] ?f (dst, 0) = Inr (c', 112)"
      "msb_bits c' = hr_ref_bits v ws @ drop (8 * 14) (msb_bits dst)"
    using len by (auto simp: hr_params_facts hr_ref_bits_def)
  moreover have "c' = msb_bytes (hr_ref_bits v ws) @ drop 14 dst"
    by (rule msb.drop_eq_pack [OF c'(2)]) (use len d in \<open>simp_all add: length_hr_ref_bits\<close>)
  ultimately show ?thesis by simp
qed

definition hr_ref_canon :: "u16 list \<Rightarrow> buf" where
  "hr_ref_canon ws = msb_bytes (hr_ref_bits (ws ! 5 \<noteq> 0) ws)"

lemma hr_ref_from_canon_eq:
  assumes c: "14 \<le> length c" and d: "36 \<le> length dst"
  shows "hr_ref_from_canon e dst c = Inr (bytes_of e (hr_ref_words (take 14 c)) @ drop 36 dst, 0)"
proof -
  have "(push_bit 1 (of_bool (msb_bits c ! 34)) OR of_bool (msb_bits c ! 35) \<noteq> (0::nat)) =
      hr_voiced_bit c"
    by (simp add: hr_voiced_bit_def)
  moreover have "map field_val (fields (hr_params (hr_voiced_bit c)) (msb_bits c)) =
      hr_ref_words (take 14 c)"
    using c by (simp add: hr_ref_words_take, simp add: hr_ref_words_def)
  ultimately show ?thesis
    using write_words_loop [OF c d, of "hr_voiced_bit c" e] c
    by (simp add: hr_ref_from_canon_def msb_get_in Let_def)
qed

lemma hr_ref_to_canon_eq:
  assumes s: "36 \<le> length src" and d: "14 \<le> length dst"
  shows "hr_ref_to_canon e dst src =
           Inr (hr_ref_canon (take 18 (words_of e src)) @ drop 14 dst, 0)"
  using read_words_loop [OF s d, of "words_of e src ! 5 \<noteq> 0" e] s
  by (simp add: hr_ref_to_canon_def get_u16_in Let_def hr_ref_canon_def)

lemma map2_fields_val:
  "\<forall>l \<in> set ls. l \<le> 16 \<Longrightarrow> sum_list ls \<le> length bs \<Longrightarrow>
     map2 field_bits ls (map field_val (fields ls bs)) = fields ls bs"
proof (induction ls bs rule: fields.induct)
  case (2 l ls bs)
  then have "length (take l bs) = l" by simp
  with 2 show ?case using field_bits_val [of "take l bs"] by simp
qed simp

lemma hr_ref_canon_words:
  assumes "length c = 14"
  shows "hr_ref_canon (hr_ref_words c) = c"
proof -
  let ?v = "hr_voiced_bit c"
  have "hr_ref_words c ! 5 = field_val (take 2 (drop 34 (msb_bits c)))"
    by (simp add: hr_ref_words_def nth_fields hr_params_facts)
  also have "take 2 (drop 34 (msb_bits c)) = [msb_bits c ! 34, msb_bits c ! 35]"
    using assms by (simp add: list_eq_iff_nth_eq less_Suc_eq numeral_2_eq_2)
  finally have v: "hr_ref_words c ! 5 \<noteq> 0 \<longleftrightarrow> ?v"
    by (simp add: field_val_def hr_voiced_bit_def)
  have "hr_ref_bits ?v (hr_ref_words c) = msb_bits c"
    using assms by (simp add: hr_ref_bits_def hr_ref_words_def map2_fields_val hr_params_facts
        concat_fields)
  with v show ?thesis by (simp add: hr_ref_canon_def)
qed

section \<open>The formats lose nothing\<close>

definition hr_dec_frame :: "endian \<Rightarrow> buf \<Rightarrow> buf" where
  "hr_dec_frame e c = bytes_of e (hr_ref_words c @ [0, 0, 0, 0])"

definition hr_enc_frame :: "endian \<Rightarrow> buf \<Rightarrow> buf" where
  "hr_enc_frame e c = bytes_of e (hr_ref_words c @ [0, 0])"

definition hr_frame_canon :: "endian \<Rightarrow> buf \<Rightarrow> buf" where
  "hr_frame_canon e fr = hr_ref_canon (take 18 (words_of e fr))"

lemma put_zero_words:
  "36 + 2 * n + 1 < length dst \<Longrightarrow> length ws = 18 \<Longrightarrow>
     put_u16 e (bytes_of e (ws @ replicate n 0) @ drop (36 + 2 * n) dst) (18 + n) 0 =
       Inr (bytes_of e (ws @ replicate (Suc n) 0) @ drop (36 + 2 * Suc n) dst)"
  using put_u16_next [of "ws @ replicate n 0" dst e 0] by (simp add: replicate_append_same)

lemma hr_ref_dec_from_canon_eq:
  assumes "14 \<le> length src" and "44 \<le> length dst"
  shows "hr_ref_dec_from_canon e dst src 14 = Inr (hr_dec_frame e (take 14 src) @ drop 44 dst, 44)"
  using assms put_zero_words [of 0 dst "hr_ref_words (take 14 src)" e]
    put_zero_words [of 1 dst "hr_ref_words (take 14 src)" e]
    put_zero_words [of 2 dst "hr_ref_words (take 14 src)" e]
    put_zero_words [of 3 dst "hr_ref_words (take 14 src)" e]
  by (simp add: hr_ref_dec_from_canon_def mem_simps hr_ref_from_canon_eq hr_dec_frame_def
      numeral_eq_Suc)

lemma hr_ref_enc_from_canon_eq:
  assumes "14 \<le> length src" and "40 \<le> length dst"
  shows "hr_ref_enc_from_canon e dst src 14 = Inr (hr_enc_frame e (take 14 src) @ drop 40 dst, 40)"
  using assms put_zero_words [of 0 dst "hr_ref_words (take 14 src)" e]
    put_zero_words [of 1 dst "hr_ref_words (take 14 src)" e]
  by (simp add: hr_ref_enc_from_canon_def mem_simps hr_ref_from_canon_eq hr_enc_frame_def)

lemma hr_ref_dec_to_canon_eq:
  "44 \<le> length src \<Longrightarrow> 14 \<le> length dst \<Longrightarrow>
     hr_ref_dec_to_canon e dst src 44 = Inr (hr_frame_canon e (take 44 src) @ drop 14 dst, 14)"
  by (simp add: hr_ref_dec_to_canon_def mem_simps hr_ref_to_canon_eq hr_frame_canon_def
      words_of_take)

lemma hr_ref_enc_to_canon_eq:
  "40 \<le> length src \<Longrightarrow> 14 \<le> length dst \<Longrightarrow>
     hr_ref_enc_to_canon e dst src 40 = Inr (hr_frame_canon e (take 40 src) @ drop 14 dst, 14)"
  by (simp add: hr_ref_enc_to_canon_def mem_simps hr_ref_to_canon_eq hr_frame_canon_def
      words_of_take)

lemma length_hr_frame_canon: "36 \<le> length fr \<Longrightarrow> length (hr_frame_canon e fr) = 14"
  by (simp add: hr_frame_canon_def hr_ref_canon_def length_hr_ref_bits)

interpretation hr_dec: lossless_format "hr_ref_dec_from_canon e" "hr_dec_frame e"
    "hr_ref_dec_to_canon e" "hr_frame_canon e" 14 44 "\<lambda>_. True" "\<lambda>c. length c = 14" for e
  by unfold_locales
     (simp_all add: hr_ref_dec_from_canon_eq hr_ref_dec_to_canon_eq length_hr_frame_canon
        hr_dec_frame_def hr_frame_canon_def [of e "bytes_of e _"] hr_ref_canon_words)

interpretation hr_enc: lossless_format "hr_ref_enc_from_canon e" "hr_enc_frame e"
    "hr_ref_enc_to_canon e" "hr_frame_canon e" 14 40 "\<lambda>_. True" "\<lambda>c. length c = 14" for e
  by unfold_locales
     (simp_all add: hr_ref_enc_from_canon_eq hr_ref_enc_to_canon_eq length_hr_frame_canon
        hr_enc_frame_def hr_frame_canon_def [of e "bytes_of e _"] hr_ref_canon_words)

lemma rtp_hr_etsi_from_canon_eq:
  "14 \<le> length src \<Longrightarrow> 14 \<le> length dst \<Longrightarrow>
     rtp_hr_etsi_from_canon dst src 14 = Inr (take 14 src @ drop 14 dst, 14)"
  by (simp add: rtp_hr_etsi_from_canon_def mem_simps)

lemma rtp_hr_etsi_to_canon_eq:
  "14 \<le> length src \<Longrightarrow> 14 \<le> length dst \<Longrightarrow>
     rtp_hr_etsi_to_canon dst src 14 = Inr (take 14 src @ drop 14 dst, 14)"
  by (simp add: rtp_hr_etsi_to_canon_def mem_simps)

lemma rtp_hr_etsi_to_canon_short:
  "n \<noteq> 14 \<Longrightarrow> 14 \<le> length dst \<Longrightarrow>
     rtp_hr_etsi_to_canon dst src n = Inr (replicate 14 0 @ drop 14 dst, 14)"
  by (simp add: rtp_hr_etsi_to_canon_def mem_simps)

interpretation rtp_hr_etsi: lossless_format rtp_hr_etsi_from_canon "\<lambda>c. c"
    rtp_hr_etsi_to_canon "\<lambda>c. c" 14 14 "\<lambda>_. True" "\<lambda>c. length c = 14"
  by unfold_locales (simp_all add: rtp_hr_etsi_from_canon_eq rtp_hr_etsi_to_canon_eq)

lemma rtp_hr_ietf_from_canon_eq:
  assumes "14 \<le> length src" and "15 \<le> length dst"
  shows "rtp_hr_ietf_from_canon dst src 14 = Inr ((0 # take 14 src) @ drop 15 dst, 15)"
proof -
  obtain x d where "dst = x # d" using assms(2) by (cases dst) auto
  then show ?thesis using assms
    by (simp add: rtp_hr_ietf_from_canon_def mem_simps Let_def)
qed

lemma rtp_hr_ietf_to_canon_eq:
  assumes "15 \<le> length src" and "14 \<le> length dst"
  shows "rtp_hr_ietf_to_canon dst src 15 = Inr (tl (take 15 src) @ drop 14 dst, 14)"
  using assms by (simp add: rtp_hr_ietf_to_canon_def mem_simps tl_take drop_Suc)

text \<open>
  A short or long payload is replaced by zeros, but one byte more than the canonical frame
  has: with a destination of the canonical length the write leaves the object.
\<close>

lemma rtp_hr_ietf_to_canon_short:
  "n \<noteq> 15 \<Longrightarrow> rtp_hr_ietf_to_canon dst src n =
     (if 15 \<le> length dst then Inr (replicate 15 0 @ drop 15 dst, 14) else Inl Out_Of_Bounds)"
  by (simp add: rtp_hr_ietf_to_canon_def memset_c_def)

interpretation rtp_hr_ietf: lossless_format rtp_hr_ietf_from_canon "\<lambda>c. 0 # c"
    rtp_hr_ietf_to_canon tl 14 15 "\<lambda>_. True" "\<lambda>c. length c = 14"
  by unfold_locales (simp_all add: rtp_hr_ietf_from_canon_eq rtp_hr_ietf_to_canon_eq)

text \<open>The four half-rate formats of this file carry the same canonical frames.\<close>

interpretation etsi_ietf: transcoder rtp_hr_etsi_from_canon "\<lambda>c. c" rtp_hr_etsi_to_canon "\<lambda>c. c"
    14 14 "\<lambda>_. True" "\<lambda>c. length c = 14" rtp_hr_ietf_from_canon "\<lambda>c. 0 # c" rtp_hr_ietf_to_canon tl
    15 "\<lambda>_. True"
  by unfold_locales

interpretation dec_ietf: transcoder "hr_ref_dec_from_canon e" "hr_dec_frame e"
    "hr_ref_dec_to_canon e" "hr_frame_canon e" 14 44 "\<lambda>_. True" "\<lambda>c. length c = 14"
    rtp_hr_ietf_from_canon "\<lambda>c. 0 # c" rtp_hr_ietf_to_canon tl 15 "\<lambda>_. True" for e
  by unfold_locales

end
