(* ===== verification/Fmt_Plain.thy ===== *)
theory Fmt_Plain
  imports Conv Host_Words
begin

unbundle bit_operations_syntax

text \<open>
  The formats that keep the bytes of a frame in place: \<^verbatim>\<open>src/fmt_rawpcm.c\<close> (samples in little
  endian against samples in host order), \<^verbatim>\<open>src/fmt_amr_opencore.c\<close> (a copy) and
  \<^verbatim>\<open>src/fmt_rtp_amr.c\<close> (a payload header in front). The last two have variable-length frames.
\<close>

section \<open>\<^verbatim>\<open>src/fmt_rawpcm.c\<close>\<close>

definition rawpcm_s16le_from_canon :: "endian \<Rightarrow> conv" where
  "rawpcm_s16le_from_canon e dst src src_len =
     bind_r (assert_c (src_len = PCM_CANON_LEN)) (\<lambda>_.
     bind_r (for_loop [0..<160] (\<lambda>i dst.
               bind_r (get_u16 e src i) (\<lambda>w.
               bind_r (wr dst (2 * i) (ucast (w AND 0xff))) (\<lambda>dst.
               wr dst (2 * i + 1) (ucast (drop_bit 8 w AND 0xff))))) dst) (\<lambda>dst.
     Inr (dst, int PCM_CANON_LEN)))"

definition rawpcm_s16le_to_canon :: "endian \<Rightarrow> conv" where
  "rawpcm_s16le_to_canon e dst src src_len =
     bind_r (assert_c (src_len = PCM_CANON_LEN)) (\<lambda>_.
     bind_r (for_loop [0..<160] (\<lambda>i dst.
               bind_r (rd src (2 * i + 1)) (\<lambda>h.
               bind_r (rd src (2 * i)) (\<lambda>l.
               put_u16 e dst i (push_bit 8 (ucast h) OR ucast l)))) dst) (\<lambda>dst.
     Inr (dst, int PCM_CANON_LEN)))"

section \<open>\<^verbatim>\<open>src/fmt_amr_opencore.c\<close>\<close>

definition amr_opencore_from_canon :: conv where
  "amr_opencore_from_canon dst src src_len =
     bind_r (memcpy_c dst 0 src 0 src_len) (\<lambda>dst. Inr (dst, int src_len))"

definition amr_opencore_to_canon :: conv where
  "amr_opencore_to_canon dst src src_len =
     bind_r (memcpy_c dst 0 src 0 src_len) (\<lambda>dst. Inr (dst, int src_len))"

section \<open>\<^verbatim>\<open>src/fmt_rtp_amr.c\<close>\<close>

definition AMR_SILENCE :: buf where
  "AMR_SILENCE = [0x80, 0x44, 0x00, 0x00, 0x00, 0x00, 0x00]"

definition rtp_amr_from_canon :: conv where
  "rtp_amr_from_canon dst src src_len =
     bind_r (wr dst 0 0xf0) (\<lambda>dst.
     bind_r (memcpy_c dst 1 src 0 src_len) (\<lambda>dst.
     Inr (dst, int (src_len + 1))))"

text \<open>The length is a 32-bit unsigned number: \<^verbatim>\<open>src_len-1\<close> wraps around for an empty payload.\<close>

definition rtp_amr_to_canon :: conv where
  "rtp_amr_to_canon dst src src_len =
     bind_r (rd src 1) (\<lambda>s1.
     let (src, src_len) = (if s1 AND 4 = 0 then (AMR_SILENCE, length AMR_SILENCE) else (src, src_len));
         n = unat ((of_nat src_len :: u32) - 1)
     in bind_r (memcpy_c dst 0 src 1 n) (\<lambda>dst.
        Inr (dst, int n)))"

section \<open>Raw PCM\<close>

definition pcm_order :: "endian \<Rightarrow> endian \<Rightarrow> buf \<Rightarrow> buf" where
  \<comment> \<open>samples stored in order \<open>a\<close>, stored in order \<open>b\<close>\<close>
  "pcm_order a b c = bytes_of b (words_of a c)"

lemma length_pcm_order [simp]: "even (length c) \<Longrightarrow> length (pcm_order a b c) = length c"
  by (simp add: pcm_order_def)

lemma pcm_order_same [simp]: "even (length c) \<Longrightarrow> pcm_order a a c = c"
  by (simp add: pcm_order_def bytes_of_words_of)

lemma pcm_order_inverse [simp]: "even (length c) \<Longrightarrow> pcm_order b a (pcm_order a b c) = c"
  by (simp add: pcm_order_def bytes_of_words_of)

lemma put_words_loop:
  assumes len: "length ws = n" and d: "2 * n \<le> length dst"
    and body: "\<And>i d. i < n \<Longrightarrow> length d = length dst \<Longrightarrow> f i d = put_u16 e d i (ws ! i)"
  shows "for_loop [0..<n] f dst = Inr (bytes_of e ws @ drop (2 * n) dst)"
proof -
  let ?P = "\<lambda>i d. d = bytes_of e (take i ws) @ drop (2 * i) dst"
  have "\<exists>d. for_loop [0..<n] f dst = Inr d \<and> ?P n d"
  proof (rule for_loop_upt [where P = ?P])
    fix i c assume i: "i < n" and c: "?P i c"
    have "length c = length dst" using i c len d by simp
    then show "\<exists>d. f i c = Inr d \<and> ?P (Suc i) d"
      using body [OF i] put_u16_next [of "take i ws" dst e "ws ! i"] i c len d
      by (simp add: take_Suc_conv_app_nth)
  qed (simp add: bytes_of_def)
  then show ?thesis using len by simp
qed

lemma put_u16_little:
  "2 * i + 1 < length d \<Longrightarrow> bind_r (wr d (2 * i) (ucast (w AND 0xff))) (\<lambda>d.
     wr d (2 * i + 1) (ucast (drop_bit 8 w AND 0xff))) = put_u16 Little d i w"
proof -
  assume "2 * i + 1 < length d"
  moreover have "ucast ((x::u16) AND 0xff) = (ucast x :: byte)" for x
  proof -
    have "x AND 0xff = take_bit 8 x" by (simp add: take_bit_eq_mask mask_eq_exp_minus_1)
    then show ?thesis by (intro bit_word_eqI) (simp add: bit_simps del: take_bit_eq_mask)
  qed
  ultimately show ?thesis
    by (simp add: put_u16_def wr_def u16_bytes_def list_update_swap)
qed

lemma rawpcm_s16le_from_canon_eq:
  assumes "320 \<le> length src" and "320 \<le> length dst"
  shows "rawpcm_s16le_from_canon e dst src 320 =
           Inr (pcm_order e Little (take 320 src) @ drop 320 dst, 320)"
proof -
  let ?ws = "words_of e (take 320 src)"
  have w: "?ws ! i = words_of e src ! i" if "i < 160" for i
  proof -
    have "i < length src div 2" using that assms by linarith
    then show ?thesis using that assms by (simp add: words_of_def)
  qed
  have "for_loop [0..<160] (\<lambda>i dst. bind_r (get_u16 e src i) (\<lambda>w.
      bind_r (wr dst (2 * i) (ucast (w AND 0xff))) (\<lambda>dst.
      wr dst (2 * i + 1) (ucast (drop_bit 8 w AND 0xff))))) dst
    = Inr (bytes_of Little ?ws @ drop (2 * 160) dst)"
    by (rule put_words_loop) (use assms in \<open>simp_all add: get_u16_in w put_u16_little [simplified]\<close>)
  then show ?thesis by (simp add: rawpcm_s16le_from_canon_def mem_simps pcm_order_def)
qed

lemma rawpcm_s16le_to_canon_eq:
  assumes "320 \<le> length src" and "320 \<le> length dst"
  shows "rawpcm_s16le_to_canon e dst src 320 =
           Inr (pcm_order Little e (take 320 src) @ drop 320 dst, 320)"
proof -
  let ?ws = "words_of Little (take 320 src)"
  have w: "?ws ! i = push_bit 8 (ucast (src ! (2 * i + 1))) OR ucast (src ! (2 * i))" if "i < 160" for i
    using that assms by (simp add: words_of_def u16_of_def)
  have "for_loop [0..<160] (\<lambda>i dst. bind_r (rd src (2 * i + 1)) (\<lambda>h. bind_r (rd src (2 * i)) (\<lambda>l.
      put_u16 e dst i (push_bit 8 (ucast h) OR ucast l)))) dst
    = Inr (bytes_of e ?ws @ drop (2 * 160) dst)"
    by (rule put_words_loop) (use assms in \<open>simp_all add: mem_simps w\<close>)
  then show ?thesis by (simp add: rawpcm_s16le_to_canon_def mem_simps pcm_order_def)
qed

interpretation rawpcm: lossless_format "rawpcm_s16le_from_canon e" "pcm_order e Little"
    "rawpcm_s16le_to_canon e" "pcm_order Little e" 320 320 "\<lambda>_. True" "\<lambda>c. length c = 320" for e
  by unfold_locales (simp_all add: rawpcm_s16le_from_canon_eq rawpcm_s16le_to_canon_eq)

section \<open>AMR\<close>

definition amr_quality :: "buf \<Rightarrow> bool" where
  \<comment> \<open>the Q bit of the first byte, without which \<^verbatim>\<open>rtp_amr_to_canon\<close> drops the frame\<close>
  "amr_quality c \<longleftrightarrow> c \<noteq> [] \<and> hd c AND 4 \<noteq> 0 \<and> length c < 2 ^ 32 - 1"

lemma rtp_amr_from_canon_eq:
  assumes "n \<le> length src" and "n + 1 \<le> length dst"
  shows "rtp_amr_from_canon dst src n = Inr ((0xf0 # take n src) @ drop (n + 1) dst, int (n + 1))"
proof -
  obtain x d where "dst = x # d" using assms(2) by (cases dst) auto
  then show ?thesis using assms by (simp add: rtp_amr_from_canon_def mem_simps)
qed

lemma rtp_amr_to_canon_eq:
  assumes "1 \<le> n" "n < 2 ^ 32" "n \<le> length src" "1 < length src" "src ! 1 AND 4 \<noteq> 0"
    and "n - 1 \<le> length dst"
  shows "rtp_amr_to_canon dst src n = Inr (take (n - 1) (tl src) @ drop (n - 1) dst, int (n - 1))"
proof -
  have "(of_nat n :: u32) - 1 = of_nat (n - 1)" using assms(1) by (simp add: of_nat_diff)
  then have "unat ((of_nat n :: u32) - 1) = n - 1"
    using assms(2) by (simp add: unsigned_of_nat take_bit_nat_eq_self_iff)
  then show ?thesis using assms by (simp del: of_nat_unat add: Let_def rtp_amr_to_canon_def mem_simps drop_Suc)
qed

lemma rtp_amr_to_canon_damaged:
  assumes "1 < length src" "src ! 1 AND 4 = 0" "6 \<le> length dst"
  shows "rtp_amr_to_canon dst src n = Inr (tl AMR_SILENCE @ drop 6 dst, 6)"
  using assms by (simp add: rtp_amr_to_canon_def mem_simps AMR_SILENCE_def)

lemma rtp_amr_to_canon_empty:
  assumes "1 < length src" "src ! 1 AND 4 \<noteq> 0" "length dst < 2 ^ 32 - 1"
  shows "rtp_amr_to_canon dst src 0 = Inl Out_Of_Bounds"
  using assms
  by (simp add: rtp_amr_to_canon_def rd_in memcpy_c_def Let_def unsigned_minus_1_eq_mask mask_eq_exp_minus_1)

interpretation rtp_amr: lossless_var_format rtp_amr_from_canon "\<lambda>c. 0xf0 # c" rtp_amr_to_canon tl 1
    amr_quality
proof unfold_locales
  fix c dst rest :: buf assume c: "amr_quality c" and d: "length c \<le> length dst"
  then obtain x xs where x: "c = x # xs" "x AND 4 \<noteq> 0" by (cases c) (auto simp: amr_quality_def)
  with c d show "rtp_amr_to_canon dst ((0xf0 # c) @ rest) (length c + 1) =
      Inr (c @ drop (length c) dst, int (length c))"
    by (subst rtp_amr_to_canon_eq) (auto simp: amr_quality_def)
qed (simp add: rtp_amr_from_canon_eq)

interpretation amr_opencore: lossless_var_format amr_opencore_from_canon "\<lambda>c. c"
    amr_opencore_to_canon "\<lambda>c. c" 0 "\<lambda>_. True"
  by unfold_locales (simp_all add: amr_opencore_from_canon_def amr_opencore_to_canon_def mem_simps)

end
