(* ===== verification/Formats.thy ===== *)
theory Formats
  imports Fmt_Nibble Fmt_Ti Fmt_Racal Fmt_Amr Fmt_Hr Fmt_Plain
begin

text \<open>
  The format table (\<^verbatim>\<open>src/formats.c\<close>, \<^verbatim>\<open>include/osmocom/gapk/formats.h\<close>) and the sixteen format
  descriptors, each in its own \<^verbatim>\<open>fmt_*.c\<close>. The descriptors depend on the byte order of the
  host and on the bit-order tables of libosmocodec, which are arguments here.
\<close>

section \<open>Enumerations\<close>

datatype codec_type = CODEC_INVALID | CODEC_PCM | CODEC_HR | CODEC_FR | CODEC_EFR | CODEC_AMR

fun codec_num :: "codec_type \<Rightarrow> nat" where
  "codec_num CODEC_INVALID = 0"
| "codec_num CODEC_PCM = 1"
| "codec_num CODEC_HR = 2"
| "codec_num CODEC_FR = 3"
| "codec_num CODEC_EFR = 4"
| "codec_num CODEC_AMR = 5"

definition CODEC_MAX :: nat where [simp, code_unfold]: "CODEC_MAX = 6"

datatype format_type =
    FMT_INVALID
  | FMT_AMR_EFR
  | FMT_GSM
  | FMT_HR_REF_DEC
  | FMT_HR_REF_ENC
  | FMT_RACAL_HR
  | FMT_RACAL_FR
  | FMT_RACAL_EFR
  | FMT_RAWPCM_S16LE
  | FMT_TI_HR
  | FMT_TI_FR
  | FMT_TI_EFR
  | FMT_AMR_OPENCORE
  | FMT_RTP_AMR
  | FMT_RTP_EFR
  | FMT_RTP_HR_ETSI
  | FMT_RTP_HR_IETF

fun fmt_num :: "format_type \<Rightarrow> nat" where
  "fmt_num FMT_INVALID = 0"
| "fmt_num FMT_AMR_EFR = 1"
| "fmt_num FMT_GSM = 2"
| "fmt_num FMT_HR_REF_DEC = 3"
| "fmt_num FMT_HR_REF_ENC = 4"
| "fmt_num FMT_RACAL_HR = 5"
| "fmt_num FMT_RACAL_FR = 6"
| "fmt_num FMT_RACAL_EFR = 7"
| "fmt_num FMT_RAWPCM_S16LE = 8"
| "fmt_num FMT_TI_HR = 9"
| "fmt_num FMT_TI_FR = 10"
| "fmt_num FMT_TI_EFR = 11"
| "fmt_num FMT_AMR_OPENCORE = 12"
| "fmt_num FMT_RTP_AMR = 13"
| "fmt_num FMT_RTP_EFR = 14"
| "fmt_num FMT_RTP_HR_ETSI = 15"
| "fmt_num FMT_RTP_HR_IETF = 16"

definition FMT_MAX :: nat where [simp, code_unfold]: "FMT_MAX = 17"

lemma codec_num_inject [simp]: "codec_num a = codec_num b \<longleftrightarrow> a = b"
  by (cases a; cases b) simp_all

lemma fmt_num_inject [simp]: "fmt_num a = fmt_num b \<longleftrightarrow> a = b"
  by (cases a; cases b) simp_all

lemma fmt_num_less: "fmt_num a < 17"
  by (cases a) simp_all

text \<open>The C enumerations are compared and looped over as integers.\<close>

instantiation codec_type :: linorder
begin

definition less_eq_codec_type :: "codec_type \<Rightarrow> codec_type \<Rightarrow> bool" where
  "less_eq_codec_type a b \<longleftrightarrow> codec_num a \<le> codec_num b"

definition less_codec_type :: "codec_type \<Rightarrow> codec_type \<Rightarrow> bool" where
  "less_codec_type a b \<longleftrightarrow> codec_num a < codec_num b"

instance
  by standard (auto simp: less_eq_codec_type_def less_codec_type_def)

end

instantiation format_type :: linorder
begin

definition less_eq_format_type :: "format_type \<Rightarrow> format_type \<Rightarrow> bool" where
  "less_eq_format_type a b \<longleftrightarrow> fmt_num a \<le> fmt_num b"

definition less_format_type :: "format_type \<Rightarrow> format_type \<Rightarrow> bool" where
  "less_format_type a b \<longleftrightarrow> fmt_num a < fmt_num b"

instance
  by standard (auto simp: less_eq_format_type_def less_format_type_def)

end

section \<open>Format descriptors\<close>

record format_desc =
  fd_type :: format_type
  fd_codec_type :: codec_type
  fd_description :: string
  fd_name :: string
  fd_frame_len :: nat
  fd_conv_from_canon :: conv
  fd_conv_to_canon :: conv
  fd_header :: buf  \<comment> \<open>the file header; \<open>[]\<close> is \<^verbatim>\<open>header_len == 0\<close>\<close>

abbreviation fd_header_len :: "format_desc \<Rightarrow> nat" where
  "fd_header_len f \<equiv> length (fd_header f)"

definition fmt_amr_efr :: "bit_tables \<Rightarrow> format_desc" where
  "fmt_amr_efr T =
     \<lparr>fd_type = FMT_AMR_EFR, fd_codec_type = CODEC_EFR,
      fd_description = ''Classic .amr file containing EFR (=AMR 12.2k) data'',
      fd_name = ''amr-efr'', fd_frame_len = AMR_EFR_LEN,
      fd_conv_from_canon = amr_efr_from_canon T, fd_conv_to_canon = amr_efr_to_canon T,
      fd_header = [0x23, 0x21, 0x41, 0x4d, 0x52, 0x0a]\<rparr>"

definition fmt_gsm :: format_desc where
  "fmt_gsm =
     \<lparr>fd_type = FMT_GSM, fd_codec_type = CODEC_FR,
      fd_description = ''Classic .gsm file format (and RTP payload for FR according to RFC3551)'',
      fd_name = ''gsm'', fd_frame_len = GSM_LEN,
      fd_conv_from_canon = gsm_from_canon, fd_conv_to_canon = gsm_to_canon,
      fd_header = []\<rparr>"

definition fmt_hr_ref_dec :: "endian \<Rightarrow> format_desc" where
  "fmt_hr_ref_dec e =
     \<lparr>fd_type = FMT_HR_REF_DEC, fd_codec_type = CODEC_HR,
      fd_description = ''3GPP HR Reference decoder code parameters file format'',
      fd_name = ''hr-ref-dec'', fd_frame_len = HR_REF_DEC_LEN,
      fd_conv_from_canon = hr_ref_dec_from_canon e, fd_conv_to_canon = hr_ref_dec_to_canon e,
      fd_header = []\<rparr>"

definition fmt_hr_ref_enc :: "endian \<Rightarrow> format_desc" where
  "fmt_hr_ref_enc e =
     \<lparr>fd_type = FMT_HR_REF_ENC, fd_codec_type = CODEC_HR,
      fd_description = ''3GPP HR Reference encoder code parameters file format'',
      fd_name = ''hr-ref-enc'', fd_frame_len = HR_REF_ENC_LEN,
      fd_conv_from_canon = hr_ref_enc_from_canon e, fd_conv_to_canon = hr_ref_enc_to_canon e,
      fd_header = []\<rparr>"

definition fmt_racal_hr :: "bit_tables \<Rightarrow> format_desc" where
  "fmt_racal_hr T =
     \<lparr>fd_type = FMT_RACAL_HR, fd_codec_type = CODEC_HR,
      fd_description = ''Racal HR TCH/H recording'',
      fd_name = ''racal-hr'', fd_frame_len = RACAL_HR_LEN,
      fd_conv_from_canon = racal_hr_from_canon T, fd_conv_to_canon = racal_hr_to_canon T,
      fd_header = []\<rparr>"

definition fmt_racal_fr :: "bit_tables \<Rightarrow> format_desc" where
  "fmt_racal_fr T =
     \<lparr>fd_type = FMT_RACAL_FR, fd_codec_type = CODEC_FR,
      fd_description = ''Racal FR TCH/F recording'',
      fd_name = ''racal-fr'', fd_frame_len = RACAL_FR_LEN,
      fd_conv_from_canon = racal_fr_from_canon T, fd_conv_to_canon = racal_fr_to_canon T,
      fd_header = []\<rparr>"

definition fmt_racal_efr :: format_desc where
  "fmt_racal_efr =
     \<lparr>fd_type = FMT_RACAL_EFR, fd_codec_type = CODEC_EFR,
      fd_description = ''Racal EFR TCH/F recording'',
      fd_name = ''racal-efr'', fd_frame_len = RACAL_EFR_LEN,
      fd_conv_from_canon = racal_efr_from_canon, fd_conv_to_canon = racal_efr_to_canon,
      fd_header = []\<rparr>"

definition fmt_rawpcm_s16le :: "endian \<Rightarrow> format_desc" where
  "fmt_rawpcm_s16le e =
     \<lparr>fd_type = FMT_RAWPCM_S16LE, fd_codec_type = CODEC_PCM,
      fd_description = ''Raw PCM samples Signed 16 bits little endian'',
      fd_name = ''rawpcm-s16le'', fd_frame_len = PCM_CANON_LEN,
      fd_conv_from_canon = rawpcm_s16le_from_canon e, fd_conv_to_canon = rawpcm_s16le_to_canon e,
      fd_header = []\<rparr>"

definition fmt_ti_hr :: "bit_tables \<Rightarrow> format_desc" where
  "fmt_ti_hr T =
     \<lparr>fd_type = FMT_TI_HR, fd_codec_type = CODEC_HR,
      fd_description = ''Texas Instrument HR TCH/H buffer format'',
      fd_name = ''ti-hr'', fd_frame_len = TI_LEN,
      fd_conv_from_canon = ti_hr_from_canon T, fd_conv_to_canon = ti_hr_to_canon T,
      fd_header = []\<rparr>"

definition fmt_ti_fr :: "bit_tables \<Rightarrow> format_desc" where
  "fmt_ti_fr T =
     \<lparr>fd_type = FMT_TI_FR, fd_codec_type = CODEC_FR,
      fd_description = ''Texas Instrument FR TCH/F buffer format'',
      fd_name = ''ti-fr'', fd_frame_len = TI_LEN,
      fd_conv_from_canon = ti_fr_from_canon T, fd_conv_to_canon = ti_fr_to_canon T,
      fd_header = []\<rparr>"

definition fmt_ti_efr :: "bit_tables \<Rightarrow> format_desc" where
  "fmt_ti_efr T =
     \<lparr>fd_type = FMT_TI_EFR, fd_codec_type = CODEC_EFR,
      fd_description = ''Texas Instrument EFR TCH/F buffer format'',
      fd_name = ''ti-efr'', fd_frame_len = TI_LEN,
      fd_conv_from_canon = ti_efr_from_canon T, fd_conv_to_canon = ti_efr_to_canon T,
      fd_header = []\<rparr>"

definition fmt_amr_opencore :: format_desc where
  "fmt_amr_opencore =
     \<lparr>fd_type = FMT_AMR_OPENCORE, fd_codec_type = CODEC_AMR,
      fd_description = ''Input format to libopencore-amrnb'',
      fd_name = ''amr-opencore'', fd_frame_len = 0,
      fd_conv_from_canon = amr_opencore_from_canon, fd_conv_to_canon = amr_opencore_to_canon,
      fd_header = []\<rparr>"

definition fmt_rtp_amr :: format_desc where
  "fmt_rtp_amr =
     \<lparr>fd_type = FMT_RTP_AMR, fd_codec_type = CODEC_AMR,
      fd_description = ''RTP payload for AMR according to RFC4867'',
      fd_name = ''rtp-amr'', fd_frame_len = 0,
      fd_conv_from_canon = rtp_amr_from_canon, fd_conv_to_canon = rtp_amr_to_canon,
      fd_header = []\<rparr>"

definition fmt_rtp_efr :: format_desc where
  "fmt_rtp_efr =
     \<lparr>fd_type = FMT_RTP_EFR, fd_codec_type = CODEC_EFR,
      fd_description = ''RTP payload for EFR according to RFC3551'',
      fd_name = ''rtp-efr'', fd_frame_len = RTP_EFR_LEN,
      fd_conv_from_canon = rtp_efr_from_canon, fd_conv_to_canon = rtp_efr_to_canon,
      fd_header = []\<rparr>"

definition fmt_rtp_hr_etsi :: format_desc where
  "fmt_rtp_hr_etsi =
     \<lparr>fd_type = FMT_RTP_HR_ETSI, fd_codec_type = CODEC_HR,
      fd_description = ''RTP payload for HR according to ETSI TS 101 318'',
      fd_name = ''rtp-hr-etsi'', fd_frame_len = HR_CANON_LEN,
      fd_conv_from_canon = rtp_hr_etsi_from_canon, fd_conv_to_canon = rtp_hr_etsi_to_canon,
      fd_header = []\<rparr>"

definition fmt_rtp_hr_ietf :: format_desc where
  "fmt_rtp_hr_ietf =
     \<lparr>fd_type = FMT_RTP_HR_IETF, fd_codec_type = CODEC_HR,
      fd_description = ''RTP payload for HR according to IETF RFC5993'',
      fd_name = ''rtp-hr-ietf'', fd_frame_len = RTP_HR_LEN,
      fd_conv_from_canon = rtp_hr_ietf_from_canon, fd_conv_to_canon = rtp_hr_ietf_to_canon,
      fd_header = []\<rparr>"

definition supported_formats :: "endian \<Rightarrow> bit_tables \<Rightarrow> format_desc option list" where
  "supported_formats e T =
     [None,
      Some (fmt_amr_efr T),
      Some fmt_gsm,
      Some (fmt_hr_ref_dec e),
      Some (fmt_hr_ref_enc e),
      Some (fmt_racal_hr T),
      Some (fmt_racal_fr T),
      Some fmt_racal_efr,
      Some (fmt_rawpcm_s16le e),
      Some (fmt_ti_hr T),
      Some (fmt_ti_fr T),
      Some (fmt_ti_efr T),
      Some fmt_amr_opencore,
      Some fmt_rtp_amr,
      Some fmt_rtp_efr,
      Some fmt_rtp_hr_etsi,
      Some fmt_rtp_hr_ietf]"

definition fmt_get_from_type :: "endian \<Rightarrow> bit_tables \<Rightarrow> nat \<Rightarrow> format_desc option" where
  "fmt_get_from_type e T type =
     (if type \<le> fmt_num FMT_INVALID \<or> type \<ge> FMT_MAX then None
      else supported_formats e T ! type)"

fun fmt_find :: "format_desc option list \<Rightarrow> string \<Rightarrow> format_desc option" where
  "fmt_find [] name = None"
| "fmt_find (None # fs) name = fmt_find fs name"
| "fmt_find (Some f # fs) name = (if fd_name f = name then Some f else fmt_find fs name)"

definition fmt_get_from_name :: "endian \<Rightarrow> bit_tables \<Rightarrow> string \<Rightarrow> format_desc option" where
  "fmt_get_from_name e T name = fmt_find (drop (fmt_num FMT_INVALID + 1) (supported_formats e T)) name"

section \<open>The table\<close>

lemmas fmt_defs = fmt_amr_efr_def fmt_gsm_def fmt_hr_ref_dec_def fmt_hr_ref_enc_def fmt_racal_hr_def
  fmt_racal_fr_def fmt_racal_efr_def fmt_rawpcm_s16le_def fmt_ti_hr_def fmt_ti_fr_def fmt_ti_efr_def
  fmt_amr_opencore_def fmt_rtp_amr_def fmt_rtp_efr_def fmt_rtp_hr_etsi_def fmt_rtp_hr_ietf_def

text \<open>The descriptor of a type, read off the table.\<close>

fun fmt_of :: "endian \<Rightarrow> bit_tables \<Rightarrow> format_type \<Rightarrow> format_desc" where
  "fmt_of e T FMT_INVALID = fmt_gsm"  \<comment> \<open>no descriptor; never used\<close>
| "fmt_of e T FMT_AMR_EFR = fmt_amr_efr T"
| "fmt_of e T FMT_GSM = fmt_gsm"
| "fmt_of e T FMT_HR_REF_DEC = fmt_hr_ref_dec e"
| "fmt_of e T FMT_HR_REF_ENC = fmt_hr_ref_enc e"
| "fmt_of e T FMT_RACAL_HR = fmt_racal_hr T"
| "fmt_of e T FMT_RACAL_FR = fmt_racal_fr T"
| "fmt_of e T FMT_RACAL_EFR = fmt_racal_efr"
| "fmt_of e T FMT_RAWPCM_S16LE = fmt_rawpcm_s16le e"
| "fmt_of e T FMT_TI_HR = fmt_ti_hr T"
| "fmt_of e T FMT_TI_FR = fmt_ti_fr T"
| "fmt_of e T FMT_TI_EFR = fmt_ti_efr T"
| "fmt_of e T FMT_RTP_EFR = fmt_rtp_efr"
| "fmt_of e T FMT_RTP_HR_ETSI = fmt_rtp_hr_etsi"
| "fmt_of e T FMT_RTP_HR_IETF = fmt_rtp_hr_ietf"
| "fmt_of e T FMT_AMR_OPENCORE = fmt_amr_opencore"
| "fmt_of e T FMT_RTP_AMR = fmt_rtp_amr"

lemma fmt_get_from_type_of: "t \<noteq> FMT_INVALID \<Longrightarrow> fmt_get_from_type e T (fmt_num t) = Some (fmt_of e T t)"
  by (cases t) (simp_all add: fmt_get_from_type_def supported_formats_def)

lemma fd_type_fmt_of [simp]: "t \<noteq> FMT_INVALID \<Longrightarrow> fd_type (fmt_of e T t) = t"
  by (cases t) (simp_all add: fmt_defs)

definition all_formats :: "format_type list" where
  "all_formats =
     [FMT_INVALID, FMT_AMR_EFR, FMT_GSM, FMT_HR_REF_DEC, FMT_HR_REF_ENC, FMT_RACAL_HR, FMT_RACAL_FR,
      FMT_RACAL_EFR, FMT_RAWPCM_S16LE, FMT_TI_HR, FMT_TI_FR, FMT_TI_EFR, FMT_AMR_OPENCORE,
      FMT_RTP_AMR, FMT_RTP_EFR, FMT_RTP_HR_ETSI, FMT_RTP_HR_IETF]"

lemma fmt_num_surj: "n < 17 \<Longrightarrow> \<exists>t. fmt_num t = n"
proof -
  assume "n < 17"
  moreover have "map fmt_num all_formats = [0..<17]" by (simp add: all_formats_def upt_rec)
  ultimately have "n \<in> set (map fmt_num all_formats)" by simp
  then show ?thesis by auto
qed

lemma fmt_get_from_type_SomeD:
  "fmt_get_from_type e T n = Some f \<Longrightarrow>
     \<exists>t. t \<noteq> FMT_INVALID \<and> fmt_num t = n \<and> f = fmt_of e T t"
proof -
  assume f: "fmt_get_from_type e T n = Some f"
  then have "0 < n" "n < 17" by (auto simp: fmt_get_from_type_def split: if_splits)
  then obtain t where "fmt_num t = n" "t \<noteq> FMT_INVALID" using fmt_num_surj [of n] by fastforce
  with f show ?thesis using fmt_get_from_type_of [of t e T] by auto
qed

definition fmt_name :: "format_type \<Rightarrow> string" where
  "fmt_name t = fd_name (fmt_of Little identity_tables t)"

lemma fd_name_fmt_of: "t \<noteq> FMT_INVALID \<Longrightarrow> fd_name (fmt_of e T t) = fmt_name t"
  by (cases t) (simp_all add: fmt_defs fmt_name_def)

lemma fmt_name_inject: "a \<noteq> FMT_INVALID \<Longrightarrow> b \<noteq> FMT_INVALID \<Longrightarrow> fmt_name a = fmt_name b \<longleftrightarrow> a = b"
  by (cases a; cases b) (simp_all add: fmt_name_def fmt_defs)

lemma fmt_find_Some:
  "fmt_find fs s = Some f \<Longrightarrow> Some f \<in> set fs \<and> fd_name f = s"
  by (induction fs s rule: fmt_find.induct) (auto split: if_splits)

lemma fmt_find_None: "fmt_find fs s = None \<longleftrightarrow> (\<forall>f. Some f \<in> set fs \<longrightarrow> fd_name f \<noteq> s)"
  by (induction fs s rule: fmt_find.induct) auto

lemma set_supported_formats:
  "Some f \<in> set (tl (supported_formats e T)) \<longleftrightarrow> (\<exists>t. t \<noteq> FMT_INVALID \<and> f = fmt_of e T t)"
proof
  assume "Some f \<in> set (tl (supported_formats e T))"
  then show "\<exists>t. t \<noteq> FMT_INVALID \<and> f = fmt_of e T t"
    unfolding supported_formats_def list.sel set_simps insert_iff empty_iff option.inject
    by (elim disjE) (metis fmt_of.simps format_type.distinct)+
next
  assume "\<exists>t. t \<noteq> FMT_INVALID \<and> f = fmt_of e T t"
  then obtain t where t: "t \<noteq> FMT_INVALID" "f = fmt_of e T t" by blast
  then show "Some f \<in> set (tl (supported_formats e T))"
    by (cases t) (simp_all add: supported_formats_def)
qed

lemma fmt_get_from_name_iff:
  "fmt_get_from_name e T s = Some f \<longleftrightarrow> (\<exists>t. t \<noteq> FMT_INVALID \<and> f = fmt_of e T t \<and> s = fmt_name t)"
  (is "?l \<longleftrightarrow> ?r")
proof
  assume ?l
  then show ?r
    using fmt_find_Some [of _ s f] set_supported_formats
    by (fastforce simp: fmt_get_from_name_def drop_Suc fd_name_fmt_of)
next
  assume ?r
  then obtain t where t: "t \<noteq> FMT_INVALID" "f = fmt_of e T t" "s = fmt_name t" by blast
  have in_tl: "Some f \<in> set (tl (supported_formats e T))"
    using t set_supported_formats by blast
  show ?l
  proof (cases "fmt_get_from_name e T s")
    case None
    then have "fd_name f \<noteq> s"
      using in_tl by (simp add: fmt_get_from_name_def drop_Suc fmt_find_None)
    with t show ?thesis by (simp add: fd_name_fmt_of)
  next
    case (Some g)
    then obtain u where "u \<noteq> FMT_INVALID" "g = fmt_of e T u" "s = fmt_name u"
      using fmt_find_Some [of _ s g] set_supported_formats [of g e T]
      by (fastforce simp: fmt_get_from_name_def drop_Suc fd_name_fmt_of)
    with Some t show ?thesis by (metis fmt_name_inject)
  qed
qed

section \<open>What every fixed-length format promises\<close>

fun canon_len :: "codec_type \<Rightarrow> nat" where
  "canon_len CODEC_PCM = PCM_CANON_LEN"
| "canon_len CODEC_HR = HR_CANON_LEN"
| "canon_len CODEC_FR = FR_CANON_LEN"
| "canon_len CODEC_EFR = EFR_CANON_LEN"
| "canon_len _ = 0"

text \<open>The reference functions of the converters, by format.\<close>

fun fmt_enc :: "endian \<Rightarrow> bit_tables \<Rightarrow> format_type \<Rightarrow> buf \<Rightarrow> buf" where
  "fmt_enc e T FMT_INVALID c = c"
| "fmt_enc e T FMT_AMR_EFR c = amr_efr_enc T c"
| "fmt_enc e T FMT_GSM c = add_nibble GSM_MAGIC c"
| "fmt_enc e T FMT_HR_REF_DEC c = hr_dec_frame e c"
| "fmt_enc e T FMT_HR_REF_ENC c = hr_enc_frame e c"
| "fmt_enc e T FMT_RACAL_HR c = racal_hr_enc T c"
| "fmt_enc e T FMT_RACAL_FR c = racal_fr_enc T c"
| "fmt_enc e T FMT_RACAL_EFR c = racal_efr_enc c"
| "fmt_enc e T FMT_RAWPCM_S16LE c = pcm_order e Little c"
| "fmt_enc e T FMT_TI_HR c = ti_hr_enc T c"
| "fmt_enc e T FMT_TI_FR c = ti_fr_enc T c"
| "fmt_enc e T FMT_TI_EFR c = ti_efr_enc T c"
| "fmt_enc e T FMT_RTP_EFR c = add_nibble EFR_MAGIC c"
| "fmt_enc e T FMT_RTP_HR_ETSI c = c"
| "fmt_enc e T FMT_RTP_HR_IETF c = 0 # c"
| "fmt_enc e T FMT_AMR_OPENCORE c = c"
| "fmt_enc e T FMT_RTP_AMR c = 0xf0 # c"

fun fmt_dec :: "endian \<Rightarrow> bit_tables \<Rightarrow> format_type \<Rightarrow> buf \<Rightarrow> buf" where
  "fmt_dec e T FMT_INVALID c = c"
| "fmt_dec e T FMT_AMR_EFR c = amr_efr_dec T c"
| "fmt_dec e T FMT_GSM c = drop_nibble c"
| "fmt_dec e T FMT_HR_REF_DEC c = hr_frame_canon e c"
| "fmt_dec e T FMT_HR_REF_ENC c = hr_frame_canon e c"
| "fmt_dec e T FMT_RACAL_HR c = racal_hr_dec T c"
| "fmt_dec e T FMT_RACAL_FR c = racal_fr_dec T c"
| "fmt_dec e T FMT_RACAL_EFR c = racal_efr_dec c"
| "fmt_dec e T FMT_RAWPCM_S16LE c = pcm_order Little e c"
| "fmt_dec e T FMT_TI_HR c = ti_hr_dec T c"
| "fmt_dec e T FMT_TI_FR c = ti_fr_dec T c"
| "fmt_dec e T FMT_TI_EFR c = ti_efr_dec T c"
| "fmt_dec e T FMT_RTP_EFR c = rtp_efr_dec c"
| "fmt_dec e T FMT_RTP_HR_ETSI c = c"
| "fmt_dec e T FMT_RTP_HR_IETF c = tl c"
| "fmt_dec e T FMT_AMR_OPENCORE c = c"
| "fmt_dec e T FMT_RTP_AMR c = tl c"

text \<open>The frames that a format accepts, and the canonical frames it preserves.\<close>

fun fmt_frame_ok :: "format_type \<Rightarrow> buf \<Rightarrow> bool" where
  "fmt_frame_ok FMT_AMR_EFR fr = amr_efr_frame fr"
| "fmt_frame_ok FMT_RTP_EFR fr = rtp_efr_frame fr"
| "fmt_frame_ok _ fr = True"

fun codec_canon_ok :: "codec_type \<Rightarrow> buf \<Rightarrow> bool" where
  "codec_canon_ok CODEC_PCM c = (length c = 320)"
| "codec_canon_ok CODEC_HR c = (length c = 14)"
| "codec_canon_ok CODEC_FR c = padded 260 33 c"
| "codec_canon_ok CODEC_EFR c = padded 244 31 c"
| "codec_canon_ok _ c = True"

definition fmt_canon_ok :: "endian \<Rightarrow> bit_tables \<Rightarrow> format_type \<Rightarrow> buf \<Rightarrow> bool" where
  "fmt_canon_ok e T t c \<longleftrightarrow> codec_canon_ok (fd_codec_type (fmt_of e T t)) c \<and>
     (t = FMT_RTP_EFR \<longrightarrow> c \<noteq> replicate 31 0)"

definition fixed_len :: "format_type \<Rightarrow> bool" where
  "fixed_len t \<longleftrightarrow> t \<notin> {FMT_INVALID, FMT_AMR_OPENCORE, FMT_RTP_AMR}"

text \<open>The reference functions as functions, to match them against the contracts.\<close>

lemma fmt_enc_abs:
  "fmt_enc e T FMT_INVALID = (\<lambda>c. c)"
  "fmt_enc e T FMT_AMR_EFR = amr_efr_enc T"
  "fmt_enc e T FMT_GSM = add_nibble GSM_MAGIC"
  "fmt_enc e T FMT_HR_REF_DEC = hr_dec_frame e"
  "fmt_enc e T FMT_HR_REF_ENC = hr_enc_frame e"
  "fmt_enc e T FMT_RACAL_HR = racal_hr_enc T"
  "fmt_enc e T FMT_RACAL_FR = racal_fr_enc T"
  "fmt_enc e T FMT_RACAL_EFR = racal_efr_enc"
  "fmt_enc e T FMT_RAWPCM_S16LE = pcm_order e Little"
  "fmt_enc e T FMT_TI_HR = ti_hr_enc T"
  "fmt_enc e T FMT_TI_FR = ti_fr_enc T"
  "fmt_enc e T FMT_TI_EFR = ti_efr_enc T"
  "fmt_enc e T FMT_RTP_EFR = add_nibble EFR_MAGIC"
  "fmt_enc e T FMT_RTP_HR_ETSI = (\<lambda>c. c)"
  "fmt_enc e T FMT_RTP_HR_IETF = (\<lambda>c. 0 # c)"
  "fmt_enc e T FMT_AMR_OPENCORE = (\<lambda>c. c)"
  "fmt_enc e T FMT_RTP_AMR = (\<lambda>c. 0xf0 # c)"
  by (simp_all add: fun_eq_iff)

lemma fmt_dec_abs:
  "fmt_dec e T FMT_INVALID = (\<lambda>c. c)"
  "fmt_dec e T FMT_AMR_EFR = amr_efr_dec T"
  "fmt_dec e T FMT_GSM = drop_nibble"
  "fmt_dec e T FMT_HR_REF_DEC = hr_frame_canon e"
  "fmt_dec e T FMT_HR_REF_ENC = hr_frame_canon e"
  "fmt_dec e T FMT_RACAL_HR = racal_hr_dec T"
  "fmt_dec e T FMT_RACAL_FR = racal_fr_dec T"
  "fmt_dec e T FMT_RACAL_EFR = racal_efr_dec"
  "fmt_dec e T FMT_RAWPCM_S16LE = pcm_order Little e"
  "fmt_dec e T FMT_TI_HR = ti_hr_dec T"
  "fmt_dec e T FMT_TI_FR = ti_fr_dec T"
  "fmt_dec e T FMT_TI_EFR = ti_efr_dec T"
  "fmt_dec e T FMT_RTP_EFR = rtp_efr_dec"
  "fmt_dec e T FMT_RTP_HR_ETSI = (\<lambda>c. c)"
  "fmt_dec e T FMT_RTP_HR_IETF = tl"
  "fmt_dec e T FMT_AMR_OPENCORE = (\<lambda>c. c)"
  "fmt_dec e T FMT_RTP_AMR = tl"
  by (simp_all add: fun_eq_iff)

lemma fmt_frame_ok_abs:
  "fmt_frame_ok t = (if t = FMT_AMR_EFR then amr_efr_frame
     else if t = FMT_RTP_EFR then rtp_efr_frame else (\<lambda>_. True))"
  by (cases t) (simp_all add: fun_eq_iff)

lemma ti_efr_fixed:
  assumes "good_tables T"
  shows "fixed_conv (ti_efr_from_canon T) (ti_efr_enc T) 31 33 (\<lambda>_. True)"
    and "fixed_conv (ti_efr_to_canon T) (ti_efr_dec T) 33 31 (\<lambda>_. True)"
  using assms
  by (unfold_locales, simp_all add: ti_efr_from_canon_eq ti_efr_to_canon_eq ti_efr_enc_def ti_efr_dec_def)

lemma fmt_lossless:
  assumes "good_tables T" and "fixed_len t" and "t \<noteq> FMT_TI_EFR"
  shows "lossless_format (fd_conv_from_canon (fmt_of e T t)) (fmt_enc e T t)
           (fd_conv_to_canon (fmt_of e T t)) (fmt_dec e T t)
           (canon_len (fd_codec_type (fmt_of e T t))) (fd_frame_len (fmt_of e T t))
           (fmt_frame_ok t) (fmt_canon_ok e T t)"
  using assms ti_fr_lossless ti_hr_lossless racal_fr_lossless racal_hr_lossless amr_efr_lossless
    gsm.lossless_format_axioms rtp_efr.lossless_format_axioms racal_efr.lossless_format_axioms
    hr_dec.lossless_format_axioms [of e] hr_enc.lossless_format_axioms [of e]
    rtp_hr_etsi.lossless_format_axioms rtp_hr_ietf.lossless_format_axioms
    rawpcm.lossless_format_axioms [of e]
  by (cases t)
     (simp_all add: fixed_len_def fmt_defs fmt_canon_ok_def [abs_def] efr_canon_ok_def [abs_def]
        fmt_enc_abs fmt_dec_abs fmt_frame_ok_abs)

lemma fmt_fixed_conv:
  assumes T: "good_tables T" and t: "fixed_len t"
  shows "fixed_conv (fd_conv_from_canon (fmt_of e T t)) (fmt_enc e T t)
           (canon_len (fd_codec_type (fmt_of e T t))) (fd_frame_len (fmt_of e T t)) (\<lambda>_. True)"
    and "fixed_conv (fd_conv_to_canon (fmt_of e T t)) (fmt_dec e T t)
           (fd_frame_len (fmt_of e T t)) (canon_len (fd_codec_type (fmt_of e T t))) (fmt_frame_ok t)"
proof -
  have "fixed_conv (fd_conv_from_canon (fmt_of e T t)) (fmt_enc e T t)
           (canon_len (fd_codec_type (fmt_of e T t))) (fd_frame_len (fmt_of e T t)) (\<lambda>_. True) \<and>
        fixed_conv (fd_conv_to_canon (fmt_of e T t)) (fmt_dec e T t)
           (fd_frame_len (fmt_of e T t)) (canon_len (fd_codec_type (fmt_of e T t))) (fmt_frame_ok t)"
  proof (cases "t = FMT_TI_EFR")
    case True
    then show ?thesis using ti_efr_fixed [OF T]
      by (simp add: fmt_defs fmt_enc_abs fmt_dec_abs fmt_frame_ok_abs)
  next
    case False
    then show ?thesis using fmt_lossless [OF T t False] by (blast dest: lossless_format.axioms)
  qed
  then show "fixed_conv (fd_conv_from_canon (fmt_of e T t)) (fmt_enc e T t)
           (canon_len (fd_codec_type (fmt_of e T t))) (fd_frame_len (fmt_of e T t)) (\<lambda>_. True)"
    and "fixed_conv (fd_conv_to_canon (fmt_of e T t)) (fmt_dec e T t)
           (fd_frame_len (fmt_of e T t)) (canon_len (fd_codec_type (fmt_of e T t))) (fmt_frame_ok t)"
    by blast+
qed

text \<open>
  No converter of a fixed-length format faults on a source of its input length, whatever the
  bytes: it fills its output length, or returns an error and keeps the size of the object.
\<close>

definition conv_safe :: "conv \<Rightarrow> nat \<Rightarrow> nat \<Rightarrow> bool" where
  "conv_safe f in_len out_len \<longleftrightarrow>
     (\<forall>src dst. in_len \<le> length src \<longrightarrow> out_len \<le> length dst \<longrightarrow>
        (\<exists>d rv. f dst src in_len = Inr (d, rv) \<and> length d = length dst \<and> (rv = int out_len \<or> rv < 0)))"

lemma conv_safe_fixed: "fixed_conv f g m n (\<lambda>_. True) \<Longrightarrow> conv_safe f m n"
  unfolding conv_safe_def using fixed_conv.no_fault by fastforce

lemma conv_safe_amr_efr:
  assumes "good_tables T"
  shows "conv_safe (amr_efr_to_canon T) 32 31"
  unfolding conv_safe_def
proof (intro allI impI)
  fix src dst :: buf assume l: "32 \<le> length src" "31 \<le> length dst"
  show "\<exists>d rv. amr_efr_to_canon T dst src 32 = Inr (d, rv) \<and> length d = length dst \<and>
          (rv = int 31 \<or> rv < 0)"
  proof (cases "src ! 0 = 0x3c")
    case True
    then have "amr_efr_frame (take 32 src)" using l by (simp add: amr_efr_frame_def)
    then show ?thesis
      using fixed_conv.no_fault [OF lossless_format.axioms(2) [OF amr_efr_lossless [OF assms]], of src dst] l
      by auto
  next
    case False
    then show ?thesis using l by (simp add: amr_efr_to_canon_bad_magic)
  qed
qed

lemma fmt_conv_safe:
  assumes T: "good_tables T" and t: "fixed_len t"
  shows "conv_safe (fd_conv_from_canon (fmt_of e T t)) (canon_len (fd_codec_type (fmt_of e T t)))
           (fd_frame_len (fmt_of e T t))"
    and "conv_safe (fd_conv_to_canon (fmt_of e T t)) (fd_frame_len (fmt_of e T t))
           (canon_len (fd_codec_type (fmt_of e T t)))"
proof -
  show "conv_safe (fd_conv_from_canon (fmt_of e T t)) (canon_len (fd_codec_type (fmt_of e T t)))
           (fd_frame_len (fmt_of e T t))"
    by (rule conv_safe_fixed [OF fmt_fixed_conv(1) [OF T t]])
  have rtp: "fixed_conv rtp_efr_to_canon rtp_efr_dec 31 31 (\<lambda>_. True)"
    by unfold_locales (simp_all add: rtp_efr_to_canon_eq rtp_efr.to_canon.length_g)
  consider "t = FMT_AMR_EFR" | "t = FMT_RTP_EFR" | "t \<noteq> FMT_AMR_EFR" "t \<noteq> FMT_RTP_EFR" by blast
  then show "conv_safe (fd_conv_to_canon (fmt_of e T t)) (fd_frame_len (fmt_of e T t))
           (canon_len (fd_codec_type (fmt_of e T t)))"
  proof cases
    case 1
    then show ?thesis using conv_safe_amr_efr [OF T] by (simp add: fmt_defs)
  next
    case 2
    then show ?thesis using conv_safe_fixed [OF rtp] by (simp add: fmt_defs)
  next
    case 3
    then have "fmt_frame_ok t = (\<lambda>_. True)" by (simp add: fmt_frame_ok_abs)
    then show ?thesis using conv_safe_fixed fmt_fixed_conv(2) [OF T t] by metis
  qed
qed

end
