(* ===== verification/Codecs.thy ===== *)
theory Codecs
  imports Item_State Bench Formats
begin

text \<open>
  The codecs (\<^verbatim>\<open>src/codecs.c\<close>, \<^verbatim>\<open>src/codec_pcm.c\<close>, \<^verbatim>\<open>src/codec_hr.c\<close>, \<^verbatim>\<open>src/codec_fr.c\<close>,
  \<^verbatim>\<open>src/codec_efr.c\<close>, \<^verbatim>\<open>src/codec_amr.c\<close>) and the error concealment unit of the full-rate codec
  (\<^verbatim>\<open>src/ecu_fr.c\<close>).

  The codec libraries (libgsm, libgsmhr, opencore-amrnb) and the concealment of libosmocodec
  are the parameter \<open>L\<close>; which of them the program is built with is the parameter \<open>C\<close>. A
  library call gets the bytes it may read and returns the bytes it writes, which the
  wrapper stores into the caller's object. \<open>libs_ok L\<close> states the sizes that the libraries
  document.
\<close>

record build_cfg =
  have_libgsm :: bool
  have_libgsmhr :: bool
  have_opencore :: bool
  have_alsa :: bool

record 'c codec_libs =
  lib_gsm_create :: "'c option"
  lib_gsm_encode :: "'c \<Rightarrow> buf \<Rightarrow> 'c \<times> buf"
  lib_gsm_decode :: "'c \<Rightarrow> buf \<Rightarrow> int \<times> 'c \<times> buf"
  lib_gsmhr_init :: "'c option"
  lib_gsmhr_encode :: "'c \<Rightarrow> buf \<Rightarrow> int \<times> 'c \<times> buf"
  lib_gsmhr_decode :: "'c \<Rightarrow> buf \<Rightarrow> int \<times> 'c \<times> buf"
  lib_amr_enc_init :: 'c
  lib_amr_dec_init :: 'c
  lib_amr_encode :: "'c \<Rightarrow> buf \<Rightarrow> int \<times> 'c \<times> buf"  \<comment> \<open>\<^verbatim>\<open>Encoder_Interface_Encode\<close> in mode MR122\<close>
  lib_amr_decode :: "'c \<Rightarrow> buf \<Rightarrow> 'c \<times> buf"
  lib_ecu_zero :: 'c  \<comment> \<open>a zeroed \<^verbatim>\<open>struct osmo_ecu_fr_state\<close>\<close>
  lib_ecu_backup :: "'c \<Rightarrow> buf"  \<comment> \<open>its field \<^verbatim>\<open>frame_backup\<close>\<close>
  lib_ecu_reset :: "'c \<Rightarrow> buf \<Rightarrow> 'c"
  lib_ecu_conceal :: "'c \<Rightarrow> int \<times> 'c \<times> buf"

definition libs_ok :: "'c codec_libs \<Rightarrow> bool" where
  "libs_ok L \<longleftrightarrow>
     (\<forall>h x. length (snd (lib_gsm_encode L h x)) = 33) \<and>
     (\<forall>h x. length (snd (snd (lib_gsm_decode L h x))) = 320) \<and>
     (\<forall>h x. length (snd (snd (lib_gsmhr_encode L h x))) = 40) \<and>
     (\<forall>h x. length (snd (snd (lib_gsmhr_decode L h x))) = 320) \<and>
     (\<forall>h x. length (snd (snd (lib_amr_encode L h x))) \<le> 32 \<and>
            fst (lib_amr_encode L h x) = int (length (snd (snd (lib_amr_encode L h x))))) \<and>
     (\<forall>h x. length (snd (lib_amr_decode L h x)) = 320) \<and>
     (\<forall>h. length (lib_ecu_backup L h) = 33) \<and>
     (\<forall>h. length (snd (snd (lib_ecu_conceal L h))) = 33 \<and> fst (lib_ecu_conceal L h) \<le> 0)"

lemma libs_okD:
  assumes "libs_ok L"
  shows "lib_gsm_encode L h x = (h2, y) \<Longrightarrow> length y = 33"
    and "lib_gsm_decode L h x = (rc, h2, y) \<Longrightarrow> length y = 320"
    and "lib_gsmhr_encode L h x = (rc, h2, y) \<Longrightarrow> length y = 40"
    and "lib_gsmhr_decode L h x = (rc, h2, y) \<Longrightarrow> length y = 320"
    and "lib_amr_encode L h x = (rc, h2, y) \<Longrightarrow> length y \<le> 32 \<and> rc = int (length y)"
    and "lib_amr_decode L h x = (h2, y) \<Longrightarrow> length y = 320"
    and "length (lib_ecu_backup L h) = 33"
    and "lib_ecu_conceal L h = (rc, h2, y) \<Longrightarrow> length y = 33 \<and> rc \<le> 0"
  using assms unfolding libs_ok_def by (metis fst_conv snd_conv)+

section \<open>Descriptors\<close>

record ('c, 'x) codec_desc =
  cd_type :: codec_type
  cd_description :: string
  cd_name :: string
  cd_canon_frame_len :: nat
  cd_enc_format_type :: format_type
  cd_dec_format_type :: format_type
  cd_init :: "('x world \<Rightarrow> 'c codec_state option \<times> 'x world) option"
  cd_exit :: "('c item_state option \<Rightarrow> 'x world \<Rightarrow> 'x world res) option"
  cd_encode :: "('c, 'x) callback option"
  cd_decode :: "('c, 'x) callback option"
  cd_ecu_proc :: "('c, 'x) callback option"

text \<open>Reading \<open>n\<close> bytes behind a pointer, and storing what a library call wrote.\<close>

definition input_bytes :: "nat \<Rightarrow> buf option \<Rightarrow> buf res" where
  "input_bytes n p = bind_r (deref p) (\<lambda>b. if n \<le> length b then Inr (take n b) else Inl Out_Of_Bounds)"

definition store_output :: "buf \<Rightarrow> buf option \<Rightarrow> buf res" where
  "store_output x out = bind_r (deref out) (\<lambda>d. memcpy_c d 0 x 0 (length x))"

text \<open>A library call between \<^verbatim>\<open>BENCHMARK_START\<close> and \<^verbatim>\<open>BENCHMARK_STOP\<close>.\<close>

definition benchmarked ::
    "codec_type \<Rightarrow> bool \<Rightarrow> (buf option \<Rightarrow> ('r \<times> buf) res) \<Rightarrow> buf option \<Rightarrow> 'x world \<Rightarrow>
     ('r \<times> buf \<times> 'x world) res" where
  "benchmarked codec encode call out w =
     (let (start, w) = bench_start w
      in bind_r (call out) (\<lambda>(r, d).
         bind_r (bench_stop (codec_num codec) encode start w) (\<lambda>w.
         Inr (r, d, w))))"

section \<open>Full rate: \<^verbatim>\<open>src/codec_fr.c\<close>\<close>

definition codec_fr_init :: "'c codec_libs \<Rightarrow> 'x world \<Rightarrow> 'c codec_state option \<times> 'x world" where
  "codec_fr_init L w = (map_option Lib_State (lib_gsm_create L), w)"

definition codec_fr_exit :: "'c item_state option \<Rightarrow> 'x world \<Rightarrow> 'x world res" where
  "codec_fr_exit st w = Inr w"

definition codec_fr_encode :: "'c codec_libs \<Rightarrow> ('c, 'x) callback" where
  "codec_fr_encode L st cod pcm pcm_len w =
     (case st of
        Some (St_Codec (Lib_State gh)) \<Rightarrow>
          bind_r (assert_c (pcm_len = PCM_CANON_LEN)) (\<lambda>_.
          bind_r (input_bytes PCM_CANON_LEN pcm) (\<lambda>pcm_b.
          bind_r (benchmarked CODEC_FR True (\<lambda>cod.
                    let (gh, x) = lib_gsm_encode L gh pcm_b
                    in bind_r (store_output x cod) (\<lambda>d. Inr (gh, d))) cod w) (\<lambda>(gh, d, w).
          Inr (int FR_CANON_LEN, Some (St_Codec (Lib_State gh)), Some d, w))))
      | _ \<Rightarrow> Inl Bad_State)"

definition codec_fr_decode :: "'c codec_libs \<Rightarrow> ('c, 'x) callback" where
  "codec_fr_decode L st pcm cod cod_len w =
     (case st of
        Some (St_Codec (Lib_State gh)) \<Rightarrow>
          bind_r (assert_c (cod_len = FR_CANON_LEN)) (\<lambda>_.
          bind_r (input_bytes FR_CANON_LEN cod) (\<lambda>cod_b.
          bind_r (benchmarked CODEC_FR False (\<lambda>pcm.
                    let (rc, gh, x) = lib_gsm_decode L gh cod_b
                    in bind_r (store_output x pcm) (\<lambda>d. Inr ((rc, gh), d))) pcm w) (\<lambda>((rc, gh), d, w).
          Inr (if rc < 0 then rc else int PCM_CANON_LEN, Some (St_Codec (Lib_State gh)), Some d, w))))
      | _ \<Rightarrow> Inl Bad_State)"

section \<open>Half rate: \<^verbatim>\<open>src/codec_hr.c\<close>\<close>

definition codec_hr_init :: "'c codec_libs \<Rightarrow> 'x world \<Rightarrow> 'c codec_state option \<times> 'x world" where
  "codec_hr_init L w = (map_option Lib_State (lib_gsmhr_init L), w)"

definition codec_hr_exit :: "'c item_state option \<Rightarrow> 'x world \<Rightarrow> 'x world res" where
  "codec_hr_exit st w = Inr w"

definition codec_hr_encode :: "'c codec_libs \<Rightarrow> ('c, 'x) callback" where
  "codec_hr_encode L st cod pcm pcm_len w =
     (case st of
        Some (St_Codec (Lib_State h)) \<Rightarrow>
          bind_r (assert_c (pcm_len = PCM_CANON_LEN)) (\<lambda>_.
          bind_r (input_bytes PCM_CANON_LEN pcm) (\<lambda>p.
          bind_r (benchmarked CODEC_HR True (\<lambda>cod.
                    let (rc, h, x) = lib_gsmhr_encode L h p
                    in bind_r (store_output x cod) (\<lambda>d. Inr ((rc, h), d))) cod w) (\<lambda>((rc, h), d, w).
          Inr (if rc < 0 then rc else int HR_REF_ENC_LEN, Some (St_Codec (Lib_State h)), Some d, w))))
      | _ \<Rightarrow> Inl Bad_State)"

definition codec_hr_decode :: "'c codec_libs \<Rightarrow> ('c, 'x) callback" where
  "codec_hr_decode L st pcm cod cod_len w =
     (case st of
        Some (St_Codec (Lib_State h)) \<Rightarrow>
          bind_r (assert_c (cod_len = HR_REF_DEC_LEN)) (\<lambda>_.
          bind_r (input_bytes HR_REF_DEC_LEN cod) (\<lambda>c.
          bind_r (benchmarked CODEC_HR False (\<lambda>pcm.
                    let (rc, h, x) = lib_gsmhr_decode L h c
                    in bind_r (store_output x pcm) (\<lambda>d. Inr ((rc, h), d))) pcm w) (\<lambda>((rc, h), d, w).
          Inr (if rc < 0 then rc else int PCM_CANON_LEN, Some (St_Codec (Lib_State h)), Some d, w))))
      | _ \<Rightarrow> Inl Bad_State)"

section \<open>Enhanced full rate and AMR: \<^verbatim>\<open>src/codec_efr.c\<close>, \<^verbatim>\<open>src/codec_amr.c\<close>\<close>

definition codec_efr_init :: "'c codec_libs \<Rightarrow> 'x world \<Rightarrow> 'c codec_state option \<times> 'x world" where
  "codec_efr_init L w =
     (case alloc w of
        (False, w) \<Rightarrow> (None, w)
      | (True, w) \<Rightarrow> (Some (Enc_Dec_State (lib_amr_enc_init L) (lib_amr_dec_init L)), w))"

definition codec_efr_exit :: "'c item_state option \<Rightarrow> 'x world \<Rightarrow> 'x world res" where
  "codec_efr_exit st w =
     (case st of Some (St_Codec (Enc_Dec_State en de)) \<Rightarrow> Inr (release w) | _ \<Rightarrow> Inl Bad_State)"

definition codec_efr_encode :: "'c codec_libs \<Rightarrow> ('c, 'x) callback" where
  "codec_efr_encode L st cod pcm pcm_len w =
     (case st of
        Some (St_Codec (Enc_Dec_State en de)) \<Rightarrow>
          bind_r (assert_c (pcm_len = PCM_CANON_LEN)) (\<lambda>_.
          bind_r (input_bytes PCM_CANON_LEN pcm) (\<lambda>p.
          bind_r (benchmarked CODEC_EFR True (\<lambda>cod.
                    let (rv, en, x) = lib_amr_encode L en p
                    in bind_r (store_output x cod) (\<lambda>d. Inr ((rv, en), d))) cod w) (\<lambda>((rv, en), d, w).
          Inr (if rv \<noteq> 32 then -1 else 32, Some (St_Codec (Enc_Dec_State en de)), Some d, w))))
      | _ \<Rightarrow> Inl Bad_State)"

definition codec_efr_decode :: "'c codec_libs \<Rightarrow> ('c, 'x) callback" where
  "codec_efr_decode L st pcm cod cod_len w =
     (case st of
        Some (St_Codec (Enc_Dec_State en de)) \<Rightarrow>
          bind_r (assert_c (cod_len = 32)) (\<lambda>_.
          bind_r (input_bytes 32 cod) (\<lambda>c.
          bind_r (benchmarked CODEC_EFR False (\<lambda>pcm.
                    let (de, x) = lib_amr_decode L de c
                    in bind_r (store_output x pcm) (\<lambda>d. Inr (de, d))) pcm w) (\<lambda>(de, d, w).
          Inr (int PCM_CANON_LEN, Some (St_Codec (Enc_Dec_State en de)), Some d, w))))
      | _ \<Rightarrow> Inl Bad_State)"

definition codec_amr_init :: "'c codec_libs \<Rightarrow> 'x world \<Rightarrow> 'c codec_state option \<times> 'x world" where
  "codec_amr_init L w =
     (case alloc w of
        (False, w) \<Rightarrow> (None, w)
      | (True, w) \<Rightarrow> (Some (Enc_Dec_State (lib_amr_enc_init L) (lib_amr_dec_init L)), w))"

definition codec_amr_exit :: "'c item_state option \<Rightarrow> 'x world \<Rightarrow> 'x world res" where
  "codec_amr_exit st w =
     (case st of Some (St_Codec (Enc_Dec_State en de)) \<Rightarrow> Inr (release w) | _ \<Rightarrow> Inl Bad_State)"

text \<open>
  The AMR wrappers do not look at the length they are given: the encoder reads the 160
  samples of a frame, the decoder as many bytes as the frame header says, from an object
  that the decoder sees whole.
\<close>

definition codec_amr_encode :: "'c codec_libs \<Rightarrow> ('c, 'x) callback" where
  "codec_amr_encode L st cod pcm pcm_len w =
     (case st of
        Some (St_Codec (Enc_Dec_State en de)) \<Rightarrow>
          bind_r (input_bytes PCM_CANON_LEN pcm) (\<lambda>p.
          bind_r (benchmarked CODEC_AMR True (\<lambda>cod.
                    let (rv, en, x) = lib_amr_encode L en p
                    in bind_r (store_output x cod) (\<lambda>d. Inr ((rv, en), d))) cod w) (\<lambda>((rv, en), d, w).
          Inr (rv, Some (St_Codec (Enc_Dec_State en de)), Some d, w)))
      | _ \<Rightarrow> Inl Bad_State)"

definition codec_amr_decode :: "'c codec_libs \<Rightarrow> ('c, 'x) callback" where
  "codec_amr_decode L st pcm cod cod_len w =
     (case st of
        Some (St_Codec (Enc_Dec_State en de)) \<Rightarrow>
          bind_r (deref cod) (\<lambda>c.
          bind_r (benchmarked CODEC_AMR False (\<lambda>pcm.
                    let (de, x) = lib_amr_decode L de c
                    in bind_r (store_output x pcm) (\<lambda>d. Inr (de, d))) pcm w) (\<lambda>(de, d, w).
          Inr (int PCM_CANON_LEN, Some (St_Codec (Enc_Dec_State en de)), Some d, w)))
      | _ \<Rightarrow> Inl Bad_State)"

section \<open>Error concealment: \<^verbatim>\<open>src/ecu_fr.c\<close>\<close>

definition ecu_proc_fr :: "'c codec_libs \<Rightarrow> ('c, 'x) callback" where
  "ecu_proc_fr L st out inp in_len w =
     (case st of
        Some (St_Ecu state) \<Rightarrow>
          bind_r (assert_c (in_len = FR_CANON_LEN)) (\<lambda>_.
          bind_r (input_bytes in_len inp) (\<lambda>b.
          let bfi = (\<not> (\<exists>i \<in> {1..<in_len}. b ! i \<noteq> 0)) in
          if \<not> bfi then
            bind_r (store_output b out) (\<lambda>d.
            Inr (int in_len, Some (St_Ecu (lib_ecu_reset L state b)), Some d, w))
          else
            let backup = (\<exists>i \<in> {0..<in_len}. lib_ecu_backup L state ! i \<noteq> 0) in
            if \<not> backup then
              bind_r (store_output b out) (\<lambda>d. Inr (int in_len, st, Some d, w))
            else
              let (rc, state, x) = lib_ecu_conceal L state in
              bind_r (store_output x out) (\<lambda>d.
              Inr (if rc \<noteq> 0 then rc else int in_len, Some (St_Ecu state), Some d, w))))
      | _ \<Rightarrow> Inl Bad_State)"

section \<open>The table: \<^verbatim>\<open>src/codecs.c\<close>\<close>

definition codec_pcm_desc :: "('c, 'x) codec_desc" where
  "codec_pcm_desc =
     \<lparr>cd_type = CODEC_PCM, cd_description = ''Raw PCM signed 16 bits samples'', cd_name = ''pcm'',
      cd_canon_frame_len = PCM_CANON_LEN, cd_enc_format_type = FMT_INVALID,
      cd_dec_format_type = FMT_INVALID, cd_init = None, cd_exit = None, cd_encode = None,
      cd_decode = None, cd_ecu_proc = None\<rparr>"

definition if_built :: "bool \<Rightarrow> 'a \<Rightarrow> 'a option" where
  "if_built p x = (if p then Some x else None)"

definition codec_hr_desc :: "build_cfg \<Rightarrow> 'c codec_libs \<Rightarrow> ('c, 'x) codec_desc" where
  "codec_hr_desc C L =
     (let h = have_libgsmhr C in
     \<lparr>cd_type = CODEC_HR, cd_description = ''GSM 06.20 Half Rate codec'', cd_name = ''hr'',
      cd_canon_frame_len = HR_CANON_LEN,
      cd_enc_format_type = (if h then FMT_HR_REF_ENC else FMT_INVALID),
      cd_dec_format_type = (if h then FMT_HR_REF_DEC else FMT_INVALID),
      cd_init = if_built h (codec_hr_init L), cd_exit = if_built h codec_hr_exit,
      cd_encode = if_built h (codec_hr_encode L), cd_decode = if_built h (codec_hr_decode L),
      cd_ecu_proc = None\<rparr>)"

definition codec_fr_desc :: "build_cfg \<Rightarrow> 'c codec_libs \<Rightarrow> ('c, 'x) codec_desc" where
  "codec_fr_desc C L =
     (let h = have_libgsm C in
     \<lparr>cd_type = CODEC_FR, cd_description = ''GSM 06.10 Full Rate codec (classic gsm codec)'',
      cd_name = ''fr'', cd_canon_frame_len = FR_CANON_LEN,
      cd_enc_format_type = (if h then FMT_GSM else FMT_INVALID),
      cd_dec_format_type = (if h then FMT_GSM else FMT_INVALID),
      cd_init = if_built h (codec_fr_init L), cd_exit = if_built h codec_fr_exit,
      cd_encode = if_built h (codec_fr_encode L), cd_decode = if_built h (codec_fr_decode L),
      cd_ecu_proc = Some (ecu_proc_fr L)\<rparr>)"

definition codec_efr_desc :: "build_cfg \<Rightarrow> 'c codec_libs \<Rightarrow> ('c, 'x) codec_desc" where
  "codec_efr_desc C L =
     (let h = have_opencore C in
     \<lparr>cd_type = CODEC_EFR, cd_description = ''GSM 06.60 Enhanced Full Rate codec'', cd_name = ''efr'',
      cd_canon_frame_len = EFR_CANON_LEN,
      cd_enc_format_type = (if h then FMT_AMR_EFR else FMT_INVALID),
      cd_dec_format_type = (if h then FMT_AMR_EFR else FMT_INVALID),
      cd_init = if_built h (codec_efr_init L), cd_exit = if_built h codec_efr_exit,
      cd_encode = if_built h (codec_efr_encode L), cd_decode = if_built h (codec_efr_decode L),
      cd_ecu_proc = None\<rparr>)"

definition codec_amr_desc :: "build_cfg \<Rightarrow> 'c codec_libs \<Rightarrow> ('c, 'x) codec_desc" where
  "codec_amr_desc C L =
     (let h = have_opencore C in
     \<lparr>cd_type = CODEC_AMR, cd_description = ''GSM 26.071 Adaptive Multi Rate codec'', cd_name = ''amr'',
      cd_canon_frame_len = 0,
      cd_enc_format_type = (if h then FMT_AMR_OPENCORE else FMT_INVALID),
      cd_dec_format_type = (if h then FMT_AMR_OPENCORE else FMT_INVALID),
      cd_init = if_built h (codec_amr_init L), cd_exit = if_built h codec_amr_exit,
      cd_encode = if_built h (codec_amr_encode L), cd_decode = if_built h (codec_amr_decode L),
      cd_ecu_proc = None\<rparr>)"

fun codec_get_from_type :: "build_cfg \<Rightarrow> 'c codec_libs \<Rightarrow> codec_type \<Rightarrow> ('c, 'x) codec_desc option" where
  "codec_get_from_type C L CODEC_PCM = Some codec_pcm_desc"
| "codec_get_from_type C L CODEC_HR = Some (codec_hr_desc C L)"
| "codec_get_from_type C L CODEC_FR = Some (codec_fr_desc C L)"
| "codec_get_from_type C L CODEC_EFR = Some (codec_efr_desc C L)"
| "codec_get_from_type C L CODEC_AMR = Some (codec_amr_desc C L)"
| "codec_get_from_type C L CODEC_INVALID = None"

lemmas codec_descs = codec_pcm_desc_def codec_hr_desc_def codec_fr_desc_def codec_efr_desc_def
  codec_amr_desc_def

section \<open>The contracts of the callbacks\<close>

text \<open>
  \<open>quiet W\<close>: the condition \<open>W\<close> on the world is indifferent to the clock and to the benchmark
  counters, which is all that the codecs touch.
\<close>

definition quiet :: "('x world \<Rightarrow> bool) \<Rightarrow> bool" where
  "quiet W \<longleftrightarrow> (\<forall>w c b. W w \<longrightarrow> W (w\<lparr>w_clock := c, w_bench := b\<rparr>))"

lemma quietD: "quiet W \<Longrightarrow> W w \<Longrightarrow> W (w\<lparr>w_clock := c, w_bench := b\<rparr>)"
  by (simp add: quiet_def)

lemma quiet_True [simp]: "quiet (\<lambda>_. True)"
  by (simp add: quiet_def)

lemma get_cycles_quiet: "\<exists>t c. get_cycles w = (t, w\<lparr>w_clock := c\<rparr>)"
  by (cases "w_clock w") (auto simp: get_cycles_def intro: exI [of _ "w_clock w"])

lemma bench_stop_quiet: "\<exists>c b. bench_stop k enc s w = Inr (w\<lparr>w_clock := c, w_bench := b\<rparr>)"
proof -
  obtain t c where t: "get_cycles w = (t, w\<lparr>w_clock := c\<rparr>)" using get_cycles_quiet by blast
  show ?thesis
  proof (cases "w_bench w k")
    case None
    then have "bench_stop k enc s w = Inr (w\<lparr>w_clock := c, w_bench := w_bench w\<rparr>)"
      using t by (simp add: bench_stop_def)
    then show ?thesis by blast
  next
    case (Some bc)
    obtain bc' where "bench_record enc (t - s) bc = Inr bc'" using bench_record_ok by blast
    then have "bench_stop k enc s w = Inr (w\<lparr>w_clock := c, w_bench := (w_bench w)(k := Some bc')\<rparr>)"
      using t Some by (simp add: bench_stop_def)
    then show ?thesis by blast
  qed
qed

lemma benchmarked_quiet:
  assumes "call out = Inr (r, d)"
  shows "\<exists>c b. benchmarked codec enc call out w = Inr (r, d, w\<lparr>w_clock := c, w_bench := b\<rparr>)"
proof -
  obtain t c where t: "get_cycles w = (t, w\<lparr>w_clock := c\<rparr>)" using get_cycles_quiet by blast
  obtain c' b where "bench_stop (codec_num codec) enc t (w\<lparr>w_clock := c\<rparr>) =
      Inr (w\<lparr>w_clock := c, w_clock := c', w_bench := b\<rparr>)"
    using bench_stop_quiet by blast
  then show ?thesis using t assms by (auto simp: benchmarked_def bench_start_def)
qed

lemma input_frame: "frame m inp n \<Longrightarrow> \<exists>x. input_bytes m inp = Inr x \<and> length x = m"
  by (auto simp: frame_def holds_def input_bytes_def)

lemma store_output_ok:
  assumes "holds k out" and "length x \<le> k"
  shows "\<exists>d. store_output x out = Inr d \<and> k \<le> length d"
  using assms by (auto simp: holds_def store_output_def mem_simps)

definition lib_st :: "'c item_state option \<Rightarrow> bool" where
  "lib_st st \<longleftrightarrow> (\<exists>h. st = Some (St_Codec (Lib_State h)))"

definition enc_dec_st :: "'c item_state option \<Rightarrow> bool" where
  "enc_dec_st st \<longleftrightarrow> (\<exists>e d. st = Some (St_Codec (Enc_Dec_State e d)))"

text \<open>
  The common step: the result of a benchmarked library call that stores \<open>x\<close>, whatever the
  continuation makes of it.
\<close>

lemma benchmarked_store:
  assumes "holds k out" and "length x \<le> k"
  shows "\<exists>d c b. benchmarked codec enc (\<lambda>out. bind_r (store_output x out) (\<lambda>d. Inr (r, d))) out w =
           Inr (r, d, w\<lparr>w_clock := c, w_bench := b\<rparr>) \<and> k \<le> length d"
proof -
  obtain d where d: "store_output x out = Inr d" "k \<le> length d" using store_output_ok [OF assms] by blast
  then show ?thesis
    using benchmarked_quiet [of "\<lambda>out. bind_r (store_output x out) (\<lambda>d. Inr (r, d))" out r d codec enc w]
    by auto
qed

lemma codec_fr_encode_stage:
  fixes L :: "'c codec_libs" and W :: "'x world \<Rightarrow> bool"
  assumes L: "libs_ok L" and W: "quiet W"
  shows "stage (codec_fr_encode L) lib_st W (holds 33) (frame 320) (frame 33)"
proof unfold_locales
  fix st :: "'c item_state option" and w :: "'x world" and out inp :: "buf option" and n :: nat
  assume st: "lib_st st" and w: "W w" and out: "holds 33 out" and inp: "frame 320 inp n"
  obtain h where st: "st = Some (St_Codec (Lib_State h))" using st by (auto simp: lib_st_def)
  obtain x where x: "input_bytes 320 inp = Inr x" using input_frame [OF inp] by blast
  obtain h2 y where c: "lib_gsm_encode L h x = (h2, y)" by fastforce
  have "length y \<le> 33" using libs_okD(1) [OF L c] by simp
  then obtain d cl b where "benchmarked CODEC_FR True (\<lambda>out. bind_r (store_output y out) (\<lambda>d. Inr (h2, d))) out w =
      Inr (h2, d, w\<lparr>w_clock := cl, w_bench := b\<rparr>)" "33 \<le> length d"
    using benchmarked_store [OF out, of y CODEC_FR True "h2" w] by auto
  then show "\<exists>rv st' out' w'. codec_fr_encode L st out inp n w = Inr (rv, st', out', w') \<and> lib_st st' \<and> W w' \<and>
      holds 33 out' \<and> (0 \<le> rv \<longrightarrow> frame 33 out' (nat rv))"
    using inp st x c quietD [OF W w, where c = cl and b = b]
    by (auto simp: codec_fr_encode_def frame_def lib_st_def mem_simps)
qed

lemma codec_fr_decode_stage:
  fixes L :: "'c codec_libs" and W :: "'x world \<Rightarrow> bool"
  assumes L: "libs_ok L" and W: "quiet W"
  shows "stage (codec_fr_decode L) lib_st W (holds 320) (frame 33) (frame 320)"
proof unfold_locales
  fix st :: "'c item_state option" and w :: "'x world" and out inp :: "buf option" and n :: nat
  assume st: "lib_st st" and w: "W w" and out: "holds 320 out" and inp: "frame 33 inp n"
  obtain h where st: "st = Some (St_Codec (Lib_State h))" using st by (auto simp: lib_st_def)
  obtain x where x: "input_bytes 33 inp = Inr x" using input_frame [OF inp] by blast
  obtain rc h2 y where c: "lib_gsm_decode L h x = (rc, h2, y)" by (metis prod_cases3)
  have "length y \<le> 320" using libs_okD(2) [OF L c] by simp
  then obtain d cl b where "benchmarked CODEC_FR False (\<lambda>out. bind_r (store_output y out) (\<lambda>d. Inr ((rc, h2), d))) out w =
      Inr ((rc, h2), d, w\<lparr>w_clock := cl, w_bench := b\<rparr>)" "320 \<le> length d"
    using benchmarked_store [OF out, of y CODEC_FR False "(rc, h2)" w] by auto
  then show "\<exists>rv st' out' w'. codec_fr_decode L st out inp n w = Inr (rv, st', out', w') \<and> lib_st st' \<and> W w' \<and>
      holds 320 out' \<and> (0 \<le> rv \<longrightarrow> frame 320 out' (nat rv))"
    using inp st x c quietD [OF W w, where c = cl and b = b]
    by (auto simp: codec_fr_decode_def frame_def lib_st_def mem_simps)
qed

lemma codec_hr_encode_stage:
  fixes L :: "'c codec_libs" and W :: "'x world \<Rightarrow> bool"
  assumes L: "libs_ok L" and W: "quiet W"
  shows "stage (codec_hr_encode L) lib_st W (holds 40) (frame 320) (frame 40)"
proof unfold_locales
  fix st :: "'c item_state option" and w :: "'x world" and out inp :: "buf option" and n :: nat
  assume st: "lib_st st" and w: "W w" and out: "holds 40 out" and inp: "frame 320 inp n"
  obtain h where st: "st = Some (St_Codec (Lib_State h))" using st by (auto simp: lib_st_def)
  obtain x where x: "input_bytes 320 inp = Inr x" using input_frame [OF inp] by blast
  obtain rc h2 y where c: "lib_gsmhr_encode L h x = (rc, h2, y)" by (metis prod_cases3)
  have "length y \<le> 40" using libs_okD(3) [OF L c] by simp
  then obtain d cl b where "benchmarked CODEC_HR True (\<lambda>out. bind_r (store_output y out) (\<lambda>d. Inr ((rc, h2), d))) out w =
      Inr ((rc, h2), d, w\<lparr>w_clock := cl, w_bench := b\<rparr>)" "40 \<le> length d"
    using benchmarked_store [OF out, of y CODEC_HR True "(rc, h2)" w] by auto
  then show "\<exists>rv st' out' w'. codec_hr_encode L st out inp n w = Inr (rv, st', out', w') \<and> lib_st st' \<and> W w' \<and>
      holds 40 out' \<and> (0 \<le> rv \<longrightarrow> frame 40 out' (nat rv))"
    using inp st x c quietD [OF W w, where c = cl and b = b]
    by (auto simp: codec_hr_encode_def frame_def lib_st_def mem_simps)
qed

lemma codec_hr_decode_stage:
  fixes L :: "'c codec_libs" and W :: "'x world \<Rightarrow> bool"
  assumes L: "libs_ok L" and W: "quiet W"
  shows "stage (codec_hr_decode L) lib_st W (holds 320) (frame 44) (frame 320)"
proof unfold_locales
  fix st :: "'c item_state option" and w :: "'x world" and out inp :: "buf option" and n :: nat
  assume st: "lib_st st" and w: "W w" and out: "holds 320 out" and inp: "frame 44 inp n"
  obtain h where st: "st = Some (St_Codec (Lib_State h))" using st by (auto simp: lib_st_def)
  obtain x where x: "input_bytes 44 inp = Inr x" using input_frame [OF inp] by blast
  obtain rc h2 y where c: "lib_gsmhr_decode L h x = (rc, h2, y)" by (metis prod_cases3)
  have "length y \<le> 320" using libs_okD(4) [OF L c] by simp
  then obtain d cl b where "benchmarked CODEC_HR False (\<lambda>out. bind_r (store_output y out) (\<lambda>d. Inr ((rc, h2), d))) out w =
      Inr ((rc, h2), d, w\<lparr>w_clock := cl, w_bench := b\<rparr>)" "320 \<le> length d"
    using benchmarked_store [OF out, of y CODEC_HR False "(rc, h2)" w] by auto
  then show "\<exists>rv st' out' w'. codec_hr_decode L st out inp n w = Inr (rv, st', out', w') \<and> lib_st st' \<and> W w' \<and>
      holds 320 out' \<and> (0 \<le> rv \<longrightarrow> frame 320 out' (nat rv))"
    using inp st x c quietD [OF W w, where c = cl and b = b]
    by (auto simp: codec_hr_decode_def frame_def lib_st_def mem_simps)
qed

lemma codec_efr_encode_stage:
  fixes L :: "'c codec_libs" and W :: "'x world \<Rightarrow> bool"
  assumes L: "libs_ok L" and W: "quiet W"
  shows "stage (codec_efr_encode L) enc_dec_st W (holds 32) (frame 320) (frame 32)"
proof unfold_locales
  fix st :: "'c item_state option" and w :: "'x world" and out inp :: "buf option" and n :: nat
  assume st: "enc_dec_st st" and w: "W w" and out: "holds 32 out" and inp: "frame 320 inp n"
  obtain en de where st: "st = Some (St_Codec (Enc_Dec_State en de))" using st by (auto simp: enc_dec_st_def)
  obtain x where x: "input_bytes 320 inp = Inr x" using input_frame [OF inp] by blast
  obtain rc h2 y where c: "lib_amr_encode L en x = (rc, h2, y)" by (metis prod_cases3)
  have "length y \<le> 32" using libs_okD(5) [OF L c] by simp
  then obtain d cl b where "benchmarked CODEC_EFR True (\<lambda>out. bind_r (store_output y out) (\<lambda>d. Inr ((rc, h2), d))) out w =
      Inr ((rc, h2), d, w\<lparr>w_clock := cl, w_bench := b\<rparr>)" "32 \<le> length d"
    using benchmarked_store [OF out, of y CODEC_EFR True "(rc, h2)" w] by auto
  then show "\<exists>rv st' out' w'. codec_efr_encode L st out inp n w = Inr (rv, st', out', w') \<and> enc_dec_st st' \<and> W w' \<and>
      holds 32 out' \<and> (0 \<le> rv \<longrightarrow> frame 32 out' (nat rv))"
    using inp st x c quietD [OF W w, where c = cl and b = b]
    by (auto simp: codec_efr_encode_def frame_def enc_dec_st_def mem_simps)
qed

lemma codec_efr_decode_stage:
  fixes L :: "'c codec_libs" and W :: "'x world \<Rightarrow> bool"
  assumes L: "libs_ok L" and W: "quiet W"
  shows "stage (codec_efr_decode L) enc_dec_st W (holds 320) (frame 32) (frame 320)"
proof unfold_locales
  fix st :: "'c item_state option" and w :: "'x world" and out inp :: "buf option" and n :: nat
  assume st: "enc_dec_st st" and w: "W w" and out: "holds 320 out" and inp: "frame 32 inp n"
  obtain en de where st: "st = Some (St_Codec (Enc_Dec_State en de))" using st by (auto simp: enc_dec_st_def)
  obtain x where x: "input_bytes 32 inp = Inr x" using input_frame [OF inp] by blast
  obtain h2 y where c: "lib_amr_decode L de x = (h2, y)" by fastforce
  have "length y \<le> 320" using libs_okD(6) [OF L c] by simp
  then obtain d cl b where "benchmarked CODEC_EFR False (\<lambda>out. bind_r (store_output y out) (\<lambda>d. Inr (h2, d))) out w =
      Inr (h2, d, w\<lparr>w_clock := cl, w_bench := b\<rparr>)" "320 \<le> length d"
    using benchmarked_store [OF out, of y CODEC_EFR False "h2" w] by auto
  then show "\<exists>rv st' out' w'. codec_efr_decode L st out inp n w = Inr (rv, st', out', w') \<and> enc_dec_st st' \<and> W w' \<and>
      holds 320 out' \<and> (0 \<le> rv \<longrightarrow> frame 320 out' (nat rv))"
    using inp st x c quietD [OF W w, where c = cl and b = b]
    by (auto simp: codec_efr_decode_def frame_def enc_dec_st_def mem_simps)
qed

lemma codec_amr_encode_stage:
  fixes L :: "'c codec_libs" and W :: "'x world \<Rightarrow> bool"
  assumes L: "libs_ok L" and W: "quiet W"
  shows "stage (codec_amr_encode L) enc_dec_st W (holds 320) (frame 320)
           (\<lambda>b n. n \<le> 32 \<and> holds 320 b)"
proof unfold_locales
  fix st :: "'c item_state option" and w :: "'x world" and out inp :: "buf option" and n :: nat
  assume st: "enc_dec_st st" and w: "W w" and out: "holds 320 out" and inp: "frame 320 inp n"
  obtain en de where st: "st = Some (St_Codec (Enc_Dec_State en de))" using st by (auto simp: enc_dec_st_def)
  obtain x where x: "input_bytes 320 inp = Inr x" using input_frame [OF inp] by blast
  obtain rc h2 y where c: "lib_amr_encode L en x = (rc, h2, y)" by (metis prod_cases3)
  have y: "length y \<le> 32" "rc = int (length y)" using libs_okD(5) [OF L c] by simp_all
  then obtain d cl b where "benchmarked CODEC_AMR True (\<lambda>out. bind_r (store_output y out) (\<lambda>d. Inr ((rc, h2), d))) out w =
      Inr ((rc, h2), d, w\<lparr>w_clock := cl, w_bench := b\<rparr>)" "320 \<le> length d"
    using benchmarked_store [OF out, of y CODEC_AMR True "(rc, h2)" w] by auto
  then show "\<exists>rv st' out' w'. codec_amr_encode L st out inp n w = Inr (rv, st', out', w') \<and>
      enc_dec_st st' \<and> W w' \<and> holds 320 out' \<and> (0 \<le> rv \<longrightarrow> nat rv \<le> 32 \<and> holds 320 out')"
    using inp st x c y quietD [OF W w, where c = cl and b = b]
    by (auto simp: codec_amr_encode_def enc_dec_st_def mem_simps)
qed

lemma codec_amr_decode_stage:
  fixes L :: "'c codec_libs" and W :: "'x world \<Rightarrow> bool"
  assumes L: "libs_ok L" and W: "quiet W"
  shows "stage (codec_amr_decode L) enc_dec_st W (holds 320) (\<lambda>b n. b \<noteq> None) (frame 320)"
proof unfold_locales
  fix st :: "'c item_state option" and w :: "'x world" and out inp :: "buf option" and n :: nat
  assume st: "enc_dec_st st" and w: "W w" and out: "holds 320 out" and inp: "inp \<noteq> None"
  obtain en de where st: "st = Some (St_Codec (Enc_Dec_State en de))" using st by (auto simp: enc_dec_st_def)
  obtain x where x: "inp = Some x" using inp by blast
  obtain h2 y where c: "lib_amr_decode L de x = (h2, y)" by fastforce
  have y: "length y \<le> 320" using libs_okD(6) [OF L c] by simp
  then obtain d cl b where "benchmarked CODEC_AMR False (\<lambda>out. bind_r (store_output y out) (\<lambda>d. Inr (h2, d))) out w =
      Inr (h2, d, w\<lparr>w_clock := cl, w_bench := b\<rparr>)" "320 \<le> length d"
    using benchmarked_store [OF out, of y CODEC_AMR False h2 w] by auto
  then show "\<exists>rv st' out' w'. codec_amr_decode L st out inp n w = Inr (rv, st', out', w') \<and>
      enc_dec_st st' \<and> W w' \<and> holds 320 out' \<and> (0 \<le> rv \<longrightarrow> frame 320 out' (nat rv))"
    using st x c quietD [OF W w, where c = cl and b = b]
    by (auto simp: codec_amr_decode_def enc_dec_st_def frame_def)
qed

section \<open>What the concealment unit does\<close>

definition bad_frame :: "buf \<Rightarrow> bool" where
  \<comment> \<open>zero behind the first byte\<close>
  "bad_frame fr \<longleftrightarrow> (\<forall>x \<in> set (drop 1 fr). x = 0)"

lemma bad_frame_index:
  "length b = n \<Longrightarrow> (\<exists>i \<in> {1..<n}. b ! i \<noteq> 0) \<longleftrightarrow> \<not> bad_frame b"
proof -
  assume n: "length b = n"
  have "(\<exists>i \<in> {1..<n}. b ! i \<noteq> 0) \<longleftrightarrow> (\<exists>i < n - 1. drop 1 b ! i \<noteq> 0)"
  proof
    assume "\<exists>i \<in> {1..<n}. b ! i \<noteq> 0"
    then obtain i where "1 \<le> i" "i < n" "b ! i \<noteq> 0" by auto
    then show "\<exists>i < n - 1. drop 1 b ! i \<noteq> 0" using n by (intro exI [of _ "i - 1"]) auto
  qed (use n in \<open>auto intro!: bexI [of _ "Suc _"]\<close>)
  then show ?thesis using n by (auto simp: bad_frame_def set_conv_nth)
qed

lemma ecu_proc_fr_spec:
  fixes L :: "'c codec_libs"
  assumes L: "libs_ok L" and i: "33 \<le> length i" and d: "33 \<le> length d"
  shows "ecu_proc_fr L (Some (St_Ecu s)) (Some d) (Some i) 33 w =
    (if \<not> bad_frame (take 33 i)
     then Inr (33, Some (St_Ecu (lib_ecu_reset L s (take 33 i))), Some (take 33 i @ drop 33 d), w)
     else if \<forall>x \<in> set (lib_ecu_backup L s). x = 0
     then Inr (33, Some (St_Ecu s), Some (take 33 i @ drop 33 d), w)
     else
       let (rc, s', x) = lib_ecu_conceal L s
       in Inr (if rc \<noteq> 0 then rc else 33, Some (St_Ecu s'), Some (x @ drop 33 d), w))"
proof -
  have b: "(\<exists>i \<in> {1..<33}. b ! i \<noteq> 0) \<longleftrightarrow> \<not> bad_frame b" if "length b = 33" for b
    using bad_frame_index [OF that] .
  have k: "(\<exists>i \<in> {0..<33}. lib_ecu_backup L s ! i \<noteq> 0) \<longleftrightarrow> \<not> (\<forall>x \<in> set (lib_ecu_backup L s). x = 0)"
    using libs_okD(7) [OF L, of s] by (metis atLeastLessThan_iff in_set_conv_nth le0)
  obtain rc s' x where c: "lib_ecu_conceal L s = (rc, s', x)" by (metis prod_cases3)
  then have "length x = 33" using libs_okD(8) [OF L c] by simp
  then show ?thesis
    using i d b [of "take 33 i"] k c
    by (simp add: ecu_proc_fr_def mem_simps input_bytes_def store_output_def Let_def)
qed

definition ecu_st :: "'c item_state option \<Rightarrow> bool" where
  "ecu_st st \<longleftrightarrow> (\<exists>s. st = Some (St_Ecu s))"

lemma ecu_proc_fr_stage:
  fixes L :: "'c codec_libs" and W :: "'x world \<Rightarrow> bool"
  assumes L: "libs_ok L"
  shows "stage (ecu_proc_fr L) ecu_st W (holds 33) (frame 33) (frame 33)"
proof unfold_locales
  fix st :: "'c item_state option" and w :: "'x world" and out inp :: "buf option" and n :: nat
  assume st: "ecu_st st" and w: "W w" and out: "holds 33 out" and inp: "frame 33 inp n"
  obtain s where s: "st = Some (St_Ecu s)" using st by (auto simp: ecu_st_def)
  obtain d where d: "out = Some d" "33 \<le> length d" using out by (auto simp: holds_def)
  obtain i where i: "inp = Some i" "33 \<le> length i" "n = 33" using inp by (auto simp: frame_def holds_def)
  obtain rc s' x where c: "lib_ecu_conceal L s = (rc, s', x)" by (metis prod_cases3)
  then show "\<exists>rv st' out' w'. ecu_proc_fr L st out inp n w = Inr (rv, st', out', w') \<and> ecu_st st' \<and>
      W w' \<and> holds 33 out' \<and> (0 \<le> rv \<longrightarrow> frame 33 out' (nat rv))"
    using s d i w libs_okD(8) [OF L c] ecu_proc_fr_spec [OF L i(2) d(2), of s w]
    by (auto simp: ecu_st_def frame_def)
qed

end
