(* ===== verification/Pq_Format.thy ===== *)
theory Pq_Format
  imports Codecs
begin

text \<open>
  Format conversion as a queue item (\<^verbatim>\<open>src/pq_format.c\<close>): its state is the conversion
  function of the format descriptor. A converter is handed two objects; the item that would
  have none to read from, a converter in front of the queue, faults.
\<close>

definition pq_cb_fmt_convert :: "('c, 'x) callback" where
  "pq_cb_fmt_convert st out inp in_len w =
     (case st of
        Some (St_Conv f) \<Rightarrow>
          bind_r (deref out) (\<lambda>d.
          bind_r (deref inp) (\<lambda>s.
          bind_r (f d s in_len) (\<lambda>(d, rv).
          Inr (rv, st, Some d, w))))
      | _ \<Rightarrow> Inl Bad_State)"

definition pq_queue_fmt_convert ::
    "build_cfg \<Rightarrow> 'c codec_libs \<Rightarrow> ('c, 'x) queue \<Rightarrow> format_desc \<Rightarrow> bool \<Rightarrow> 'x world \<Rightarrow>
     (int \<times> ('c, 'x) queue \<times> 'x world) res" where
  "pq_queue_fmt_convert C L pq fmt to_from_n w =
     (case (codec_get_from_type C L (fd_codec_type fmt) :: ('c, 'x) codec_desc option) of
        None \<Rightarrow> Inr (- EINVAL, pq, w)
      | Some codec \<Rightarrow>
          bind_r (pq_add_item pq w) (\<lambda>(ok, pq, w).
          if \<not> ok then Inr (- ENOMEM, pq, w)
          else
            Inr (0, upd_last (\<lambda>item.
                   (if to_from_n
                    then item\<lparr>it_len_in := cd_canon_frame_len codec, it_len_out := fd_frame_len fmt,
                              it_state := Some (St_Conv (fd_conv_from_canon fmt))\<rparr>
                    else item\<lparr>it_len_in := fd_frame_len fmt, it_len_out := cd_canon_frame_len codec,
                              it_state := Some (St_Conv (fd_conv_to_canon fmt))\<rparr>)
                   \<lparr>it_type := TYPE_PROC, it_proc := Some pq_cb_fmt_convert, it_wait := None,
                    it_cat_name := Some ''format'', it_sub_name := Some (fd_name fmt)\<rparr>) pq, w)))"

section \<open>The item and its contract\<close>

definition conv_item :: "format_desc \<Rightarrow> bool \<Rightarrow> ('c, 'x) qitem" where
  "conv_item fmt to_from_n = zero_item
     \<lparr>it_len_in := (if to_from_n then canon_len (fd_codec_type fmt) else fd_frame_len fmt),
      it_len_out := (if to_from_n then fd_frame_len fmt else canon_len (fd_codec_type fmt)),
      it_state := Some (St_Conv (if to_from_n then fd_conv_from_canon fmt else fd_conv_to_canon fmt)),
      it_type := TYPE_PROC, it_proc := Some pq_cb_fmt_convert, it_wait := None,
      it_cat_name := Some ''format'', it_sub_name := Some (fd_name fmt)\<rparr>"

lemma codec_canon_len:
  "codec_get_from_type C L c = Some codec \<Longrightarrow> cd_canon_frame_len codec = canon_len c"
  by (cases c) (auto simp: codec_descs Let_def)

lemma codec_get_Some: "c \<noteq> CODEC_INVALID \<Longrightarrow> \<exists>codec. codec_get_from_type C L c = Some codec"
  by (cases c) auto

lemma appends_conv:
  fixes L :: "'c codec_libs"
  assumes "fd_codec_type fmt \<noteq> CODEC_INVALID"
  shows "appends (\<lambda>pq :: ('c, 'x) queue. pq_queue_fmt_convert C L pq fmt to_from_n) 0 (conv_item fmt to_from_n)"
proof -
  obtain codec :: "('c, 'x) codec_desc" where
    c: "codec_get_from_type C L (fd_codec_type fmt) = Some codec"
    using codec_get_Some [OF assms] by blast
  then have "cd_canon_frame_len codec = canon_len (fd_codec_type fmt)" by (rule codec_canon_len)
  with c show ?thesis
    by (auto simp: appends_def pq_queue_fmt_convert_def pq_add_item_ok conv_item_def push_item_def)
qed

lemma conv_step:
  assumes "fixed_conv f g m k src_ok" and "m \<le> length i" and "k \<le> length d" and "src_ok (take m i)"
  shows "pq_cb_fmt_convert (Some (St_Conv f)) (Some d) (Some i) m w =
    Inr (int k, Some (St_Conv f), Some (g (take m i) @ drop k d), w)"
  using fixed_conv.conv [OF assms] by (simp add: pq_cb_fmt_convert_def)

lemma conv_stage:
  fixes W :: "'x world \<Rightarrow> bool"
  assumes f: "conv_safe f m k"
  shows "stage pq_cb_fmt_convert (\<lambda>st :: 'c item_state option. st = Some (St_Conv f)) W (holds k) (frame m) (frame k)"
proof unfold_locales
  fix st :: "'c item_state option" and w :: "'x world" and out inp :: "buf option" and n :: nat
  assume st: "st = Some (St_Conv f)" and w: "W w" and out: "holds k out" and inp: "frame m inp n"
  obtain d where d: "out = Some d" "k \<le> length d" using out by (auto simp: holds_def)
  obtain i where i: "inp = Some i" "m \<le> length i" "n = m" using inp by (auto simp: frame_def holds_def)
  obtain d' rv where "f d i m = Inr (d', rv)" "length d' = length d" "rv = int k \<or> rv < 0"
    using f [unfolded conv_safe_def, rule_format, OF i(2) d(2)] by blast
  then show "\<exists>rv st' out' w'. pq_cb_fmt_convert st out inp n w = Inr (rv, st', out', w') \<and>
      st' = Some (St_Conv f) \<and> W w' \<and> holds k out' \<and> (0 \<le> rv \<longrightarrow> frame k out' (nat rv))"
    using st w d i by (auto simp: pq_cb_fmt_convert_def frame_def)
qed

text \<open>
  The conversion stage on the formats of the table, by \<^verbatim>\<open>fmt_conv_safe\<close>: the instance for
  \<^verbatim>\<open>fmt_gsm\<close>, whose two converters accept every frame, as a sample of the interface.
\<close>

interpretation gsm_conv: stage pq_cb_fmt_convert "\<lambda>st. st = Some (St_Conv gsm_to_canon)"
    "\<lambda>_. True" "holds 33" "frame 33" "frame 33"
  by (rule conv_stage) (rule conv_safe_fixed [OF gsm.to_canon.fixed_conv_axioms])

end
