(* ===== verification/Pq_Codec.thy ===== *)
theory Pq_Codec
  imports Pq_Format
begin

text \<open>
  Codecs and the error concealment unit as queue items (\<^verbatim>\<open>src/pq_codec.c\<close>, \<^verbatim>\<open>src/pq_ecu.c\<close>).
  The errors found after the item is linked in leave it in the queue as far as it has been
  filled in.
\<close>

section \<open>\<^verbatim>\<open>src/pq_codec.c\<close>\<close>

definition pq_queue_codec ::
    "endian \<Rightarrow> bit_tables \<Rightarrow> build_cfg \<Rightarrow> 'c codec_libs \<Rightarrow> ('c, 'x) queue \<Rightarrow> ('c, 'x) codec_desc \<Rightarrow> bool \<Rightarrow>
     'x world \<Rightarrow> (int \<times> ('c, 'x) queue \<times> 'x world) res" where
  "pq_queue_codec e T C L pq codec enc_dec_n w =
     bind_r (pq_add_item pq w) (\<lambda>(ok, pq, w).
     if \<not> ok then Inr (- ENOMEM, pq, w)
     else
       let (failed, pq, w) =
         (case cd_init codec of
            None \<Rightarrow> (False, pq, w)
          | Some init \<Rightarrow>
              (let (st, w) = init w
               in (st = None, upd_last (\<lambda>item. item\<lparr>it_state := map_option St_Codec st\<rparr>) pq, w)))
       in if failed then Inr (- EINVAL, pq, w)
          else
            bind_r (deref (codec_get_from_type C L CODEC_PCM :: ('c, 'x) codec_desc option)) (\<lambda>codec_pcm.
            case fmt_get_from_type e T (fmt_num (if enc_dec_n then cd_enc_format_type codec
                                                 else cd_dec_format_type codec)) of
              None \<Rightarrow> Inr (- EINVAL, pq, w)
            | Some fmt \<Rightarrow>
                (let proc = (if enc_dec_n then cd_encode codec else cd_decode codec);
                     pq = upd_last (\<lambda>item.
                       (if enc_dec_n
                        then item\<lparr>it_len_in := cd_canon_frame_len codec_pcm,
                                  it_len_out := fd_frame_len fmt, it_proc := proc\<rparr>
                        else item\<lparr>it_len_in := fd_frame_len fmt,
                                  it_len_out := cd_canon_frame_len codec_pcm, it_proc := proc\<rparr>)
                       \<lparr>it_type := TYPE_PROC, it_exit := cd_exit codec, it_wait := None,
                        it_cat_name := Some ''codec'', it_sub_name := Some (cd_name codec)\<rparr>) pq
                 in if proc = None then Inr (- ENOTSUP, pq, w) else Inr (0, pq, w))))"

definition codec_item ::
    "endian \<Rightarrow> bit_tables \<Rightarrow> ('c, 'x) codec_desc \<Rightarrow> 'c codec_state option \<Rightarrow> bool \<Rightarrow> ('c, 'x) qitem" where
  "codec_item e T codec st enc_dec_n = zero_item
     \<lparr>it_state := map_option St_Codec st,
      it_len_in := (if enc_dec_n then PCM_CANON_LEN else fd_frame_len (fmt_of e T (cd_dec_format_type codec))),
      it_len_out := (if enc_dec_n then fd_frame_len (fmt_of e T (cd_enc_format_type codec)) else PCM_CANON_LEN),
      it_proc := (if enc_dec_n then cd_encode codec else cd_decode codec),
      it_type := TYPE_PROC, it_exit := cd_exit codec, it_wait := None,
      it_cat_name := Some ''codec'', it_sub_name := Some (cd_name codec)\<rparr>"

text \<open>
  A codec the program is built with: its library, if it has one, opens.
\<close>

definition codec_ready :: "build_cfg \<Rightarrow> 'c codec_libs \<Rightarrow> codec_type \<Rightarrow> bool" where
  "codec_ready C L c \<longleftrightarrow>
     (case c of
        CODEC_HR \<Rightarrow> have_libgsmhr C \<and> lib_gsmhr_init L \<noteq> None
      | CODEC_FR \<Rightarrow> have_libgsm C \<and> lib_gsm_create L \<noteq> None
      | CODEC_EFR \<Rightarrow> have_opencore C
      | CODEC_AMR \<Rightarrow> have_opencore C
      | _ \<Rightarrow> False)"

definition codec_st :: "codec_type \<Rightarrow> 'c codec_state \<Rightarrow> bool" where
  "codec_st c st \<longleftrightarrow>
     (case st of Lib_State _ \<Rightarrow> c = CODEC_HR \<or> c = CODEC_FR | Enc_Dec_State _ _ \<Rightarrow> c = CODEC_EFR \<or> c = CODEC_AMR)"

text \<open>The blocks that the state of a codec takes, beside what its library allocates.\<close>

definition codec_cost :: "codec_type \<Rightarrow> nat" where
  "codec_cost c = of_bool (c = CODEC_EFR \<or> c = CODEC_AMR)"

lemma codec_ready_desc:
  fixes L :: "'c codec_libs" and codec :: "('c, 'x) codec_desc"
  assumes "codec_ready C L c" and "codec_get_from_type C L c = Some codec"
  obtains init where "cd_init codec = Some init" "cd_enc_format_type codec \<noteq> FMT_INVALID"
    "cd_dec_format_type codec \<noteq> FMT_INVALID" "cd_encode codec \<noteq> None" "cd_decode codec \<noteq> None"
    "\<And>w. w_mem w = [] \<Longrightarrow> \<exists>st w'. init w = (Some st, w') \<and> codec_st c st \<and> w_mem w' = [] \<and>
       w_files w' = w_files w \<and> w_socks w' = w_socks w \<and> w_bench w' = w_bench w \<and>
       w_live w' = w_live w + int (codec_cost c)"
proof -
  have "\<exists>init. cd_init codec = Some init \<and> cd_enc_format_type codec \<noteq> FMT_INVALID \<and>
    cd_dec_format_type codec \<noteq> FMT_INVALID \<and> cd_encode codec \<noteq> None \<and> cd_decode codec \<noteq> None \<and>
    (\<forall>w. w_mem w = [] \<longrightarrow> (\<exists>st w'. init w = (Some st, w') \<and> codec_st c st \<and> w_mem w' = [] \<and>
       w_files w' = w_files w \<and> w_socks w' = w_socks w \<and> w_bench w' = w_bench w \<and>
       w_live w' = w_live w + int (codec_cost c)))"
    using assms
    by (cases c)
       (auto simp: codec_ready_def codec_descs Let_def if_built_def codec_st_def codec_hr_init_def codec_cost_def
          codec_fr_init_def codec_efr_init_def codec_amr_init_def)
  then show thesis using that by blast
qed

lemma codec_item_appended:
  fixes L :: "'c codec_libs" and pq :: "('c, 'x) queue"
  assumes ready: "codec_ready C L c" and mem: "w_mem w = []" "all_live (pq_items pq)"
    and codec: "codec_get_from_type C L c = Some codec"
  shows "\<exists>st w'. pq_queue_codec e T C L pq codec enc w =
      Inr (0, push_item (codec_item e T codec (Some st) enc) pq, w') \<and> codec_st c st \<and>
      w_mem w' = [] \<and> w_files w' = w_files w \<and> w_socks w' = w_socks w \<and> w_bench w' = w_bench w \<and>
      w_live w' = w_live w + 1 + int (codec_cost c)"
proof -
  obtain init where i: "cd_init codec = Some init" "cd_enc_format_type codec \<noteq> FMT_INVALID"
      "cd_dec_format_type codec \<noteq> FMT_INVALID" "cd_encode codec \<noteq> None" "cd_decode codec \<noteq> None"
      "\<And>w. w_mem w = [] \<Longrightarrow> \<exists>st w'. init w = (Some st, w') \<and> codec_st c st \<and> w_mem w' = [] \<and>
         w_files w' = w_files w \<and> w_socks w' = w_socks w \<and> w_bench w' = w_bench w \<and>
         w_live w' = w_live w + int (codec_cost c)"
    using codec_ready_desc [OF ready codec] by metis
  obtain w1 where w1: "pq_add_item pq w = Inr (True, push_item zero_item pq, w1)" "w_mem w1 = []"
      "w_files w1 = w_files w" "w_socks w1 = w_socks w" "w_bench w1 = w_bench w" "w_live w1 = w_live w + 1"
    using pq_add_item_push [OF mem] by blast
  obtain st w2 where w2: "init w1 = (Some st, w2)" "codec_st c st" "w_mem w2 = []"
      "w_files w2 = w_files w" "w_socks w2 = w_socks w" "w_bench w2 = w_bench w"
      "w_live w2 = w_live w + 1 + int (codec_cost c)"
    using i(6) [OF w1(2)] w1 by auto
  have "pq_queue_codec e T C L pq codec enc w =
      Inr (0, push_item (codec_item e T codec (Some st) enc) pq, w2)"
    using i(1-5) w1(1) w2(1) fmt_get_from_type_of [OF i(2), of e T] fmt_get_from_type_of [OF i(3), of e T]
    by (cases enc) (auto simp add: pq_queue_codec_def codec_item_def codec_pcm_desc_def Let_def)
  with w2 show ?thesis by blast
qed

section \<open>\<^verbatim>\<open>src/pq_ecu.c\<close>\<close>

definition ecu_clean_up :: "'c item_state option \<Rightarrow> 'x world \<Rightarrow> 'x world res" where
  "ecu_clean_up st w = Inr (if st = None then w else release w)"

text \<open>
  When the state cannot be allocated the item is freed without being taken off the list.
  The descriptor of the input format is looked up after that and used unchecked.
\<close>

definition pq_queue_ecu ::
    "endian \<Rightarrow> bit_tables \<Rightarrow> 'c codec_libs \<Rightarrow> ('c, 'x) queue \<Rightarrow> ('c, 'x) codec_desc \<Rightarrow> 'x world \<Rightarrow>
     (int \<times> ('c, 'x) queue \<times> 'x world) res" where
  "pq_queue_ecu e T L pq codec w =
     (if cd_ecu_proc codec = None then Inr (- ENOTSUP, pq, w)
      else
        bind_r (pq_add_item pq w) (\<lambda>(ok, pq, w).
        if \<not> ok then Inr (- ENOMEM, pq, w)
        else
          (case alloc w of
             (False, w) \<Rightarrow>
               Inr (- ENOMEM, upd_last (\<lambda>item. item\<lparr>it_live := False\<rparr>) pq, release w)
           | (True, w) \<Rightarrow>
               bind_r (deref (fmt_get_from_type e T (fmt_num (cd_dec_format_type codec)))) (\<lambda>fmt.
               Inr (0, upd_last (\<lambda>item. item
                      \<lparr>it_state := Some (St_Ecu (lib_ecu_zero L)),
                       it_len_in := fd_frame_len fmt, it_len_out := fd_frame_len fmt,
                       it_proc := cd_ecu_proc codec, it_exit := Some ecu_clean_up, it_wait := None,
                       it_type := TYPE_PROC, it_cat_name := Some ''ecu'',
                       it_sub_name := Some (cd_name codec)\<rparr>) pq, w)))))"

definition ecu_item :: "'c codec_libs \<Rightarrow> ('c, 'x) qitem" where
  "ecu_item L = zero_item
     \<lparr>it_state := Some (St_Ecu (lib_ecu_zero L)), it_len_in := 33, it_len_out := 33,
      it_proc := Some (ecu_proc_fr L), it_exit := Some ecu_clean_up, it_wait := None,
      it_type := TYPE_PROC, it_cat_name := Some ''ecu'', it_sub_name := Some ''fr''\<rparr>"

lemma appends_ecu:
  assumes "have_libgsm C"
  shows "appends (\<lambda>pq. pq_queue_ecu e T L pq (codec_fr_desc C L)) 1 (ecu_item L)"
  using assms fmt_get_from_type_of [of FMT_GSM e T]
  by (auto simp: appends_def pq_queue_ecu_def codec_fr_desc_def ecu_item_def pq_add_item_ok push_item_def
      fmt_gsm_def)

text \<open>Without libgsm the codec has a concealment unit but no input format.\<close>

lemma ecu_without_libgsm:
  assumes "\<not> have_libgsm C" and "w_mem w = []" and "all_live (pq_items pq)"
  shows "pq_queue_ecu e T L pq (codec_fr_desc C L) w = Inl Null_Deref"
  using assms
  by (simp add: pq_queue_ecu_def codec_fr_desc_def pq_add_item_ok fmt_get_from_type_def)

text \<open>
  Out of memory in the second allocation: the freed item stays in the queue, where the next
  item that is queued writes to it.
\<close>

lemma ecu_dangling:
  assumes "w_mem w = [True, False]" and "all_live (pq_items pq)"
  shows "\<exists>pq' w'. pq_queue_ecu e T L pq (codec_fr_desc C L) w = Inr (- ENOMEM, pq', w') \<and>
    pq_items pq' \<noteq> [] \<and> \<not> it_live (last (pq_items pq')) \<and> pq_add_item pq' w' = Inl Bad_State"
  using assms
  by (cases "pq_items pq" rule: rev_cases)
     (auto simp: pq_queue_ecu_def codec_fr_desc_def Let_def pq_add_item_def alloc_def upd_last_def release_def)

section \<open>Contracts of the items\<close>

text \<open>Lengths of the frames that the library wrappers take and give.\<close>

fun codec_frame :: "codec_type \<Rightarrow> bool \<Rightarrow> nat" where
  "codec_frame CODEC_HR enc = (if enc then 40 else 44)"
| "codec_frame CODEC_FR enc = 33"
| "codec_frame CODEC_EFR enc = 32"
| "codec_frame _ enc = 0"

definition codec_state_ok :: "codec_type \<Rightarrow> 'c item_state option \<Rightarrow> bool" where
  "codec_state_ok c st \<longleftrightarrow> (if c = CODEC_HR \<or> c = CODEC_FR then lib_st st else enc_dec_st st)"

lemma codec_encode_stage:
  fixes L :: "'c codec_libs" and codec :: "('c, 'x) codec_desc"
  assumes "libs_ok L" and "quiet W" and "codec_ready C L c" and "c \<noteq> CODEC_AMR"
    and "codec_get_from_type C L c = Some codec"
  shows "\<exists>p. cd_encode codec = Some p \<and>
    stage p (codec_state_ok c) W (holds (codec_frame c True)) (frame 320) (frame (codec_frame c True))"
  using assms codec_fr_encode_stage [of L W] codec_hr_encode_stage [of L W] codec_efr_encode_stage [of L W]
  by (cases c) (auto simp: codec_ready_def codec_descs Let_def if_built_def codec_state_ok_def [abs_def])

lemma codec_decode_stage:
  fixes L :: "'c codec_libs" and codec :: "('c, 'x) codec_desc"
  assumes "libs_ok L" and "quiet W" and "codec_ready C L c" and "c \<noteq> CODEC_AMR"
    and "codec_get_from_type C L c = Some codec"
  shows "\<exists>p. cd_decode codec = Some p \<and>
    stage p (codec_state_ok c) W (holds 320) (frame (codec_frame c False)) (frame 320)"
  using assms codec_fr_decode_stage [of L W] codec_hr_decode_stage [of L W] codec_efr_decode_stage [of L W]
  by (cases c) (auto simp: codec_ready_def codec_descs Let_def if_built_def codec_state_ok_def [abs_def])

lemma codec_frame_len:
  assumes "codec_get_from_type C L c = Some codec" and "codec_ready C L c"
  shows "fd_frame_len (fmt_of e T (cd_enc_format_type codec)) = codec_frame c True"
    and "fd_frame_len (fmt_of e T (cd_dec_format_type codec)) = codec_frame c False"
    and "fd_codec_type (fmt_of e T (cd_enc_format_type codec)) = c"
    and "fd_codec_type (fmt_of e T (cd_dec_format_type codec)) = c"
  using assms
  by (cases c; auto simp: codec_ready_def codec_descs Let_def fmt_defs)+

end
