(* ===== verification/App.thy ===== *)
theory App
  imports Pq_File Pq_Rtp Pq_Alsa Pq_Codec
begin

text \<open>
  The application (\<^verbatim>\<open>src/app_osmo_gapk.c\<close>): options, opening and closing of the streams, file
  headers, construction of the processing queue, the processing loop and the main function.

  What the application gets from its environment is the parameter \<open>E\<close>: byte order, bit
  tables, build configuration, libraries, and the results of \<^verbatim>\<open>fopen\<close> and
  \<^verbatim>\<open>osmo_sock_init\<close>. \<^verbatim>\<open>getopt_long\<close> is part of the C library: the options arrive as the list
  of what its calls return. Logging is left out. File handles 0 and 1 are \<^verbatim>\<open>stdin\<close> and
  \<^verbatim>\<open>stdout\<close>.
\<close>

record ('c, 'x) env =
  e_endian :: endian
  e_tables :: bit_tables
  e_cfg :: build_cfg
  e_libs :: "'c codec_libs"
  e_alsa :: "'x alsa_lib"
  e_fopen :: "string \<Rightarrow> bool \<Rightarrow> (nat \<times> file_obj) option"  \<comment> \<open>name, for writing\<close>
  e_errno :: int
  e_sock_init :: "string option \<Rightarrow> nat \<Rightarrow> bool \<Rightarrow> int"  \<comment> \<open>host, port, bind rather than connect\<close>

definition stdin_fh :: nat where [simp, code_unfold]: "stdin_fh = 0"
definition stdout_fh :: nat where [simp, code_unfold]: "stdout_fh = 1"

record gapk_options =
  fname_in :: "string option"
  rtp_in_hostname :: "string option"
  rtp_in_port :: nat
  alsa_in :: "string option"
  fmt_in :: "format_desc option"
  fname_out :: "string option"
  rtp_out_hostname :: "string option"
  rtp_out_port :: nat
  alsa_out :: "string option"
  fmt_out :: "format_desc option"
  rtp_pt_in :: byte
  rtp_pt_out :: byte
  throttle :: bool
  benchmark :: bool
  verbose :: bool

record ('c, 'x) gapk_state =
  opts :: gapk_options
  gs_pq :: "('c, 'x) queue option"
  num_frames :: u32
  gs_exit :: int
  in_fh :: "nat option"
  in_fd :: int
  out_fh :: "nat option"
  out_fd :: int

definition zero_options :: gapk_options where
  "zero_options =
     \<lparr>fname_in = None, rtp_in_hostname = None, rtp_in_port = 0, alsa_in = None, fmt_in = None,
      fname_out = None, rtp_out_hostname = None, rtp_out_port = 0, alsa_out = None, fmt_out = None,
      rtp_pt_in = 0, rtp_pt_out = 0, throttle = False, benchmark = False, verbose = False\<rparr>"

text \<open>The state after the first lines of \<^verbatim>\<open>main\<close>.\<close>

definition init_state :: "('c, 'x) gapk_state" where
  "init_state =
     \<lparr>opts = zero_options, gs_pq = None, num_frames = 0, gs_exit = 0, in_fh = None, in_fd = -1,
      out_fh = None, out_fd = -1\<rparr>"

section \<open>Options\<close>

text \<open>
  \<^verbatim>\<open>strtok\<close> with the delimiter \<^verbatim>\<open>/\<close>: the next token and what is left. \<^verbatim>\<open>atoi\<close>: white space, a sign,
  digits; the C result is undefined beyond the range of \<^verbatim>\<open>int\<close>, the model returns the number.
\<close>

definition strtok :: "string \<Rightarrow> (string \<times> string) option" where
  "strtok s =
     (let s = dropWhile (\<lambda>c. c = CHR ''/'') s
      in if s = [] then None
         else Some (takeWhile (\<lambda>c. c \<noteq> CHR ''/'') s, tl (dropWhile (\<lambda>c. c \<noteq> CHR ''/'') s)))"

definition is_digit_c :: "char \<Rightarrow> bool" where
  "is_digit_c c \<longleftrightarrow> 48 \<le> (of_char c :: nat) \<and> (of_char c :: nat) \<le> 57"

definition is_space_c :: "char \<Rightarrow> bool" where
  "is_space_c c \<longleftrightarrow> (of_char c :: nat) = 32 \<or> 9 \<le> (of_char c :: nat) \<and> (of_char c :: nat) \<le> 13"

fun digits_val :: "int \<Rightarrow> string \<Rightarrow> int" where
  "digits_val v [] = v"
| "digits_val v (c # cs) = (if is_digit_c c then digits_val (10 * v + (of_char c - 48)) cs else v)"

definition atoi :: "string \<Rightarrow> int" where
  "atoi s =
     (case dropWhile is_space_c s of
        [] \<Rightarrow> 0
      | c # cs \<Rightarrow>
          if c = CHR ''-'' then - digits_val 0 cs
          else if c = CHR ''+'' then digits_val 0 cs
          else digits_val 0 (c # cs))"

definition parse_host_port :: "string \<Rightarrow> string option \<Rightarrow> 'x world \<Rightarrow> int \<times> string option \<times> 'x world" where
  "parse_host_port host_port host w =
     (case alloc w of
        (False, w) \<Rightarrow> (- ENOMEM, host, w)
      | (True, w) \<Rightarrow>
          (case strtok host_port of
             None \<Rightarrow> (- EINVAL, host, w)
           | Some (h, rest) \<Rightarrow>
               (case strtok rest of
                  None \<Rightarrow> (- EINVAL, Some h, w)
                | Some (p, _) \<Rightarrow> (atoi p, Some h, w))))"

text \<open>One turn of the option loop: the new options, or the value that is returned.\<close>

definition parse_option ::
    "('c, 'x) env \<Rightarrow> char \<times> string \<Rightarrow> gapk_options \<Rightarrow> 'x world \<Rightarrow> (int + gapk_options) \<times> 'x world" where
  "parse_option E co opt w =
     (case co of (c, optarg) \<Rightarrow>
        if c = CHR ''i'' then (Inr (opt\<lparr>fname_in := Some optarg\<rparr>), w)
        else if c = CHR ''o'' then (Inr (opt\<lparr>fname_out := Some optarg\<rparr>), w)
        else if c = CHR ''I'' then
          (let (rv, host, w) = parse_host_port optarg (rtp_in_hostname opt) w
           in if rv < 0 \<or> rv > 0xffff then (Inl (- EINVAL), w)
              else (Inr (opt\<lparr>rtp_in_hostname := host, rtp_in_port := nat rv\<rparr>), w))
        else if have_alsa (e_cfg E) \<and> c = CHR ''a'' then (Inr (opt\<lparr>alsa_in := Some optarg\<rparr>), w)
        else if have_alsa (e_cfg E) \<and> c = CHR ''A'' then (Inr (opt\<lparr>alsa_out := Some optarg\<rparr>), w)
        else if c = CHR ''O'' then
          (let (rv, host, w) = parse_host_port optarg (rtp_out_hostname opt) w
           in if rv < 0 \<or> rv > 0xffff then (Inl (- EINVAL), w)
              else (Inr (opt\<lparr>rtp_out_hostname := host, rtp_out_port := nat rv\<rparr>), w))
        else if c = CHR ''f'' then
          (case fmt_get_from_name (e_endian E) (e_tables E) optarg of
             None \<Rightarrow> (Inl (- EINVAL), w)
           | Some f \<Rightarrow> (Inr (opt\<lparr>fmt_in := Some f\<rparr>), w))
        else if c = CHR ''g'' then
          (case fmt_get_from_name (e_endian E) (e_tables E) optarg of
             None \<Rightarrow> (Inl (- EINVAL), w)
           | Some f \<Rightarrow> (Inr (opt\<lparr>fmt_out := Some f\<rparr>), w))
        else if c = CHR ''p'' then
          (let rv = atoi optarg
           in if rv < 0 \<or> rv > 0xff then (Inl (- EINVAL), w)
              else (Inr (opt\<lparr>rtp_pt_in := of_int rv\<rparr>), w))
        else if c = CHR ''P'' then
          (let rv = atoi optarg
           in if rv < 0 \<or> rv > 0xff then (Inl (- EINVAL), w)
              else (Inr (opt\<lparr>rtp_pt_out := of_int rv\<rparr>), w))
        else if c = CHR ''b'' then (Inr (opt\<lparr>benchmark := True\<rparr>), w)
        else if c = CHR ''t'' then (Inr (opt\<lparr>throttle := True\<rparr>), w)
        else if c = CHR ''v'' then (Inr (opt\<lparr>verbose := True\<rparr>), w)
        else if c = CHR ''h'' then (Inl 1, w)
        else (Inl (- EINVAL), w))"

fun parse_loop ::
    "('c, 'x) env \<Rightarrow> (char \<times> string) list \<Rightarrow> gapk_options \<Rightarrow> 'x world \<Rightarrow> int \<times> gapk_options \<times> 'x world" where
  "parse_loop E [] opt w = (0, opt, w)"
| "parse_loop E (co # cos) opt w =
     (case parse_option E co opt w of
        (Inl rv, w) \<Rightarrow> (rv, opt, w)
      | (Inr opt, w) \<Rightarrow> parse_loop E cos opt w)"

definition parse_options ::
    "('c, 'x) env \<Rightarrow> (char \<times> string) list \<Rightarrow> ('c, 'x) gapk_state \<Rightarrow> 'x world \<Rightarrow>
     int \<times> ('c, 'x) gapk_state \<times> 'x world" where
  "parse_options E args gs w =
     (let opt = zero_options\<lparr>rtp_pt_in := 3, rtp_pt_out := 3\<rparr>;
          (rv, opt, w) = parse_loop E args opt w
      in (rv, gs\<lparr>opts := opt\<rparr>, w))"

text \<open>
  The check of the combination of options; for a codec without a descriptor the C code
  reports an internal error.
\<close>

definition check_options :: "('c, 'x) env \<Rightarrow> ('c, 'x) gapk_state \<Rightarrow> int" where
  "check_options E gs =
     (case (fmt_in (opts gs), fmt_out (opts gs)) of
        (Some fi, Some fo) \<Rightarrow>
          (let trans =
             (if fd_codec_type fi \<noteq> fd_codec_type fo then
                (case (codec_get_from_type (e_cfg E) (e_libs E) (fd_codec_type fi) :: ('c, 'x) codec_desc option) of
                   None \<Rightarrow> - EINVAL
                 | Some codec \<Rightarrow>
                     if cd_type codec \<noteq> CODEC_PCM \<and> cd_decode codec = None then - ENOTSUP
                     else
                       (case (codec_get_from_type (e_cfg E) (e_libs E) (fd_codec_type fo) :: ('c, 'x) codec_desc option) of
                          None \<Rightarrow> - EINVAL
                        | Some codec \<Rightarrow>
                            if cd_type codec \<noteq> CODEC_PCM \<and> cd_encode codec = None then - ENOTSUP
                            else 0))
              else 0);
             src_count = of_bool (fname_in (opts gs) \<noteq> None) + of_bool (rtp_in_port (opts gs) \<noteq> 0) +
                         of_bool (alsa_in (opts gs) \<noteq> None);
             sink_count = of_bool (fname_out (opts gs) \<noteq> None) + of_bool (rtp_out_port (opts gs) \<noteq> 0) +
                          of_bool (alsa_out (opts gs) \<noteq> None)
           in if trans \<noteq> 0 then trans
              else if src_count > (1::nat) \<or> sink_count > (1::nat) then - EINVAL
              else 0)
      | _ \<Rightarrow> - EINVAL)"

section \<open>Streams\<close>

definition open_source ::
    "('c, 'x) env \<Rightarrow> ('c, 'x) gapk_state \<Rightarrow> 'x world \<Rightarrow> int \<times> ('c, 'x) gapk_state \<times> 'x world" where
  "open_source E gs w =
     (case fname_in (opts gs) of
        Some name \<Rightarrow>
          (case e_fopen E name False of
             None \<Rightarrow> (- e_errno E, gs, w)
           | Some (fh, f) \<Rightarrow> (0, gs\<lparr>in_fh := Some fh\<rparr>, w\<lparr>w_files := (w_files w)(fh := f)\<rparr>))
      | None \<Rightarrow>
          if rtp_in_port (opts gs) \<noteq> 0 then
            (let fd = e_sock_init E (rtp_in_hostname (opts gs)) (rtp_in_port (opts gs)) True
             in (if fd < 0 then fd else 0, gs\<lparr>in_fd := fd\<rparr>, w))
          else if alsa_in (opts gs) \<noteq> None then (0, gs, w)
          else (0, gs\<lparr>in_fh := Some stdin_fh\<rparr>, w))"

definition open_sink ::
    "('c, 'x) env \<Rightarrow> ('c, 'x) gapk_state \<Rightarrow> 'x world \<Rightarrow> int \<times> ('c, 'x) gapk_state \<times> 'x world" where
  "open_sink E gs w =
     (case fname_out (opts gs) of
        Some name \<Rightarrow>
          (case e_fopen E name True of
             None \<Rightarrow> (- e_errno E, gs, w)
           | Some (fh, f) \<Rightarrow> (0, gs\<lparr>out_fh := Some fh\<rparr>, w\<lparr>w_files := (w_files w)(fh := f)\<rparr>))
      | None \<Rightarrow>
          if rtp_out_port (opts gs) \<noteq> 0 then
            (let fd = e_sock_init E (rtp_out_hostname (opts gs)) (rtp_out_port (opts gs)) False
             in (if fd < 0 then fd else 0, gs\<lparr>out_fd := fd\<rparr>, w))
          else if alsa_out (opts gs) \<noteq> None then (0, gs, w)
          else (0, gs\<lparr>out_fh := Some stdout_fh\<rparr>, w))"

definition files_open ::
    "('c, 'x) env \<Rightarrow> ('c, 'x) gapk_state \<Rightarrow> 'x world \<Rightarrow> int \<times> ('c, 'x) gapk_state \<times> 'x world" where
  "files_open E gs w =
     (let (rv, gs, w) = open_source E gs w
      in if rv \<noteq> 0 then (rv, gs, w) else open_sink E gs w)"

text \<open>What is closed, in order.\<close>

datatype closed = Closed_File nat | Closed_Fd int

definition files_close :: "('c, 'x) gapk_state \<Rightarrow> closed list" where
  "files_close gs =
     (case in_fh gs of Some fh \<Rightarrow> if fh \<noteq> stdin_fh then [Closed_File fh] else [] | None \<Rightarrow> []) @
     (if in_fd gs \<ge> 0 then [Closed_Fd (in_fd gs)] else []) @
     (case out_fh gs of Some fh \<Rightarrow> if fh \<noteq> stdout_fh then [Closed_File fh] else [] | None \<Rightarrow> []) @
     (if out_fd gs \<ge> 0 then [Closed_Fd (out_fd gs)] else [])"

text \<open>The header of the input is read and compared, the header of the output is written.\<close>

definition read_header ::
    "('c, 'x) gapk_state \<Rightarrow> format_desc \<Rightarrow> 'x world \<Rightarrow> (int \<times> 'x world) res" where
  "read_header gs fi w =
     (let len = fd_header_len fi
      in case in_fh gs of
           Some fh \<Rightarrow>
             if len = 0 then Inr (0, w)
             else
               (case alloc w of
                  (False, w) \<Rightarrow> Inr (- ENOMEM, w)
                | (True, w) \<Rightarrow>
                    bind_r (fread_c fh len (fresh_bytes w len) w) (\<lambda>(rv, buf, w).
                    Inr (if rv \<noteq> 1 \<or> buf \<noteq> fd_header fi then - EINVAL else 0, release w)))
         | None \<Rightarrow> Inr (0, w))"

definition write_header ::
    "('c, 'x) gapk_state \<Rightarrow> format_desc \<Rightarrow> 'x world \<Rightarrow> (int \<times> 'x world) res" where
  "write_header gs fo w =
     (let len = fd_header_len fo
      in case out_fh gs of
           Some fh \<Rightarrow>
             if len = 0 then Inr (0, w)
             else bind_r (fwrite_c fh len (fd_header fo) w) (\<lambda>(rv, w).
                  Inr (if rv \<noteq> 1 then - ENOSPC else 0, w))
         | None \<Rightarrow> Inr (0, w))"

definition handle_headers ::
    "('c, 'x) gapk_state \<Rightarrow> 'x world \<Rightarrow> (int \<times> 'x world) res" where
  "handle_headers gs w =
     bind_r (deref (fmt_in (opts gs))) (\<lambda>fi.
     bind_r (deref (fmt_out (opts gs))) (\<lambda>fo.
     bind_r (read_header gs fi w) (\<lambda>(rv, w).
     if rv \<noteq> 0 then Inr (rv, w) else write_header gs fo w)))"

section \<open>The processing queue\<close>

text \<open>
  The application ignores the results of the functions that queue an item; \<open>queue_step\<close> goes
  on with whatever queue they leave.
\<close>

definition queue_step ::
    "(('c, 'x) queue \<Rightarrow> 'x world \<Rightarrow> (int \<times> ('c, 'x) queue \<times> 'x world) res) \<Rightarrow>
     ('c, 'x) queue \<times> 'x world \<Rightarrow> (('c, 'x) queue \<times> 'x world) res" where
  "queue_step op s = (case s of (pq, w) \<Rightarrow> bind_r (op pq w) (\<lambda>(rc, pq, w). Inr (pq, w)))"

definition bench_step :: "bool \<Rightarrow> codec_type \<Rightarrow> ('c, 'x) queue \<times> 'x world \<Rightarrow> ('c, 'x) queue \<times> 'x world" where
  "bench_step on c s = (case s of (pq, w) \<Rightarrow> (pq, if on then snd (bench_enable (codec_num c) w) else w))"

definition queue_source ::
    "('c, 'x) env \<Rightarrow> ('c, 'x) gapk_state \<Rightarrow> format_desc \<Rightarrow> ('c, 'x) queue \<times> 'x world \<Rightarrow>
     (('c, 'x) queue \<times> 'x world) option res" where
  "queue_source E gs fi s =
     (case in_fh gs of
        Some fh \<Rightarrow> map_sum id Some (queue_step (\<lambda>pq. pq_queue_file_input pq fh (fd_frame_len fi)) s)
      | None \<Rightarrow>
          if in_fd gs \<noteq> -1 then
            map_sum id Some (queue_step (\<lambda>pq. pq_queue_rtp_input pq (nat (in_fd gs)) (fd_frame_len fi)
                                               (rtp_pt_in (opts gs))) s)
          else
            (case (have_alsa (e_cfg E), alsa_in (opts gs)) of
               (True, Some dev) \<Rightarrow>
                 map_sum id Some (queue_step (\<lambda>pq. pq_queue_alsa_input (e_alsa E) pq dev (fd_frame_len fi)) s)
             | _ \<Rightarrow> Inr None))"

definition queue_sink ::
    "('c, 'x) env \<Rightarrow> ('c, 'x) gapk_state \<Rightarrow> format_desc \<Rightarrow> ('c, 'x) queue \<times> 'x world \<Rightarrow>
     (('c, 'x) queue \<times> 'x world) option res" where
  "queue_sink E gs fo s =
     (case out_fh gs of
        Some fh \<Rightarrow> map_sum id Some (queue_step (\<lambda>pq. pq_queue_file_output pq fh (fd_frame_len fo)) s)
      | None \<Rightarrow>
          if out_fd gs \<noteq> -1 then
            map_sum id Some (queue_step (\<lambda>pq. pq_queue_rtp_output pq (nat (out_fd gs)) (fd_frame_len fo)
                                               (rtp_pt_out (opts gs))) s)
          else
            (case (have_alsa (e_cfg E), alsa_out (opts gs)) of
               (True, Some dev) \<Rightarrow>
                 map_sum id Some (queue_step (\<lambda>pq. pq_queue_alsa_output (e_alsa E) pq dev (fd_frame_len fo)) s)
             | _ \<Rightarrow> Inr None))"

text \<open>Decoding to PCM, or to the canonical format; \<open>None\<close> is the early return.\<close>

definition queue_decoder ::
    "('c, 'x) env \<Rightarrow> bool \<Rightarrow> format_desc \<Rightarrow> format_desc \<Rightarrow> ('c, 'x) queue \<times> 'x world \<Rightarrow>
     (('c, 'x) queue \<times> 'x world) option res" where
  "queue_decoder E bench fi fo s =
     (let cfg = e_cfg E; L = e_libs E;
          need_dec = (fd_codec_type fi \<noteq> CODEC_PCM \<and> fd_codec_type fi \<noteq> fd_codec_type fo)
      in if need_dec then
           bind_r (deref (codec_get_from_type cfg L (fd_codec_type fi) :: ('c, 'x) codec_desc option)) (\<lambda>codec_in.
           bind_r
             (if fd_type fi \<noteq> cd_dec_format_type codec_in then
                (case fmt_get_from_type (e_endian E) (e_tables E) (fmt_num (cd_dec_format_type codec_in)) of
                   None \<Rightarrow> Inr None
                 | Some fd \<Rightarrow>
                     bind_r (queue_step (\<lambda>pq. pq_queue_fmt_convert cfg L pq fi False) s) (\<lambda>s.
                     bind_r (queue_step (\<lambda>pq. pq_queue_fmt_convert cfg L pq fd True) s) (\<lambda>s. Inr (Some s))))
              else Inr (Some s)) (\<lambda>r.
           case r of
             None \<Rightarrow> Inr None
           | Some s \<Rightarrow>
               bind_r (queue_step (\<lambda>pq. pq_queue_codec (e_endian E) (e_tables E) cfg L pq codec_in False) s) (\<lambda>s.
               Inr (Some (bench_step bench (fd_codec_type fi) s)))))
         else if fd_type fi \<noteq> fd_type fo then
           map_sum id Some (queue_step (\<lambda>pq. pq_queue_fmt_convert cfg L pq fi False) s)
         else Inr (Some s))"

definition queue_encoder ::
    "('c, 'x) env \<Rightarrow> bool \<Rightarrow> format_desc \<Rightarrow> format_desc \<Rightarrow> ('c, 'x) queue \<times> 'x world \<Rightarrow>
     (('c, 'x) queue \<times> 'x world) option res" where
  "queue_encoder E bench fi fo s =
     (let cfg = e_cfg E; L = e_libs E;
          need_enc = (fd_codec_type fo \<noteq> CODEC_PCM \<and> fd_codec_type fo \<noteq> fd_codec_type fi)
      in if need_enc then
           bind_r (deref (codec_get_from_type cfg L (fd_codec_type fo) :: ('c, 'x) codec_desc option)) (\<lambda>codec_out.
           bind_r (queue_step (\<lambda>pq. pq_queue_codec (e_endian E) (e_tables E) cfg L pq codec_out True) s) (\<lambda>s.
           let s = bench_step bench (fd_codec_type fo) s
           in if fd_type fo \<noteq> cd_enc_format_type codec_out then
                (case fmt_get_from_type (e_endian E) (e_tables E) (fmt_num (cd_enc_format_type codec_out)) of
                   None \<Rightarrow> Inr None
                 | Some fe \<Rightarrow>
                     bind_r (queue_step (\<lambda>pq. pq_queue_fmt_convert cfg L pq fe False) s) (\<lambda>s.
                     bind_r (queue_step (\<lambda>pq. pq_queue_fmt_convert cfg L pq fo True) s) (\<lambda>s. Inr (Some s))))
              else Inr (Some s)))
         else if fd_type fi \<noteq> fd_type fo then
           map_sum id Some (queue_step (\<lambda>pq. pq_queue_fmt_convert cfg L pq fo True) s)
         else Inr (Some s))"

text \<open>The whole construction; an early return leaves what has been queued so far.\<close>

definition make_processing_chain ::
    "('c, 'x) env \<Rightarrow> ('c, 'x) gapk_state \<Rightarrow> 'x world \<Rightarrow> (int \<times> ('c, 'x) gapk_state \<times> 'x world) res" where
  "make_processing_chain E gs w =
     bind_r (deref (fmt_in (opts gs))) (\<lambda>fi.
     bind_r (deref (fmt_out (opts gs))) (\<lambda>fo.
     bind_r (deref (gs_pq gs)) (\<lambda>pq.
     bind_r (queue_source E gs fi (pq, w)) (\<lambda>r.
     case r of
       None \<Rightarrow> Inr (-1, gs, w)
     | Some s1 \<Rightarrow>
         bind_r (queue_decoder E (benchmark (opts gs)) fi fo s1) (\<lambda>r.
         case r of
           None \<Rightarrow> Inr (- EINVAL, gs\<lparr>gs_pq := Some (fst s1)\<rparr>, snd s1)
         | Some s2 \<Rightarrow>
             bind_r (queue_encoder E (benchmark (opts gs)) fi fo s2) (\<lambda>r.
             case r of
               None \<Rightarrow> Inr (- EINVAL, gs\<lparr>gs_pq := Some (fst s2)\<rparr>, snd s2)
             | Some s3 \<Rightarrow>
                 bind_r (queue_sink E gs fo s3) (\<lambda>r.
                 case r of
                   None \<Rightarrow> Inr (-1, gs\<lparr>gs_pq := Some (fst s3)\<rparr>, snd s3)
                 | Some (pq, w) \<Rightarrow>
                     bind_r (pq_check pq True) (\<lambda>rc.
                     Inr (rc, gs\<lparr>gs_pq := Some pq\<rparr>, w)))))))))"

section \<open>Running\<close>

text \<open>
  What the signal handler does in these loops: the first \<^verbatim>\<open>SIGINT\<close> sets the exit flag, and
  the loop ends before a second one. In the plain loop \<open>intr i\<close> says that it has arrived when
  the loop looks at the flag the \<open>i\<close>-th time; \<open>None\<close> is the loop that never ends.
\<close>

definition interrupted :: "bool \<Rightarrow> ('c, 'x) gapk_state \<Rightarrow> ('c, 'x) gapk_state" where
  "interrupted sigint gs = (if sigint then gs\<lparr>gs_exit := gs_exit gs + 1\<rparr> else gs)"

partial_function (option) run_loop ::
    "(nat \<Rightarrow> bool) \<Rightarrow> int \<Rightarrow> ('c, 'x) gapk_state \<Rightarrow> 'x world \<Rightarrow>
     ((int \<times> ('c, 'x) gapk_state \<times> 'x world) res) option" where
  "run_loop intr rv gs w =
     (let gs = interrupted (intr 0) gs
      in if gs_exit gs \<noteq> 0 then Some (Inr (rv, gs, w))
         else
           (case bind_r (deref (gs_pq gs)) (\<lambda>pq. pq_execute pq w) of
              Inl f \<Rightarrow> Some (Inl f)
            | Inr (rv, pq, w) \<Rightarrow>
                (let gs = gs\<lparr>gs_pq := Some pq\<rparr>
                 in if rv \<noteq> 0 then Some (Inr (rv, gs, w))
                    else run_loop (\<lambda>i. intr (i + 1)) rv (gs\<lparr>num_frames := num_frames gs + 1\<rparr>) w)))"

text \<open>
  Throttled processing: the timer callback gets the expiration count that its \<^verbatim>\<open>read\<close> returns
  (\<open>None\<close> stands for \<^verbatim>\<open>EAGAIN\<close>) and executes the queue as often, also after an error.
\<close>

fun expire :: "nat \<Rightarrow> ('c, 'x) gapk_state \<Rightarrow> 'x world \<Rightarrow> (('c, 'x) gapk_state \<times> 'x world) res" where
  "expire 0 gs w = Inr (gs, w)"
| "expire (Suc n) gs w =
     (let gs = gs\<lparr>num_frames := num_frames gs + 1\<rparr>
      in bind_r (deref (gs_pq gs)) (\<lambda>pq.
         bind_r (pq_execute pq w) (\<lambda>(rc, pq, w).
         expire n (gs\<lparr>gs_pq := Some pq, gs_exit := (if rc < 0 then 1 else gs_exit gs)\<rparr>) w)))"

definition timerfd_cb ::
    "nat option \<Rightarrow> ('c, 'x) gapk_state \<Rightarrow> 'x world \<Rightarrow> (('c, 'x) gapk_state \<times> 'x world) res" where
  "timerfd_cb expire_count gs w =
     (case expire_count of None \<Rightarrow> Inr (gs, w) | Some n \<Rightarrow> expire n gs w)"

text \<open>The events that end a call of \<^verbatim>\<open>osmo_select_main\<close>; \<open>None\<close>: it waits for the next one.\<close>

datatype event = Timer "nat option" | Sigint

fun throttled_loop ::
    "event list \<Rightarrow> ('c, 'x) gapk_state \<Rightarrow> 'x world \<Rightarrow> ((('c, 'x) gapk_state \<times> 'x world) res) option" where
  "throttled_loop evs gs w =
     (if gs_exit gs \<noteq> 0 then Some (Inr (gs, w))
      else
        case evs of
          [] \<Rightarrow> None
        | Sigint # evs \<Rightarrow> throttled_loop evs (interrupted True gs) w
        | Timer t # evs \<Rightarrow>
            (case timerfd_cb t gs w of
               Inl f \<Rightarrow> Some (Inl f)
             | Inr (gs, w) \<Rightarrow> throttled_loop evs gs w))"

partial_function (option) wait_loop ::
    "('w \<Rightarrow> (int \<times> 'w) res) \<Rightarrow> 'w \<Rightarrow> ('w res) option" where
  "wait_loop wait w =
     (case wait w of
        Inl f \<Rightarrow> Some (Inl f)
      | Inr (r, w) \<Rightarrow> if r \<noteq> 0 then wait_loop wait w else Some (Inr w))"

text \<open>\<open>ts\<close> are the events of a throttled run.\<close>

definition wait_for_sink ::
    "('c, 'x) gapk_state \<Rightarrow> 'x world \<Rightarrow> ('x world res) option" where
  "wait_for_sink gs w =
     (case gs_pq gs of
        None \<Rightarrow> Some (Inl Null_Deref)
      | Some pq \<Rightarrow>
          if pq_items pq = [] then Some (Inl Out_Of_Bounds)
          else
            (let item = last (pq_items pq)
             in case it_wait item of
                  None \<Rightarrow> Some (Inr w)
                | Some wt \<Rightarrow> if gs_exit gs \<noteq> 0 then Some (Inr w) else wait_loop (wt (it_state item)) w))"

definition run_frames ::
    "(nat \<Rightarrow> bool) \<Rightarrow> event list \<Rightarrow> ('c, 'x) gapk_state \<Rightarrow> 'x world \<Rightarrow>
     ((int \<times> ('c, 'x) gapk_state \<times> 'x world) res) option" where
  "run_frames intr ts gs w =
     (if \<not> throttle (opts gs) then run_loop intr 0 (gs\<lparr>num_frames := 0\<rparr>) w
      else
        map_option (map_sum id (\<lambda>(gs, w). (0, gs, w))) (throttled_loop ts gs w))"

definition run ::
    "(nat \<Rightarrow> bool) \<Rightarrow> event list \<Rightarrow> ('c, 'x) gapk_state \<Rightarrow> 'x world \<Rightarrow>
     ((int \<times> ('c, 'x) gapk_state \<times> 'x world) res) option" where
  "run intr ts gs w =
     (case bind_r (deref (gs_pq gs)) (\<lambda>pq. pq_prepare pq w) of
        Inl f \<Rightarrow> Some (Inl f)
      | Inr (rv, pq, w) \<Rightarrow>
          (let gs = gs\<lparr>gs_pq := Some pq\<rparr>
           in if rv \<noteq> 0 then Some (Inr (rv, gs, w))
              else
                (case run_frames intr ts gs w of
                   None \<Rightarrow> None
                 | Some (Inl f) \<Rightarrow> Some (Inl f)
                 | Some (Inr (rv, gs, w)) \<Rightarrow>
                     (case wait_for_sink gs w of
                        None \<Rightarrow> None
                      | Some (Inl f) \<Rightarrow> Some (Inl f)
                      | Some (Inr w) \<Rightarrow> Some (Inr (if num_frames gs > 0 then 0 else rv, gs, w))))))"

section \<open>Shutdown and the main function\<close>

definition dump_line :: "nat \<Rightarrow> bool \<Rightarrow> 'x world \<Rightarrow> (nat \<times> bool \<times> u64 \<times> u32 \<times> u64) res" where
  "dump_line codec enc w =
     bind_r (bench_get_cycles codec enc w) (\<lambda>cycles.
     let frames = bench_get_frames codec enc w
     in if frames = 0 then Inl Bad_State  \<comment> \<open>division by zero\<close>
        else Inr (codec, enc, cycles, frames, cycles div ucast frames))"

definition dump_codec :: "nat \<Rightarrow> 'x world \<Rightarrow> (nat \<times> bool \<times> u64 \<times> u32 \<times> u64) list res" where
  "dump_codec codec w =
     (case w_bench w codec of
        None \<Rightarrow> Inr []
      | Some bc \<Rightarrow>
          bind_r (if bc_enc_used bc \<noteq> 0 then bind_r (dump_line codec True w) (\<lambda>l. Inr [l]) else Inr []) (\<lambda>xs.
          bind_r (if bc_dec_used bc \<noteq> 0 then bind_r (dump_line codec False w) (\<lambda>l. Inr [l]) else Inr []) (\<lambda>ys.
          Inr (xs @ ys))))"

fun benchmark_dump :: "nat list \<Rightarrow> 'x world \<Rightarrow> (nat \<times> bool \<times> u64 \<times> u32 \<times> u64) list res" where
  "benchmark_dump [] w = Inr []"
| "benchmark_dump (i # is) w =
     bind_r (dump_codec i w) (\<lambda>xs. bind_r (benchmark_dump is w) (\<lambda>ys. Inr (xs @ ys)))"

definition app_shutdown :: "('c, 'x) gapk_state \<Rightarrow> 'x world \<Rightarrow> (closed list \<times> 'x world) res" where
  "app_shutdown gs w =
     (let cl = files_close gs
      in bind_r (pq_destroy (gs_pq gs) w) (\<lambda>w.
         bind_r (benchmark_dump [0..<CODEC_MAX] w) (\<lambda>_.
         Inr (cl, bench_free w))))"

text \<open>
  The signal handler. The first \<^verbatim>\<open>SIGINT\<close> sets the flag that the loops look at, a later one
  shuts the program down from inside the handler and leaves it: the first component of the
  result is then what \<open>app_shutdown\<close> has closed. The other signals print a report.
\<close>

datatype signal = SIGINT | SIGABRT | SIGUSR1 | SIGUSR2

definition signal_handler ::
    "signal \<Rightarrow> ('c, 'x) gapk_state \<Rightarrow> 'x world \<Rightarrow> (closed list option \<times> ('c, 'x) gapk_state \<times> 'x world) res" where
  "signal_handler sig gs w =
     (case sig of
        SIGINT \<Rightarrow>
          (let old = gs_exit gs; gs = gs\<lparr>gs_exit := old + 1\<rparr>
           in if old \<noteq> 0
              then bind_r (app_shutdown gs w) (\<lambda>(cl, w). Inr (Some cl, gs, w))
              else Inr (None, gs, w))
      | _ \<Rightarrow> Inr (None, gs, w))"

lemma signal_first: "gs_exit gs = 0 \<Longrightarrow> signal_handler SIGINT gs w = Inr (None, interrupted True gs, w)"
  by (simp add: signal_handler_def interrupted_def)

definition app_main ::
    "('c, 'x) env \<Rightarrow> (nat \<Rightarrow> bool) \<Rightarrow> event list \<Rightarrow> (char \<times> string) list \<Rightarrow> 'x world \<Rightarrow>
     ((int \<times> closed list \<times> 'x world) res) option" where
  "app_main E intr ts args w =
     (let (rv, gs, w) = parse_options E args init_state w
      in if rv > 0 then Some (Inr (0, [], w))
         else if rv < 0 then Some (Inr (rv, [], w))
         else
           let rv = check_options E gs
           in if rv \<noteq> 0 then Some (Inr (rv, [], w))
              else
                let shutdown = (\<lambda>rv gs w. bind_r (app_shutdown gs w) (\<lambda>(cl, w). Inr (rv, cl, w)));
                    (q, w) = pq_create (Some ''main'') w
                in case q of
                     None \<Rightarrow> Some (shutdown (- ENOMEM) gs w)
                   | Some pq \<Rightarrow>
                       let (rv, gs, w) = files_open E (gs\<lparr>gs_pq := Some pq\<rparr>) w
                       in if rv \<noteq> 0 then Some (shutdown rv gs w)
                          else
                            (case handle_headers gs w of
                               Inl f \<Rightarrow> Some (Inl f)
                             | Inr (rv, w) \<Rightarrow>
                                 if rv \<noteq> 0 then Some (shutdown rv gs w)
                                 else
                                   (case make_processing_chain E gs w of
                                      Inl f \<Rightarrow> Some (Inl f)
                                    | Inr (rv, gs, w) \<Rightarrow>
                                        if rv \<noteq> 0 then Some (shutdown rv gs w)
                                        else
                                          (case run intr ts gs w of
                                             None \<Rightarrow> None
                                           | Some (Inl f) \<Rightarrow> Some (Inl f)
                                           | Some (Inr (rv, gs, w)) \<Rightarrow> Some (shutdown rv gs w)))))"

end
