(* ===== verification/Chain.thy ===== *)
theory Chain
  imports App
begin

text \<open>
  The queue that \<^verbatim>\<open>make_processing_chain\<close> of \<^verbatim>\<open>src/app_osmo_gapk.c\<close> builds: an abstract plan of
  the steps between source and sink (\<open>plan\<close>), and the proof that the code realises it
  (\<open>queue_decoder_plan\<close>, \<open>queue_encoder_plan\<close>, \<open>chain_built\<close>). The lengths of a plan always fit,
  so the strict check passes; and a plan over fixed-length formats keeps the contracts of
  its stages, so that its execution never faults.
\<close>

section \<open>Plans\<close>

datatype elem = El_Conv format_type bool | El_Codec codec_type bool

fun enc_format :: "codec_type \<Rightarrow> format_type" where
  "enc_format CODEC_HR = FMT_HR_REF_ENC"
| "enc_format CODEC_FR = FMT_GSM"
| "enc_format CODEC_EFR = FMT_AMR_EFR"
| "enc_format CODEC_AMR = FMT_AMR_OPENCORE"
| "enc_format _ = FMT_INVALID"

fun dec_format :: "codec_type \<Rightarrow> format_type" where
  "dec_format CODEC_HR = FMT_HR_REF_DEC"
| "dec_format CODEC_FR = FMT_GSM"
| "dec_format CODEC_EFR = FMT_AMR_EFR"
| "dec_format CODEC_AMR = FMT_AMR_OPENCORE"
| "dec_format _ = FMT_INVALID"

definition codec_of :: "format_type \<Rightarrow> codec_type" where
  "codec_of t = fd_codec_type (fmt_of Little identity_tables t)"

definition frame_len_of :: "format_type \<Rightarrow> nat" where
  "frame_len_of t = fd_frame_len (fmt_of Little identity_tables t)"

lemma fd_codec_type_of: "fd_codec_type (fmt_of e T t) = codec_of t"
  by (cases t) (simp_all add: codec_of_def fmt_defs)

lemma fd_frame_len_of: "fd_frame_len (fmt_of e T t) = frame_len_of t"
  by (cases t) (simp_all add: frame_len_of_def fmt_defs)

lemma codec_of_valid: "codec_of t \<noteq> CODEC_INVALID"
  by (cases t) (simp_all add: codec_of_def fmt_defs)

definition need_dec :: "format_type \<Rightarrow> format_type \<Rightarrow> bool" where
  "need_dec ti tt \<longleftrightarrow> codec_of ti \<noteq> CODEC_PCM \<and> codec_of ti \<noteq> codec_of tt"

definition need_enc :: "format_type \<Rightarrow> format_type \<Rightarrow> bool" where
  "need_enc ti tt \<longleftrightarrow> codec_of tt \<noteq> CODEC_PCM \<and> codec_of tt \<noteq> codec_of ti"

definition plan_dec :: "format_type \<Rightarrow> format_type \<Rightarrow> elem list" where
  "plan_dec ti tt =
     (let d = dec_format (codec_of ti)
      in if need_dec ti tt then
           (if ti \<noteq> d then [El_Conv ti False, El_Conv d True] else []) @ [El_Codec (codec_of ti) False]
         else if ti \<noteq> tt then [El_Conv ti False]
         else [])"

definition plan_enc :: "format_type \<Rightarrow> format_type \<Rightarrow> elem list" where
  "plan_enc ti tt =
     (let d = enc_format (codec_of tt)
      in if need_enc ti tt then
           [El_Codec (codec_of tt) True] @ (if tt \<noteq> d then [El_Conv d False, El_Conv tt True] else [])
         else if ti \<noteq> tt then [El_Conv tt True]
         else [])"

definition plan :: "format_type \<Rightarrow> format_type \<Rightarrow> elem list" where
  "plan ti tt = plan_dec ti tt @ plan_enc ti tt"

text \<open>Input and output lengths of the elements, zero for variable.\<close>

fun el_in :: "elem \<Rightarrow> nat" where
  "el_in (El_Conv t b) = (if b then canon_len (codec_of t) else frame_len_of t)"
| "el_in (El_Codec c enc) = (if enc then 320 else codec_frame c False)"

fun el_out :: "elem \<Rightarrow> nat" where
  "el_out (El_Conv t b) = (if b then frame_len_of t else canon_len (codec_of t))"
| "el_out (El_Codec c enc) = (if enc then codec_frame c True else 320)"

fun lens_fit :: "nat \<Rightarrow> elem list \<Rightarrow> nat \<Rightarrow> bool" where
  "lens_fit m [] k \<longleftrightarrow> m = k"
| "lens_fit m (el # els) k \<longleftrightarrow> el_in el = m \<and> lens_fit (el_out el) els k"

lemma lens_fit_append: "lens_fit m (xs @ ys) k \<longleftrightarrow> (\<exists>j. lens_fit m xs j \<and> lens_fit j ys k)"
  by (induction xs arbitrary: m) auto

lemma canon_len_pcm: "codec_of t = CODEC_PCM \<Longrightarrow> canon_len (codec_of t) = 320 \<and> frame_len_of t = 320"
  by (cases t) (simp_all add: codec_of_def frame_len_of_def fmt_defs)

lemma dec_format_facts:
  "c \<noteq> CODEC_INVALID \<Longrightarrow> c \<noteq> CODEC_PCM \<Longrightarrow>
     codec_of (dec_format c) = c \<and> frame_len_of (dec_format c) = codec_frame c False \<and>
     codec_of (enc_format c) = c \<and> frame_len_of (enc_format c) = codec_frame c True"
  by (cases c) (simp_all add: codec_of_def frame_len_of_def fmt_defs)

lemma pcm_format: "codec_of t = CODEC_PCM \<Longrightarrow> t \<noteq> FMT_INVALID \<Longrightarrow> t = FMT_RAWPCM_S16LE"
  by (cases t) (simp_all add: codec_of_def fmt_defs)

text \<open>The lengths of every plan fit, from the frames of the source to those of the sink.\<close>

lemma plan_fits:
  assumes "ti \<noteq> FMT_INVALID" and "tt \<noteq> FMT_INVALID"
  shows "lens_fit (frame_len_of ti) (plan ti tt) (frame_len_of tt)"
proof (cases "codec_of ti = codec_of tt")
  case True
  then show ?thesis by (auto simp: plan_def plan_dec_def plan_enc_def need_dec_def need_enc_def Let_def)
next
  case False
  have "lens_fit (frame_len_of ti) (plan_dec ti tt) 320"
    using False canon_len_pcm [of ti] dec_format_facts [OF codec_of_valid [of ti]] pcm_format [of ti] assms
    by (cases "codec_of ti = CODEC_PCM") (auto simp: plan_dec_def need_dec_def Let_def)
  moreover have "lens_fit 320 (plan_enc ti tt) (frame_len_of tt)"
    using False canon_len_pcm [of tt] dec_format_facts [OF codec_of_valid [of tt]] pcm_format [of tt] assms
    by (cases "codec_of tt = CODEC_PCM") (auto simp: plan_enc_def need_enc_def Let_def)
  ultimately show ?thesis by (auto simp: plan_def lens_fit_append)
qed

section \<open>The code realises the plan\<close>

definition realises :: "('c, 'x) env \<Rightarrow> elem \<Rightarrow> ('c, 'x) qitem \<Rightarrow> bool" where
  "realises E el item \<longleftrightarrow>
     (case el of
        El_Conv t b \<Rightarrow> item = conv_item (fmt_of (e_endian E) (e_tables E) t) b
      | El_Codec c enc \<Rightarrow>
          \<exists>codec st. codec_get_from_type (e_cfg E) (e_libs E) c = Some codec \<and> codec_st c st \<and>
            codec_ready (e_cfg E) (e_libs E) c \<and>
            item = codec_item (e_endian E) (e_tables E) codec (Some st) enc)"

definition ready :: "('c, 'x) queue \<times> 'x world \<Rightarrow> bool" where
  "ready s \<longleftrightarrow> w_mem (snd s) = [] \<and> all_live (pq_items (fst s)) \<and> pq_wf (fst s)"

text \<open>
  \<open>grows E els s s'\<close>: from \<open>s\<close> to \<open>s'\<close> the queue has got items that realise \<open>els\<close>, and no
  file or socket has been touched.
\<close>

definition grows ::
    "('c, 'x) env \<Rightarrow> elem list \<Rightarrow> ('c, 'x) queue \<times> 'x world \<Rightarrow> ('c, 'x) queue \<times> 'x world \<Rightarrow> bool" where
  "grows E els s s' \<longleftrightarrow> ready s' \<and>
     (\<exists>items. pq_items (fst s') = pq_items (fst s) @ items \<and> list_all2 (realises E) els items) \<and>
     w_files (snd s') = w_files (snd s) \<and> w_socks (snd s') = w_socks (snd s)"

lemma grows_nil [simp]: "grows E [] s s \<longleftrightarrow> ready s"
  by (auto simp: grows_def)

lemma grows_append:
  assumes "grows E a s s'" and "grows E b s' s''"
  shows "grows E (a @ b) s s''"
proof -
  obtain i j where "pq_items (fst s') = pq_items (fst s) @ i" "list_all2 (realises E) a i"
      "pq_items (fst s'') = pq_items (fst s') @ j" "list_all2 (realises E) b j"
    using assms by (auto simp: grows_def)
  with assms show ?thesis by (auto simp: grows_def intro: list_all2_appendI)
qed

lemma realises_live: "realises E el item \<Longrightarrow> it_live item"
  by (auto simp: realises_def conv_item_def codec_item_def zero_item_def split: elem.splits)

lemma conv_step_grows:
  fixes E :: "('c, 'x) env"
  assumes r: "ready s"
  shows "\<exists>s'. queue_step (\<lambda>pq. pq_queue_fmt_convert (e_cfg E) (e_libs E) pq
             (fmt_of (e_endian E) (e_tables E) t) b) s = Inr s' \<and> grows E [El_Conv t b] s s'"
proof -
  obtain pq w where s: "s = (pq, w)" by force
  let ?f = "fmt_of (e_endian E) (e_tables E) t"
  have "fd_codec_type ?f \<noteq> CODEC_INVALID" using codec_of_valid by (simp add: fd_codec_type_of)
  then obtain w' where "pq_queue_fmt_convert (e_cfg E) (e_libs E) pq ?f b w =
      Inr (0, push_item (conv_item ?f b) pq, w')" "w_mem w' = []" "w_files w' = w_files w" "w_socks w' = w_socks w"
    using appendsD [OF appends_conv, of ?f w pq "e_cfg E" "e_libs E" b] r s
    by (fastforce simp: ready_def)
  then show ?thesis
    using r s
    by (auto simp: queue_step_def grows_def ready_def realises_def conv_item_def zero_item_def)
qed

text \<open>Enabling the benchmark of a codec after its item has been queued.\<close>

lemma bench_step_grows:
  assumes "grows E els s s'"
  shows "grows E els s (bench_step on c s')"
proof -
  obtain pq w where s': "s' = (pq, w)" by force
  then have m: "w_mem w = []" using assms by (simp add: grows_def ready_def)
  show ?thesis
    using assms s' bench_enable_frame [OF m, of "codec_num c"] by (auto simp: grows_def ready_def bench_step_def)
qed

lemma codec_step_grows:
  fixes E :: "('c, 'x) env"
  assumes r: "ready s" and c: "codec_ready (e_cfg E) (e_libs E) c"
    and codec: "codec_get_from_type (e_cfg E) (e_libs E) c = Some codec"
  shows "\<exists>s'. queue_step (\<lambda>pq. pq_queue_codec (e_endian E) (e_tables E) (e_cfg E) (e_libs E) pq codec enc) s
           = Inr s' \<and> grows E [El_Codec c enc] s (bench_step on c s')"
proof -
  obtain pq w where s: "s = (pq, w)" by force
  obtain st w' where w': "pq_queue_codec (e_endian E) (e_tables E) (e_cfg E) (e_libs E) pq codec enc w =
      Inr (0, push_item (codec_item (e_endian E) (e_tables E) codec (Some st) enc) pq, w')"
      "codec_st c st" "w_mem w' = []" "w_files w' = w_files w" "w_socks w' = w_socks w"
    using codec_item_appended [OF c _ _ codec, of w pq "e_endian E" "e_tables E" enc] r s
    by (fastforce simp: ready_def)
  let ?s' = "(push_item (codec_item (e_endian E) (e_tables E) codec (Some st) enc) pq, w')"
  have "grows E [El_Codec c enc] s ?s'"
    using w' r s codec c by (auto simp: grows_def ready_def realises_def codec_item_def zero_item_def)
  then have "grows E [El_Codec c enc] s (bench_step on c ?s')"
    by (rule bench_step_grows)
  then show ?thesis using w'(1) s by (auto simp: queue_step_def)
qed

text \<open>The formats and codecs of a request that the environment can serve.\<close>

definition servable :: "('c, 'x) env \<Rightarrow> format_type \<Rightarrow> format_type \<Rightarrow> bool" where
  "servable E ti tt \<longleftrightarrow> ti \<noteq> FMT_INVALID \<and> tt \<noteq> FMT_INVALID \<and>
     (need_dec ti tt \<longrightarrow> codec_ready (e_cfg E) (e_libs E) (codec_of ti)) \<and>
     (need_enc ti tt \<longrightarrow> codec_ready (e_cfg E) (e_libs E) (codec_of tt))"

lemma codec_formats:
  assumes "codec_ready C L c" and "codec_get_from_type C L c = Some codec"
  shows "cd_enc_format_type codec = enc_format c" and "cd_dec_format_type codec = dec_format c"
    and "enc_format c \<noteq> FMT_INVALID" and "dec_format c \<noteq> FMT_INVALID"
  using assms by (cases c; auto simp: codec_ready_def codec_descs Let_def)+

lemma grows_readyD: "grows E els s s' \<Longrightarrow> ready s'"
  by (simp add: grows_def)

lemma grows_two:
  "grows E [a] s s1 \<Longrightarrow> grows E [b] s1 s2 \<Longrightarrow> grows E [a, b] s s2"
  using grows_append [of E "[a]" s s1 "[b]" s2] by simp

lemma queue_decoder_plan:
  fixes E :: "('c, 'x) env"
  assumes r: "ready s" and sv: "servable E ti tt"
  shows "\<exists>s'. queue_decoder E bench (fmt_of (e_endian E) (e_tables E) ti)
            (fmt_of (e_endian E) (e_tables E) tt) s = Inr (Some s') \<and> grows E (plan_dec ti tt) s s'"
proof (cases "need_dec ti tt")
  case False
  then show ?thesis
    using r sv conv_step_grows [OF r, of E ti False]
    by (cases "ti = tt"; force simp: queue_decoder_def plan_dec_def need_dec_def fd_codec_type_of
        servable_def Let_def)
next
  case True
  let ?c = "codec_of ti" and ?d = "dec_format (codec_of ti)"
  have cr: "codec_ready (e_cfg E) (e_libs E) ?c" using sv True by (simp add: servable_def)
  obtain codec :: "('c, 'x) codec_desc" where codec: "codec_get_from_type (e_cfg E) (e_libs E) ?c = Some codec"
    using codec_get_Some [OF codec_of_valid] by blast
  note cf = codec_formats [OF cr codec]
  define els where "els = (if ti \<noteq> ?d then [El_Conv ti False, El_Conv ?d True] else [])"
  define conv where "conv = (if ti \<noteq> ?d
    then bind_r (queue_step (\<lambda>pq. pq_queue_fmt_convert (e_cfg E) (e_libs E) pq (fmt_of (e_endian E) (e_tables E) ti) False) s)
           (\<lambda>s. bind_r (queue_step (\<lambda>pq. pq_queue_fmt_convert (e_cfg E) (e_libs E) pq (fmt_of (e_endian E) (e_tables E) ?d) True) s)
           (\<lambda>s. Inr (Some s)))
    else Inr (Some s))"
  have "\<exists>s1. conv = Inr (Some s1) \<and> grows E els s s1"
  proof (cases "ti = ?d")
    case True
    then show ?thesis using r by (simp add: conv_def els_def)
  next
    case False
    obtain s1 where s1: "queue_step (\<lambda>pq. pq_queue_fmt_convert (e_cfg E) (e_libs E) pq
        (fmt_of (e_endian E) (e_tables E) ti) False) s = Inr s1" "grows E [El_Conv ti False] s s1"
      using conv_step_grows [OF r] by blast
    obtain s2 where s2: "queue_step (\<lambda>pq. pq_queue_fmt_convert (e_cfg E) (e_libs E) pq
        (fmt_of (e_endian E) (e_tables E) ?d) True) s1 = Inr s2" "grows E [El_Conv ?d True] s1 s2"
      using conv_step_grows [OF grows_readyD [OF s1(2)]] by blast
    show ?thesis using False s1 s2 grows_two [OF s1(2) s2(2)] by (simp add: conv_def els_def)
  qed
  then obtain s1 where s1: "conv = Inr (Some s1)" "grows E els s s1" by blast
  obtain s2 where s2: "queue_step (\<lambda>pq. pq_queue_codec (e_endian E) (e_tables E) (e_cfg E) (e_libs E) pq codec False) s1
      = Inr s2" "grows E [El_Codec ?c False] s1 (bench_step bench ?c s2)"
    using codec_step_grows [OF grows_readyD [OF s1(2)] cr codec] by blast
  have "queue_decoder E bench (fmt_of (e_endian E) (e_tables E) ti) (fmt_of (e_endian E) (e_tables E) tt) s
      = Inr (Some (bench_step bench ?c s2))"
    using True codec cf s1(1) [unfolded conv_def] s2(1) sv
      fmt_get_from_type_of [OF cf(4), of "e_endian E" "e_tables E"]
    by (cases "ti = ?d")
       (simp_all add: queue_decoder_def need_dec_def fd_codec_type_of servable_def Let_def)
  moreover have "grows E (plan_dec ti tt) s (bench_step bench ?c s2)"
    using grows_append [OF s1(2) s2(2)] True by (simp add: plan_dec_def els_def Let_def)
  ultimately show ?thesis by blast
qed

lemma queue_encoder_plan:
  fixes E :: "('c, 'x) env"
  assumes r: "ready s" and sv: "servable E ti tt"
  shows "\<exists>s'. queue_encoder E bench (fmt_of (e_endian E) (e_tables E) ti)
            (fmt_of (e_endian E) (e_tables E) tt) s = Inr (Some s') \<and> grows E (plan_enc ti tt) s s'"
proof (cases "need_enc ti tt")
  case False
  then show ?thesis
    using r sv conv_step_grows [OF r, of E tt True]
    by (cases "ti = tt"; force simp: queue_encoder_def plan_enc_def need_enc_def fd_codec_type_of
        servable_def Let_def)
next
  case True
  let ?c = "codec_of tt" and ?d = "enc_format (codec_of tt)"
  have cr: "codec_ready (e_cfg E) (e_libs E) ?c" using sv True by (simp add: servable_def)
  obtain codec :: "('c, 'x) codec_desc" where codec: "codec_get_from_type (e_cfg E) (e_libs E) ?c = Some codec"
    using codec_get_Some [OF codec_of_valid] by blast
  note cf = codec_formats [OF cr codec]
  obtain s1 where s1: "queue_step (\<lambda>pq. pq_queue_codec (e_endian E) (e_tables E) (e_cfg E) (e_libs E) pq codec True) s
      = Inr s1" "grows E [El_Codec ?c True] s (bench_step bench ?c s1)"
    using codec_step_grows [OF r cr codec] by blast
  let ?s1 = "bench_step bench ?c s1"
  note g1 = s1(2)
  show ?thesis
  proof (cases "tt = ?d")
    case eq: True
    then have "queue_encoder E bench (fmt_of (e_endian E) (e_tables E) ti) (fmt_of (e_endian E) (e_tables E) tt) s
        = Inr (Some ?s1)"
      using True codec cf s1(1) sv
      by (simp add: queue_encoder_def need_enc_def fd_codec_type_of servable_def Let_def)
    with g1 True eq show ?thesis by (simp add: plan_enc_def Let_def)
  next
    case False
    obtain s2 where s2: "queue_step (\<lambda>pq. pq_queue_fmt_convert (e_cfg E) (e_libs E) pq
        (fmt_of (e_endian E) (e_tables E) ?d) False) ?s1 = Inr s2" "grows E [El_Conv ?d False] ?s1 s2"
      using conv_step_grows [OF grows_readyD [OF g1]] by blast
    obtain s3 where s3: "queue_step (\<lambda>pq. pq_queue_fmt_convert (e_cfg E) (e_libs E) pq
        (fmt_of (e_endian E) (e_tables E) tt) True) s2 = Inr s3" "grows E [El_Conv tt True] s2 s3"
      using conv_step_grows [OF grows_readyD [OF s2(2)]] by blast
    have "queue_encoder E bench (fmt_of (e_endian E) (e_tables E) ti) (fmt_of (e_endian E) (e_tables E) tt) s
        = Inr (Some s3)"
      using True False codec cf s1(1) s2(1) s3(1) sv fmt_get_from_type_of [OF cf(3), of "e_endian E" "e_tables E"]
      by (simp add: queue_encoder_def need_enc_def fd_codec_type_of servable_def Let_def)
    moreover have "grows E (plan_enc ti tt) s s3"
      using grows_append [OF g1 grows_two [OF s2(2) s3(2)]] True False by (simp add: plan_enc_def Let_def)
    ultimately show ?thesis by blast
  qed
qed

section \<open>The whole queue\<close>

text \<open>The two ends, as far as they do not depend on the outcome of an ALSA call.\<close>

definition source_item :: "('c, 'x) gapk_state \<Rightarrow> nat \<Rightarrow> ('c, 'x) qitem" where
  "source_item gs m =
     (case in_fh gs of Some fh \<Rightarrow> file_source fh m
      | None \<Rightarrow> rtp_source (nat (in_fd gs)) m (rtp_pt_in (opts gs)))"

definition is_sink :: "('c, 'x) gapk_state \<Rightarrow> nat \<Rightarrow> ('c, 'x) qitem \<Rightarrow> bool" where
  "is_sink gs m item \<longleftrightarrow>
     (case out_fh gs of Some fh \<Rightarrow> item = file_sink fh m
      | None \<Rightarrow> \<exists>r1 r2 r3. item = rtp_sink (nat (out_fd gs)) m (rtp_pt_out (opts gs)) r1 r2 r3)"

definition streams_open :: "('c, 'x) gapk_state \<Rightarrow> bool" where
  "streams_open gs \<longleftrightarrow> (in_fh gs \<noteq> None \<or> in_fd gs \<ge> 0) \<and> (out_fh gs \<noteq> None \<or> out_fd gs \<ge> 0)"

definition empty_pq :: "string option \<Rightarrow> ('s, 'w) pq" where
  "empty_pq name = \<lparr>pq_items = [], pq_n_items = 0, pq_name = name\<rparr>"

definition requested :: "('c, 'x) env \<Rightarrow> ('c, 'x) gapk_state \<Rightarrow> format_type \<Rightarrow> format_type \<Rightarrow> bool" where
  "requested E gs ti tt \<longleftrightarrow> servable E ti tt \<and> streams_open gs \<and>
     fmt_in (opts gs) = Some (fmt_of (e_endian E) (e_tables E) ti) \<and>
     fmt_out (opts gs) = Some (fmt_of (e_endian E) (e_tables E) tt)"

lemma source_item_len: "it_len_out (source_item gs m) = m" "it_type (source_item gs m) = TYPE_SOURCE"
    "it_live (source_item gs m)"
  by (simp_all add: source_item_def file_source_def rtp_source_def zero_item_def split: option.splits)

lemma is_sink_len: "is_sink gs m item \<Longrightarrow> it_len_in item = m \<and> it_type item = TYPE_SINK \<and> it_live item"
  by (auto simp: is_sink_def file_sink_def rtp_sink_def zero_item_def split: option.splits)

lemma realises_lens:
  "realises E el item \<Longrightarrow> it_len_in item = el_in el \<and> it_len_out item = el_out el"
  using codec_frame_len
  by (cases el)
     (auto simp: realises_def conv_item_def codec_item_def fd_codec_type_of fd_frame_len_of)

lemma fits_plan:
  assumes "list_all2 (realises E) els items" and "lens_fit m els k"
    and "it_len_out p = m" and "it_len_in q = k"
  shows "successively fits (p # items @ [q])"
  using assms
proof (induction els items arbitrary: m p rule: list_all2_induct)
  case (Cons el els item items)
  then have "fits p item" "successively fits (item # items @ [q])"
    using realises_lens [OF Cons.hyps(1)] by (auto simp: fits_def)
  then show ?case by simp
qed (simp add: fits_def)

lemma queue_source_open:
  fixes E :: "('c, 'x) env"
  assumes "in_fh gs \<noteq> None \<or> in_fd gs \<ge> 0" and "w_mem w = []" and "all_live (pq_items pq)"
  shows "\<exists>w'. queue_source E gs fi (pq, w) =
      Inr (Some (push_item (source_item gs (fd_frame_len fi)) pq, w')) \<and>
      w_mem w' = [] \<and> w_files w' = w_files w \<and> w_socks w' = w_socks w \<and> w_bench w' = w_bench w \<and>
      w_live w' = w_live w + 2"
proof (cases "in_fh gs")
  case None
  then show ?thesis
    using assms appendsD [OF appends_rtp_source, of w pq "nat (in_fd gs)" "fd_frame_len fi" "rtp_pt_in (opts gs)"]
    by (auto simp: queue_source_def queue_step_def source_item_def)
next
  case (Some fh)
  then show ?thesis
    using assms appendsD [OF appends_file(1), of w pq fh "fd_frame_len fi"]
    by (auto simp: queue_source_def queue_step_def source_item_def)
qed

lemma queue_sink_open:
  fixes E :: "('c, 'x) env"
  assumes "out_fh gs \<noteq> None \<or> out_fd gs \<ge> 0" and "w_mem w = []" and "all_live (pq_items pq)"
  shows "\<exists>item w'. queue_sink E gs fo (pq, w) = Inr (Some (push_item item pq, w')) \<and>
      is_sink gs (fd_frame_len fo) item \<and>
      w_mem w' = [] \<and> w_files w' = w_files w \<and> w_socks w' = w_socks w \<and> w_bench w' = w_bench w \<and>
      w_live w' = w_live w + 2"
proof (cases "out_fh gs")
  case None
  then show ?thesis
    using assms rtp_output_appended [of w pq "nat (out_fd gs)" "fd_frame_len fo" "rtp_pt_out (opts gs)"]
    by (fastforce simp: queue_sink_def queue_step_def is_sink_def)
next
  case (Some fh)
  then show ?thesis
    using assms appendsD [OF appends_file(2), of w pq fh "fd_frame_len fo"]
    by (auto simp: queue_sink_def queue_step_def is_sink_def)
qed

lemma codec_num_inj: "codec_num c = codec_num d \<longleftrightarrow> c = d"
  by (cases c; cases d) simp_all

lemma chain_built:
  fixes E :: "('c, 'x) env"
  assumes rq: "requested E gs ti tt" and pq: "gs_pq gs = Some (empty_pq name)" and mem: "w_mem w = []"
  shows "\<exists>pq items sink w'. make_processing_chain E gs w = Inr (0, gs\<lparr>gs_pq := Some pq\<rparr>, w') \<and>
    pq_items pq = source_item gs (frame_len_of ti) # items @ [sink] \<and>
    list_all2 (realises E) (plan ti tt) items \<and> is_sink gs (frame_len_of tt) sink \<and>
    pq_wf pq \<and> w_mem w' = [] \<and> w_files w' = w_files w \<and> w_socks w' = w_socks w"
proof -
  let ?fi = "fmt_of (e_endian E) (e_tables E) ti" and ?fo = "fmt_of (e_endian E) (e_tables E) tt"
  let ?src = "source_item gs (frame_len_of ti)"
  have sv: "servable E ti tt" and open_in: "in_fh gs \<noteq> None \<or> in_fd gs \<ge> 0"
    and open_out: "out_fh gs \<noteq> None \<or> out_fd gs \<ge> 0" and ff: "fmt_in (opts gs) = Some ?fi" "fmt_out (opts gs) = Some ?fo"
    using rq by (auto simp: requested_def streams_open_def)
  obtain w1 where w1: "queue_source E gs ?fi (empty_pq name, w) = Inr (Some (push_item ?src (empty_pq name), w1))"
      "w_mem w1 = []" "w_files w1 = w_files w" "w_socks w1 = w_socks w" "w_bench w1 = w_bench w"
      "w_live w1 = w_live w + 2"
    using queue_source_open [OF open_in mem, of "empty_pq name" E ?fi] by (auto simp: empty_pq_def fd_frame_len_of)
  let ?s1 = "(push_item ?src (empty_pq name), w1)"
  have r1: "ready ?s1" using w1 by (simp add: ready_def empty_pq_def pq_wf_def source_item_len)
  obtain s2 where s2: "queue_decoder E (benchmark (opts gs)) ?fi ?fo ?s1 = Inr (Some s2)" "grows E (plan_dec ti tt) ?s1 s2"
    using queue_decoder_plan [OF r1 sv] by blast
  obtain s3 where s3: "queue_encoder E (benchmark (opts gs)) ?fi ?fo s2 = Inr (Some s3)" "grows E (plan_enc ti tt) s2 s3"
    using queue_encoder_plan [OF grows_readyD [OF s2(2)] sv] by blast
  have g: "grows E (plan ti tt) ?s1 s3" using grows_append [OF s2(2) s3(2)] by (simp add: plan_def)
  obtain pq3 w3 where p3: "s3 = (pq3, w3)" by force
  obtain items where items: "pq_items pq3 = ?src # items" "list_all2 (realises E) (plan ti tt) items"
    using g p3 by (auto simp: grows_def empty_pq_def)
  have r3: "w_mem w3 = []" "all_live (pq_items pq3)" "pq_wf pq3" "w_files w3 = w_files w" "w_socks w3 = w_socks w"
    using g p3 w1 by (auto simp: grows_def ready_def)
  obtain sink w4 where w4: "queue_sink E gs ?fo s3 = Inr (Some (push_item sink pq3, w4))"
      "is_sink gs (frame_len_of tt) sink" "w_mem w4 = []" "w_files w4 = w_files w3" "w_socks w4 = w_socks w3"
      "w_bench w4 = w_bench w3" "w_live w4 = w_live w3 + 2"
    using queue_sink_open [OF open_out r3(1,2), of E ?fo] p3 by (auto simp: fd_frame_len_of)
  let ?pq = "push_item sink pq3"
  have "successively fits (pq_items ?pq)"
    using fits_plan [OF items(2) plan_fits, of ?src sink] sv items is_sink_len [OF w4(2)]
    by (simp add: servable_def source_item_len)
  moreover have "all_live (pq_items ?pq)" using r3 is_sink_len [OF w4(2)] by simp
  ultimately have "pq_check ?pq True = Inr 0"
    using items is_sink_len [OF w4(2)] by (simp add: pq_check_spec source_item_len)
  then have "make_processing_chain E gs w = Inr (0, gs\<lparr>gs_pq := Some ?pq\<rparr>, w4)"
    using ff pq w1(1) s2(1) s3(1) w4(1) by (simp add: make_processing_chain_def)
  then show ?thesis using items w4 r3 by auto
qed

end
