(* ===== verification/Safety.thy ===== *)
theory Safety
  imports Chain
begin

text \<open>
  Execution of the queue that \<^verbatim>\<open>make_processing_chain\<close> builds for a file source and formats of
  fixed length (\<^verbatim>\<open>src/app_osmo_gapk.c\<close>, \<^verbatim>\<open>run\<close>): no execution faults, whatever the bytes of the
  file; and the processing loop ends, after at most as many frames as the file holds.
\<close>

section \<open>Contracts of the planned elements\<close>

fun fixed_elem :: "elem \<Rightarrow> bool" where
  "fixed_elem (El_Conv t b) \<longleftrightarrow> fixed_len t"
| "fixed_elem (El_Codec c enc) \<longleftrightarrow> c \<noteq> CODEC_AMR"

lemma fixed_len_codec: "fixed_len t \<Longrightarrow> codec_of t \<noteq> CODEC_AMR \<and> 0 < frame_len_of t \<and> 0 < canon_len (codec_of t)"
  by (cases t) (simp_all add: fixed_len_def codec_of_def frame_len_of_def fmt_defs)

lemma fixed_len_formats:
  "c \<noteq> CODEC_INVALID \<Longrightarrow> c \<noteq> CODEC_PCM \<Longrightarrow> c \<noteq> CODEC_AMR \<Longrightarrow>
     fixed_len (dec_format c) \<and> fixed_len (enc_format c)"
  by (cases c) (simp_all add: fixed_len_def)

lemma plan_fixed:
  assumes "fixed_len ti" and "fixed_len tt"
  shows "list_all fixed_elem (plan ti tt)"
  using assms fixed_len_codec [of ti] fixed_len_codec [of tt]
    fixed_len_formats [OF codec_of_valid [of ti]] fixed_len_formats [OF codec_of_valid [of tt]]
  by (auto simp: plan_def plan_dec_def plan_enc_def need_dec_def need_enc_def Let_def)

lemma el_out_pos: "fixed_elem el \<Longrightarrow> realises E el item \<Longrightarrow> 0 < el_out el"
  using fixed_len_codec
  by (cases el) (auto simp: realises_def codec_ready_def split: codec_type.splits)

lemma codec_state_ok_st: "codec_st c st \<Longrightarrow> codec_state_ok c (Some (St_Codec st))"
  by (auto simp: codec_st_def codec_state_ok_def lib_st_def enc_dec_st_def split: codec_state.splits)

text \<open>The private state that an element keeps: its converter, or that of its codec.\<close>

definition el_state :: "('c, 'x) env \<Rightarrow> elem \<Rightarrow> 'c item_state option \<Rightarrow> bool" where
  "el_state E el st \<longleftrightarrow>
     (case el of
        El_Conv t b \<Rightarrow>
          st = Some (St_Conv (if b then fd_conv_from_canon (fmt_of (e_endian E) (e_tables E) t)
                              else fd_conv_to_canon (fmt_of (e_endian E) (e_tables E) t)))
      | El_Codec c _ \<Rightarrow> codec_state_ok c st)"

lemma elem_stage:
  fixes E :: "('c, 'x) env"
  assumes T: "good_tables (e_tables E)" and L: "libs_ok (e_libs E)" and W: "\<forall>W \<in> Ws. quiet W"
    and fixed: "fixed_elem el" and r: "realises E el item"
  shows "\<exists>p. it_proc item = Some p \<and> el_state E el (it_state item) \<and>
    (\<forall>W \<in> Ws. stage p (el_state E el) W (holds (el_out el)) (frame (el_in el)) (frame (el_out el)))"
proof (cases el)
  case (El_Conv t b)
  let ?f = "fmt_of (e_endian E) (e_tables E) t"
  have t: "fixed_len t" using fixed El_Conv by simp
  have safe: "conv_safe (if b then fd_conv_from_canon ?f else fd_conv_to_canon ?f) (el_in el) (el_out el)"
    using fmt_conv_safe [OF T t, of "e_endian E"] El_Conv
    by (simp add: fd_codec_type_of fd_frame_len_of)
  have e: "el_state E el = (\<lambda>st :: 'c item_state option.
      st = Some (St_Conv (if b then fd_conv_from_canon ?f else fd_conv_to_canon ?f)))"
    using El_Conv by (simp add: el_state_def fun_eq_iff)
  have st: "stage pq_cb_fmt_convert (el_state E el) W (holds (el_out el)) (frame (el_in el)) (frame (el_out el))"
    for W :: "'x world \<Rightarrow> bool"
    unfolding e by (rule conv_stage [OF safe])
  have item: "item = conv_item ?f b" using r El_Conv by (simp add: realises_def)
  have p: "it_proc item = Some pq_cb_fmt_convert" and s: "el_state E el (it_state item)"
    unfolding item e by (simp_all add: conv_item_def)
  show ?thesis
    by (rule exI [of _ pq_cb_fmt_convert], intro conjI ballI p s st)
next
  case (El_Codec c enc)
  then obtain codec :: "('c, 'x) codec_desc" and st where
    c: "codec_get_from_type (e_cfg E) (e_libs E) c = Some codec" "codec_st c st"
      "codec_ready (e_cfg E) (e_libs E) c"
      "item = codec_item (e_endian E) (e_tables E) codec (Some st) enc"
    using r by (auto simp: realises_def)
  have amr: "c \<noteq> CODEC_AMR" using fixed El_Codec by simp
  have e: "el_state E el = codec_state_ok c" using El_Codec by (simp add: el_state_def fun_eq_iff)
  have st: "codec_state_ok c (it_state item)"
    using codec_state_ok_st [OF c(2)] c(4) by (simp add: codec_item_def)
  show ?thesis
  proof (cases enc)
    case True
    have "\<exists>p. cd_encode codec = Some p \<and> stage p (codec_state_ok c) W (holds (el_out el))
        (frame (el_in el)) (frame (el_out el))" if "W \<in> Ws" for W
      using codec_encode_stage [OF L _ c(3) amr c(1), of W] W that El_Codec True by simp
    moreover obtain p where "cd_encode codec = Some p"
      using codec_encode_stage [OF L quiet_True c(3) amr c(1)] by blast
    ultimately show ?thesis using st c(4) True unfolding e by (auto simp: codec_item_def)
  next
    case False
    have "\<exists>p. cd_decode codec = Some p \<and> stage p (codec_state_ok c) W (holds (el_out el))
        (frame (el_in el)) (frame (el_out el))" if "W \<in> Ws" for W
      using codec_decode_stage [OF L _ c(3) amr c(1), of W] W that El_Codec False by simp
    moreover obtain p where "cd_decode codec = Some p"
      using codec_decode_stage [OF L quiet_True c(3) amr c(1)] by blast
    ultimately show ?thesis using st c(4) False unfolding e by (auto simp: codec_item_def)
  qed
qed

lemma realises_type: "realises E el item \<Longrightarrow> it_type item = TYPE_PROC"
  by (auto simp: realises_def conv_item_def codec_item_def split: elem.splits)

lemma chain_elems:
  fixes E :: "('c, 'x) env"
  assumes T: "good_tables (e_tables E)" and L: "libs_ok (e_libs E)" and W: "\<forall>W \<in> Ws. quiet W"
    and r: "list_all2 (realises E) els items" and fixed: "list_all fixed_elem els"
    and fit: "lens_fit m els k" and rest: "chain_ok will_have_room Ws (frame k) rest"
  shows "chain_ok will_have_room Ws (frame m) (items @ rest)"
  using r fixed fit
proof (induction els items arbitrary: m rule: list_all2_induct)
  case (Cons el els item items)
  obtain p where p: "it_proc item = Some p" "el_state E el (it_state item)"
      "\<forall>W \<in> Ws. stage p (el_state E el) W (holds (el_out el)) (frame (el_in el)) (frame (el_out el))"
    using elem_stage [OF T L W _ Cons.hyps(1)] Cons.prems by auto
  have "el_out el = buf_size item"
    using el_out_pos [OF _ Cons.hyps(1)] realises_lens [OF Cons.hyps(1)] Cons.prems by (simp add: buf_size_def)
  then have "will_have_room (holds (el_out el)) item"
    using realises_type [OF Cons.hyps(1)] by (simp add: will_have_room_holds)
  moreover have "chain_ok will_have_room Ws (frame (el_out el)) (items @ rest)"
    using Cons.IH Cons.prems by simp
  ultimately show ?case
    using p realises_live [OF Cons.hyps(1)] Cons.prems
    by (auto intro: chain_ok.chain_Cons [where st_ok = "el_state E el"])
qed (use rest in simp)

text \<open>The sink, for conditions on the world that its own output does not matter to.\<close>

definition indifferent :: "('c, 'x) gapk_state \<Rightarrow> ('x world \<Rightarrow> bool) \<Rightarrow> bool" where
  "indifferent gs W \<longleftrightarrow>
     (case out_fh gs of
        Some fh \<Rightarrow> \<forall>w f. W w \<longrightarrow> W (w\<lparr>w_files := (w_files w)(fh := f)\<rparr>)
      | None \<Rightarrow> \<forall>w s. W w \<longrightarrow> W (w\<lparr>w_socks := s\<rparr>))"

lemma chain_sink:
  fixes sink :: "('c, 'x) qitem"
  assumes W: "\<forall>W \<in> Ws. indifferent gs W" and s: "is_sink gs k sink"
  shows "chain_ok will_have_room Ws (frame k) [sink]"
proof (cases "out_fh gs")
  case None
  then obtain r1 r2 r3 where r: "sink = rtp_sink (nat (out_fd gs)) k (rtp_pt_out (opts gs)) r1 r2 r3"
    using s by (auto simp: is_sink_def)
  have "stage pq_cb_rtp_output (rtp_st (nat (out_fd gs)) k :: 'c item_state option \<Rightarrow> bool) W (\<lambda>_. True)
      (frame k) (\<lambda>_ n. n = 0)" if "W \<in> Ws" for W
    by (rule stage.weaken [OF rtp_output_stage]) (use W that None in \<open>auto simp: indifferent_def frame_def\<close>)
  then show ?thesis
    using r by (intro chain_ok.chain_Cons [where st_ok = "rtp_st (nat (out_fd gs)) k" and room = "\<lambda>_. True"
          and post = "\<lambda>_ n. n = 0"])
       (auto simp: rtp_sink_def zero_item_def rtp_st_def will_have_room_def)
next
  case (Some fh)
  then have r: "sink = file_sink fh k" using s by (simp add: is_sink_def)
  have "stage pq_cb_file_output (file_st fh k :: 'c item_state option \<Rightarrow> bool) W (\<lambda>_. True)
      (frame k) (\<lambda>_ n. n = 0)" if "W \<in> Ws" for W
    by (rule stage.weaken [OF file_output_stage]) (use W that Some in \<open>auto simp: indifferent_def frame_def\<close>)
  then show ?thesis
    using r by (intro chain_ok.chain_Cons [where st_ok = "file_st fh k" and room = "\<lambda>_. True"
          and post = "\<lambda>_ n. n = 0"])
       (auto simp: file_sink_def zero_item_def file_st_def will_have_room_def)
qed

section \<open>A queue that reads from a file\<close>

text \<open>
  \<open>input_is fh f\<close>: the input file is as in \<open>f\<close>. The items behind the source keep it, which
  is where the loop gets its measure from.
\<close>

definition input_is :: "nat \<Rightarrow> file_obj \<Rightarrow> 'x world \<Rightarrow> bool" where
  "input_is fh f w \<longleftrightarrow> w_files w fh = f"

definition file_queue :: "nat \<Rightarrow> nat \<Rightarrow> ('c, 'x) qitem list \<Rightarrow> bool" where
  "file_queue fh m items \<longleftrightarrow>
     (\<exists>d rest. items = (file_source fh m)\<lparr>it_buf := Some d\<rparr> # rest \<and> length d = m \<and>
        rest \<noteq> [] \<and> it_wait (last rest) = None \<and>
        chain_ok has_room (range (input_is fh)) (frame m) rest)"

lemma exec_items_last:
  "exec_items b n items w = Inr (rv, items', w') \<Longrightarrow>
     length items' = length items \<and> (items \<noteq> [] \<longrightarrow> it_wait (last items') = it_wait (last items))"
proof (induction b n items w arbitrary: rv items' w' rule: exec_items.induct)
  case (2 b n item items w)
  then show ?case
    by (cases "items = []") (auto simp: bind_r_Inr_iff Let_def split: if_splits prod.splits, fastforce+)
qed auto

lemma file_queue_block:
  fixes items :: "('c, 'x) qitem list"
  assumes q: "file_queue fh m items" and m: "0 < m"
    and more: "fl_pos (w_files w fh) + m \<le> length (fl_data (w_files w fh))"
  shows "\<exists>rv items' w'. exec_items None 0 items w = Inr (rv, items', w') \<and> rv \<le> 0 \<and>
    file_queue fh m items' \<and>
    w_files w' fh = (w_files w fh)\<lparr>fl_pos := fl_pos (w_files w fh) + m\<rparr>"
proof -
  obtain d rest where q: "items = (file_source fh m)\<lparr>it_buf := Some d\<rparr> # rest" "length d = m" "rest \<noteq> []"
      "it_wait (last rest) = None" "chain_ok has_room (range (input_is fh)) (frame m) rest"
    using q by (auto simp: file_queue_def)
  let ?f = "(w_files w fh)\<lparr>fl_pos := fl_pos (w_files w fh) + m\<rparr>"
  let ?w = "w\<lparr>w_files := (w_files w)(fh := ?f)\<rparr>"
  let ?d = "take m (drop (fl_pos (w_files w fh)) (fl_data (w_files w fh))) @ drop m d"
  have len: "length ?d = m" using more q(2) by simp
  have "input_is fh ?f ?w" by (simp add: input_is_def)
  then obtain rv rest' w' where r: "exec_items (Some ?d) m rest ?w = Inr (rv, rest', w')"
      "chain_ok has_room (range (input_is fh)) (frame m) rest'" "input_is fh ?f w'" "rv \<le> 0"
    using chain_exec_items [OF q(5), of "input_is fh ?f" "Some ?d" m ?w] len by (auto simp: frame_def)
  let ?st = "it_state (file_source fh m :: ('c, 'x) qitem)"
  have "pq_cb_file_input ?st (Some d) None 0 w = Inr (int m, ?st, Some ?d, ?w)"
    using m q(2) more by (intro file_input_block) (auto simp: file_st_def file_source_def)
  then have "exec_items None 0 items w = Inr (rv, (file_source fh m)\<lparr>it_buf := Some ?d\<rparr> # rest', w')"
    using q(1) r(1) by (simp add: file_source_def zero_item_def)
  moreover have "rest' \<noteq> []" "it_wait (last rest') = None" using exec_items_last [OF r(1)] q by auto
  ultimately show ?thesis
    using r len by (auto simp: file_queue_def input_is_def)
qed

lemma file_queue_end:
  fixes items :: "('c, 'x) qitem list"
  assumes q: "file_queue fh m items"
    and less: "length (fl_data (w_files w fh)) < fl_pos (w_files w fh) + m"
  shows "\<exists>items' w'. exec_items None 0 items w = Inr (-1, items', w') \<and> file_queue fh m items' \<and>
    (\<forall>h. h \<noteq> fh \<longrightarrow> w_files w' h = w_files w h)"
proof -
  obtain d rest where q: "items = (file_source fh m)\<lparr>it_buf := Some d\<rparr> # rest" "length d = m" "rest \<noteq> []"
      "it_wait (last rest) = None" "chain_ok has_room (range (input_is fh)) (frame m) rest"
    using q by (auto simp: file_queue_def)
  obtain d' w' where d': "pq_cb_file_input (it_state (file_source fh m :: ('c, 'x) qitem)) (Some d) None 0 w =
      Inr (-1, it_state (file_source fh m :: ('c, 'x) qitem), Some d', w')" "length d' = length d"
      "\<forall>h. h \<noteq> fh \<longrightarrow> w_files w' h = w_files w h"
    using file_input_end [of fh m "it_state (file_source fh m :: ('c, 'x) qitem)" d w None 0] q(2) less
    by (auto simp: file_st_def file_source_def)
  then have "exec_items None 0 items w = Inr (-1, (file_source fh m)\<lparr>it_buf := Some d'\<rparr> # rest, w')"
    using q(1) by (simp add: file_source_def zero_item_def)
  with d' q show ?thesis by (auto simp: file_queue_def)
qed

section \<open>The processing loop ends\<close>

lemma interrupted_simps [simp]:
  "gs_pq (interrupted b gs) = gs_pq gs" "num_frames (interrupted b gs) = num_frames gs"
  "opts (interrupted b gs) = opts gs" "interrupted False gs = gs"
  by (simp_all add: interrupted_def)

lemma loop_ends:
  fixes gs :: "('c, 'x) gapk_state"
  assumes q: "gs_pq gs = Some pq" "file_queue fh m (pq_items pq)" and m: "0 < m"
    and k: "k = (length (fl_data (w_files w fh)) - fl_pos (w_files w fh)) div m"
  shows "\<exists>n rv' gs' w' pq'. run_loop intr rv gs w = Some (Inr (rv', gs', w')) \<and>
    n \<le> k \<and> num_frames gs' = num_frames gs + of_nat n \<and>
    gs_pq gs' = Some pq' \<and> file_queue fh m (pq_items pq')"
  using q k
proof (induction k arbitrary: gs pq w rv intr rule: less_induct)
  case (less k)
  let ?f = "w_files w fh" and ?gs = "interrupted (intr 0) gs"
  show ?case
  proof (cases "gs_exit ?gs = 0")
    case False
    then have "run_loop intr rv gs w = Some (Inr (rv, ?gs, w))"
      by (subst run_loop.simps) (simp add: Let_def)
    then show ?thesis using less.prems by - (rule exI [of _ "0::nat"], auto)
  next
    case go: True
    show ?thesis
    proof (cases "fl_pos ?f + m \<le> length (fl_data ?f)")
      case False
      then obtain items' w' where e: "exec_items None 0 (pq_items pq) w = Inr (-1, items', w')"
          "file_queue fh m items'"
        using file_queue_end [OF less.prems(2), of w] by auto
      then have "run_loop intr rv gs w = Some (Inr (-1, ?gs\<lparr>gs_pq := Some (pq\<lparr>pq_items := items'\<rparr>)\<rparr>, w'))"
        using go less.prems(1) by (subst run_loop.simps) (simp add: Let_def pq_execute_def)
      then show ?thesis using e(2) by - (rule exI [of _ "0::nat"], auto)
    next
      case True
      then obtain rv1 items' w1 where e: "exec_items None 0 (pq_items pq) w = Inr (rv1, items', w1)"
          "file_queue fh m items'" "w_files w1 fh = ?f\<lparr>fl_pos := fl_pos ?f + m\<rparr>"
        using file_queue_block [OF less.prems(2) m] by blast
      let ?gs1 = "?gs\<lparr>gs_pq := Some (pq\<lparr>pq_items := items'\<rparr>)\<rparr>"
      show ?thesis
      proof (cases "rv1 = 0")
        case False
        then have "run_loop intr rv gs w = Some (Inr (rv1, ?gs1, w1))"
          using go less.prems(1) e(1) by (subst run_loop.simps) (simp add: Let_def pq_execute_def)
        then show ?thesis using e(2) by - (rule exI [of _ "0::nat"], auto)
      next
        case zero: True
        let ?gs2 = "?gs1\<lparr>num_frames := num_frames gs + 1\<rparr>"
        define k1 where "k1 = (length (fl_data (w_files w1 fh)) - fl_pos (w_files w1 fh)) div m"
        have k1: "k = Suc k1"
          using True m e(3) less.prems(3) k1_def
            le_div_geq [of m "length (fl_data ?f) - fl_pos ?f"] by simp
        have "run_loop intr rv gs w = run_loop (\<lambda>i. intr (i + 1)) 0 ?gs2 w1"
          using go zero less.prems(1) e(1)
          by (subst run_loop.simps) (simp add: Let_def pq_execute_def)
        moreover obtain n rv' gs' w' pq' where
            "run_loop (\<lambda>i. intr (i + 1)) 0 ?gs2 w1 = Some (Inr (rv', gs', w'))"
            "n \<le> k1" "num_frames gs' = num_frames ?gs2 + of_nat n"
            "gs_pq gs' = Some pq'" "file_queue fh m (pq_items pq')"
          using less.IH [of k1 ?gs2 "pq\<lparr>pq_items := items'\<rparr>" w1 "\<lambda>i. intr (i + 1)" 0] e(2) k1 k1_def
          by auto
        ultimately show ?thesis using k1 by - (rule exI [of _ "Suc n"], auto)
      qed
    qed
  qed
qed

section \<open>From the request to the end of the run\<close>

text \<open>
  A request the theorems of this section are about: a file as source, another file or a
  socket as sink, formats of fixed length, tables and libraries as documented.
\<close>

definition file_request :: "('c, 'x) env \<Rightarrow> ('c, 'x) gapk_state \<Rightarrow> nat \<Rightarrow> format_type \<Rightarrow> format_type \<Rightarrow> bool" where
  "file_request E gs fh ti tt \<longleftrightarrow> requested E gs ti tt \<and> in_fh gs = Some fh \<and> out_fh gs \<noteq> Some fh \<and>
     fixed_len ti \<and> fixed_len tt \<and> good_tables (e_tables E) \<and> libs_ok (e_libs E)"

lemma list_all2_last: "list_all2 P xs ys \<Longrightarrow> xs \<noteq> [] \<Longrightarrow> P (last xs) (last ys)"
  by (induction rule: list_all2_induct) auto

lemma sink_wait: "is_sink gs m item \<Longrightarrow> it_wait item = None"
  by (auto simp: is_sink_def file_sink_def rtp_sink_def zero_item_def split: option.splits)

lemma planned_file_queue:
  fixes E :: "('c, 'x) env"
  assumes rq: "file_request E gs fh ti tt"
    and items: "list_all2 (realises E) (plan ti tt) items" "is_sink gs (frame_len_of tt) sink"
    and prep: "list_all2 prepared (source_item gs (frame_len_of ti) # items @ [sink]) its"
  shows "file_queue fh (frame_len_of ti) its"
proof -
  let ?m = "frame_len_of ti"
  have f: "fixed_len ti" "fixed_len tt" "good_tables (e_tables E)" "libs_ok (e_libs E)" "in_fh gs = Some fh"
      "out_fh gs \<noteq> Some fh" "ti \<noteq> FMT_INVALID" "tt \<noteq> FMT_INVALID"
    using rq by (auto simp: file_request_def requested_def servable_def)
  obtain s rest where its: "its = s # rest" "prepared (source_item gs ?m) s" "list_all2 prepared (items @ [sink]) rest"
    using prep by (auto simp: list_all2_Cons1)
  obtain d where d: "s = (file_source fh ?m)\<lparr>it_buf := Some d\<rparr>" "length d = ?m"
    using its(2) f fixed_len_codec [OF f(1)]
    by (auto simp: prepared_def source_item_def file_source_def buf_size_def)
  have q: "\<forall>W \<in> range (input_is fh) :: ('x world \<Rightarrow> bool) set. quiet W"
    by (auto simp: quiet_def input_is_def)
  have i: "\<forall>W \<in> range (input_is fh). indifferent gs W"
    using f(6) by (auto simp: indifferent_def input_is_def split: option.splits)
  have "chain_ok will_have_room (range (input_is fh)) (frame ?m) (items @ [sink])"
    by (rule chain_elems [OF f(3,4) q items(1) plan_fixed [OF f(1,2)] plan_fits [OF f(7,8)] chain_sink [OF i items(2)]])
  then have c: "chain_ok has_room (range (input_is fh)) (frame ?m) rest"
    using chain_prepared its(3) by blast
  have "prepared sink (last rest)" using list_all2_last [OF its(3)] by simp
  then have "it_wait (last rest) = None" using sink_wait [OF items(2)] by (auto simp: prepared_def)
  moreover have "rest \<noteq> []" using its(3) by (auto simp: list_all2_append1)
  ultimately show ?thesis using c d its(1) by (auto simp: file_queue_def)
qed

text \<open>The queue of a request without failing allocations, built and prepared.\<close>

lemma chain_prepares:
  fixes E :: "('c, 'x) env"
  assumes rq: "requested E gs ti tt" and pq: "gs_pq gs = Some (empty_pq name)" and mem: "w_mem w = []"
  shows "\<exists>pq items sink w1 its w2. make_processing_chain E gs w = Inr (0, gs\<lparr>gs_pq := Some pq\<rparr>, w1) \<and>
    pq_items pq = source_item gs (frame_len_of ti) # items @ [sink] \<and>
    list_all2 (realises E) (plan ti tt) items \<and> is_sink gs (frame_len_of tt) sink \<and>
    pq_prepare pq w1 = Inr (0, pq\<lparr>pq_items := its\<rparr>, w2) \<and> list_all2 prepared (pq_items pq) its \<and>
    w_files w2 = w_files w"
proof -
  obtain pq items sink w1 where mk: "make_processing_chain E gs w = Inr (0, gs\<lparr>gs_pq := Some pq\<rparr>, w1)"
      "pq_items pq = source_item gs (frame_len_of ti) # items @ [sink]"
      "list_all2 (realises E) (plan ti tt) items" "is_sink gs (frame_len_of tt) sink"
      "w_mem w1 = []" "w_files w1 = w_files w"
    using chain_built [OF rq pq mem] by blast
  have "list_all it_live items" using mk(3) realises_live by (fastforce simp: list_all2_conv_all_nth list_all_length)
  then have live: "all_live (pq_items pq)"
    using mk(2) is_sink_len [OF mk(4)] by (simp add: source_item_len all_live_def)
  obtain its w2 where p: "prepare_items (pq_items pq) w1 = Inr (0, its, w2)"
    using prepare_items_ok [OF mk(5) live] by blast
  then have "pq_prepare pq w1 = Inr (0, pq\<lparr>pq_items := its\<rparr>, w2)" by (simp add: pq_prepare_def)
  moreover have "list_all2 prepared (pq_items pq) its" "w_files w2 = w_files w"
    using prepare_items_spec [OF p] mk(6) by simp_all
  ultimately show ?thesis using mk(1-4) by blast
qed

lemma run_ends:
  fixes E :: "('c, 'x) env"
  assumes rq: "file_request E gs fh ti tt" and pq: "gs_pq gs = Some (empty_pq name)"
    and mem: "w_mem w = []" and thr: "\<not> throttle (opts gs)"
  shows "\<exists>n gs1 w1 rv gs2 w2. make_processing_chain E gs w = Inr (0, gs1, w1) \<and>
    run intr ts gs1 w1 = Some (Inr (rv, gs2, w2)) \<and>
    num_frames gs2 = of_nat n \<and>
    n \<le> (length (fl_data (w_files w fh)) - fl_pos (w_files w fh)) div frame_len_of ti"
proof -
  let ?m = "frame_len_of ti"
  have r: "requested E gs ti tt" and m: "0 < ?m"
    using rq fixed_len_codec by (auto simp: file_request_def)
  obtain pq1 items sink w1 its w2 where mk: "make_processing_chain E gs w = Inr (0, gs\<lparr>gs_pq := Some pq1\<rparr>, w1)"
      "pq_items pq1 = source_item gs ?m # items @ [sink]"
      "list_all2 (realises E) (plan ti tt) items" "is_sink gs (frame_len_of tt) sink"
      and p: "pq_prepare pq1 w1 = Inr (0, pq1\<lparr>pq_items := its\<rparr>, w2)"
      and pr: "list_all2 prepared (pq_items pq1) its" "w_files w2 = w_files w"
    using chain_prepares [OF r pq mem] by blast
  have q: "file_queue fh ?m its" using planned_file_queue [OF rq mk(3,4)] pr(1) mk(2) by simp
  let ?gs = "gs\<lparr>gs_pq := Some (pq1\<lparr>pq_items := its\<rparr>), num_frames := 0\<rparr>"
  obtain n rv gs2 w3 pq2 where l: "run_loop intr 0 ?gs w2 = Some (Inr (rv, gs2, w3))"
      "n \<le> (length (fl_data (w_files w2 fh)) - fl_pos (w_files w2 fh)) div ?m"
      "num_frames gs2 = num_frames ?gs + of_nat n"
      "gs_pq gs2 = Some pq2" "file_queue fh ?m (pq_items pq2)"
    using loop_ends [of ?gs "pq1\<lparr>pq_items := its\<rparr>" fh ?m _ w2 intr 0] q m by auto
  have "wait_for_sink gs2 w3 = Some (Inr w3)"
    using l(4,5) by (auto simp: wait_for_sink_def file_queue_def Let_def)
  then have "run intr ts (gs\<lparr>gs_pq := Some pq1\<rparr>) w1 =
      Some (Inr (if num_frames gs2 > 0 then 0 else rv, gs2, w3))"
    using p l(1) thr by (simp add: run_def run_frames_def Let_def)
  then show ?thesis using mk(1) l(2,3) pr(2) by (intro exI [of _ n] exI conjI) auto
qed

section \<open>Throttled processing\<close>

text \<open>
  The timer callback executes the queue once per expiration. It never faults, counts every
  execution, and past the end of the file it sets the exit flag.
\<close>

definition frames_left :: "nat \<Rightarrow> file_obj \<Rightarrow> nat" where
  "frames_left m f = (length (fl_data f) - fl_pos f) div m"

lemma frames_left_step:
  "0 < m \<Longrightarrow> fl_pos f + m \<le> length (fl_data f) \<Longrightarrow>
     frames_left m f = Suc (frames_left m (f\<lparr>fl_pos := fl_pos f + m\<rparr>))"
  using le_div_geq [of m "length (fl_data f) - fl_pos f"] by (simp add: frames_left_def)

lemma frames_left_0: "0 < m \<Longrightarrow> length (fl_data f) < fl_pos f + m \<Longrightarrow> frames_left m f = 0"
  by (simp add: frames_left_def)

lemma expire_counts:
  fixes gs :: "('c, 'x) gapk_state"
  assumes "gs_pq gs = Some pq" and "file_queue fh m (pq_items pq)" and m: "0 < m"
  shows "\<exists>gs' w' pq'. expire n gs w = Inr (gs', w') \<and> num_frames gs' = num_frames gs + of_nat n \<and>
    gs_pq gs' = Some pq' \<and> file_queue fh m (pq_items pq') \<and>
    (gs_exit gs \<noteq> 0 \<or> frames_left m (w_files w fh) < n \<longrightarrow> gs_exit gs' \<noteq> 0) \<and>
    (gs_exit gs' = 0 \<longrightarrow> frames_left m (w_files w fh) - n = frames_left m (w_files w' fh))"
  using assms(1,2)
proof (induction n arbitrary: gs pq w)
  case 0
  then show ?case by auto
next
  case (Suc n)
  let ?f = "w_files w fh" and ?gs = "gs\<lparr>num_frames := num_frames gs + 1\<rparr>"
  obtain rv items w1 where e: "exec_items None 0 (pq_items pq) w = Inr (rv, items, w1)" "file_queue fh m items"
      "rv < 0 \<or> frames_left m ?f = Suc (frames_left m (w_files w1 fh))"
      "rv < 0 \<or> frames_left m ?f \<noteq> 0"
  proof (cases "fl_pos ?f + m \<le> length (fl_data ?f)")
    case True
    then obtain rv items w1 where "exec_items None 0 (pq_items pq) w = Inr (rv, items, w1)" "rv \<le> 0"
        "file_queue fh m items" "w_files w1 fh = ?f\<lparr>fl_pos := fl_pos ?f + m\<rparr>"
      using file_queue_block [OF Suc.prems(2) m] by blast
    then show ?thesis using that frames_left_step [OF m True] by simp
  next
    case False
    then obtain items w1 where "exec_items None 0 (pq_items pq) w = Inr (-1, items, w1)" "file_queue fh m items"
      using file_queue_end [OF Suc.prems(2), of w] by auto
    then show ?thesis using that by simp
  qed
  let ?gs1 = "?gs\<lparr>gs_pq := Some (pq\<lparr>pq_items := items\<rparr>), gs_exit := (if rv < 0 then 1 else gs_exit gs)\<rparr>"
  have "expire (Suc n) gs w = expire n ?gs1 w1"
    using Suc.prems(1) e(1) by (simp add: pq_execute_def Let_def)
  moreover obtain gs' w' pq' where "expire n ?gs1 w1 = Inr (gs', w')"
      "num_frames gs' = num_frames ?gs1 + of_nat n" "gs_pq gs' = Some pq'" "file_queue fh m (pq_items pq')"
      "gs_exit ?gs1 \<noteq> 0 \<or> frames_left m (w_files w1 fh) < n \<longrightarrow> gs_exit gs' \<noteq> 0"
      "gs_exit gs' = 0 \<longrightarrow> frames_left m (w_files w1 fh) - n = frames_left m (w_files w' fh)"
    using Suc.IH [of ?gs1 "pq\<lparr>pq_items := items\<rparr>" w1] e(2) by auto
  ultimately show ?case
    using e(3) by (intro exI [of _ gs'] exI [of _ w'] exI [of _ pq']) (auto split: if_splits)
qed

declare throttled_loop.simps [simp del]

lemma throttled_steps:
  "gs_exit gs \<noteq> 0 \<Longrightarrow> throttled_loop evs gs w = Some (Inr (gs, w))"
  "gs_exit gs = 0 \<Longrightarrow> throttled_loop (Sigint # evs) gs w = throttled_loop evs (interrupted True gs) w"
  "gs_exit gs = 0 \<Longrightarrow> timerfd_cb t gs w = Inr (gs', w') \<Longrightarrow>
     throttled_loop (Timer t # evs) gs w = throttled_loop evs gs' w'"
  by (simp_all add: throttled_loop.simps [of "Timer t # evs"] throttled_loop.simps [of "Sigint # evs"]
      throttled_loop.simps [of evs])

text \<open>The number of timer expirations in a list of events.\<close>

fun expirations :: "event list \<Rightarrow> nat" where
  "expirations [] = 0"
| "expirations (Timer (Some n) # evs) = n + expirations evs"
| "expirations (_ # evs) = expirations evs"

lemma throttled_ends:
  fixes gs :: "('c, 'x) gapk_state"
  assumes "gs_pq gs = Some pq" and "file_queue fh m (pq_items pq)" and "0 < m"
    and "gs_exit gs \<noteq> 0 \<or> frames_left m (w_files w fh) < expirations evs"
  shows "\<exists>gs' w' pq'. throttled_loop evs gs w = Some (Inr (gs', w')) \<and> gs_exit gs' \<noteq> 0 \<and>
    gs_pq gs' = Some pq' \<and> file_queue fh m (pq_items pq')"
  using assms(1,2,4)
proof (induction evs arbitrary: gs pq w)
  case Nil
  then show ?case by (auto simp: throttled_steps(1))
next
  case (Cons ev evs)
  show ?case
  proof (cases "gs_exit gs = 0")
    case False
    then show ?thesis using Cons.prems throttled_steps(1) [OF False] by auto
  next
    case go: True
    show ?thesis
    proof (cases ev)
      case Sigint
      then show ?thesis
        using go Cons.prems Cons.IH [of "interrupted True gs" pq w] by (simp add: interrupted_def throttled_steps)
    next
      case (Timer t)
      show ?thesis
      proof (cases t)
        case None
        then show ?thesis using go Cons Timer by (simp add: timerfd_cb_def throttled_steps(3))
      next
        case (Some n)
        obtain gs1 w1 pq1 where e: "expire n gs w = Inr (gs1, w1)" "gs_pq gs1 = Some pq1"
            "file_queue fh m (pq_items pq1)"
            "frames_left m (w_files w fh) < n \<longrightarrow> gs_exit gs1 \<noteq> 0"
            "gs_exit gs1 = 0 \<longrightarrow> frames_left m (w_files w fh) - n = frames_left m (w_files w1 fh)"
          using expire_counts [OF Cons.prems(1,2) assms(3), of n w] by blast
        have "gs_exit gs1 \<noteq> 0 \<or> frames_left m (w_files w1 fh) < expirations evs"
          using e(4,5) Cons.prems(3) go Timer Some by auto
        then show ?thesis
          using Cons.IH [OF e(2,3)] go Timer Some e(1) by (simp add: timerfd_cb_def throttled_steps(3))
      qed
    qed
  qed
qed

section \<open>A payload of the wrong size\<close>

text \<open>
  The full-rate converter asserts the length of its source, and nothing between the socket
  and the converter checks it: a datagram with a shorter payload ends the process.
\<close>

lemma rtp_short_payload:
  fixes rest :: "('c, 'x) qitem list"
  assumes rx: "so_rx (w_socks w fd) = Some (rtp_packet s p) # ds" and p: "length p < 33" and d: "length d = 33"
  shows "exec_items None 0 ((rtp_source fd 33 pt)\<lparr>it_buf := Some d\<rparr> #
    (conv_item fmt_gsm False)\<lparr>it_buf := Some d2\<rparr> # rest) w = Inl Assert_Failed"
proof -
  let ?r = "\<lparr>pr_fd = fd, pr_blk_len = 33, pr_duration = 160, pr_payload_type = pt,
             pr_sequence = 0, pr_timestamp = 0, pr_ssrc = 0\<rparr>"
  have "pq_cb_rtp_input (Some (St_Rtp ?r) :: 'c item_state option) (Some d) None 0 w =
    Inr (int (length p), Some (St_Rtp (?r\<lparr>pr_ssrc := pr_ssrc s, pr_timestamp := pr_timestamp s,
                                        pr_sequence := pr_sequence s\<rparr>)),
         Some (p @ drop (length p) d),
         w\<lparr>w_socks := (w_socks w)(fd := (w_socks w fd)\<lparr>so_rx := ds\<rparr>)\<rparr>)"
    using rtp_input_packet [of w ?r s p ds d None 0] rx p d by simp
  then show ?thesis
    using p by (simp add: rtp_source_def conv_item_def zero_item_def pq_cb_fmt_convert_def fmt_gsm_def
        gsm_to_canon_def assert_c_False)
qed

end
