(* ===== verification/Ownership.thy ===== *)
theory Ownership
  imports Safety
begin

text \<open>
  Who gives back what was allocated: every item owns its state and its output object, and
  gives them back when the queue is destroyed (\<^verbatim>\<open>src/procqueue.c\<close> and the exit callbacks of
  \<^verbatim>\<open>src/pq_*.c\<close> and \<^verbatim>\<open>src/codec_*.c\<close>). No callback of an item allocates or releases while it
  processes, so the account of a queue holds at every moment of a run, however it ends.
\<close>

section \<open>Items that keep their account\<close>

text \<open>Nothing has been allocated or released, and the benchmark rings are as usable as before.\<close>

definition calm :: "'x world \<Rightarrow> 'x world \<Rightarrow> bool" where
  "calm w w' \<longleftrightarrow> w_live w' = w_live w \<and> (\<forall>c. w_bench w' c = None \<longleftrightarrow> w_bench w c = None) \<and>
     (benches_ok w \<longrightarrow> benches_ok w')"

lemma calm_refl [simp]: "calm w w"
  by (simp add: calm_def)

lemma calm_trans: "calm w w' \<Longrightarrow> calm w' w'' \<Longrightarrow> calm w w''"
  by (simp add: calm_def)

lemma calm_owed: "calm w w' \<Longrightarrow> owed w' = owed w"
  by (simp add: calm_def owed_def enabled_def)

lemma calm_same: "w_live w' = w_live w \<Longrightarrow> w_bench w' = w_bench w \<Longrightarrow> calm w w'"
  by (simp add: calm_def benches_ok_def)

lemma calm_bench_stop: "bench_stop c enc s w = Inr w' \<Longrightarrow> calm w w'"
proof -
  assume b: "bench_stop c enc s w = Inr w'"
  obtain w2 where "bench_stop c enc s w = Inr w2" "benches_ok w \<longrightarrow> benches_ok w2"
    using bench_stop_safe by blast
  moreover have "w_bench w' k = None \<longleftrightarrow> w_bench w k = None" for k
    using b by (cases "get_cycles w") (auto simp: bench_stop_def bind_r_Inr_iff split: option.splits if_splits)
  ultimately show ?thesis using b bench_stop_frame [OF b] by (simp add: calm_def)
qed

text \<open>\<open>frees ex st k\<close>: the exit callback gives back the \<open>k\<close> blocks of the state.\<close>

definition frees :: "('s option \<Rightarrow> 'x world \<Rightarrow> 'x world res) option \<Rightarrow> 's option \<Rightarrow> nat \<Rightarrow> bool" where
  "frees ex st k \<longleftrightarrow>
     (case ex of
        None \<Rightarrow> k = 0
      | Some ex \<Rightarrow> \<forall>w. \<exists>w'. ex st w = Inr w' \<and> w_live w' = w_live w - int k \<and> w_bench w' = w_bench w \<and>
                       w_files w' = w_files w)"

text \<open>
  \<open>tidy item k\<close>: whatever the item processes, its state keeps a property under which its
  exit callback gives back exactly \<open>k\<close> blocks, and nothing is allocated on the way.
\<close>

definition tidy_under :: "('s option \<Rightarrow> bool) \<Rightarrow> ('s, 'x world) item \<Rightarrow> nat \<Rightarrow> bool" where
  "tidy_under P item k \<longleftrightarrow> P (it_state item) \<and> (\<forall>st. P st \<longrightarrow> frees (it_exit item) st k) \<and>
     (\<forall>p st out inp n w rv st' out' w'. it_proc item = Some p \<longrightarrow> P st \<longrightarrow>
        p st out inp n w = Inr (rv, st', out', w') \<longrightarrow> P st' \<and> (out' = None \<longleftrightarrow> out = None) \<and> calm w w') \<and>
     (\<forall>wt st w r w'. it_wait item = Some wt \<longrightarrow> wt st w = Inr (r, w') \<longrightarrow> calm w w')"

definition tidy :: "('s, 'x world) item \<Rightarrow> nat \<Rightarrow> bool" where
  "tidy item k \<longleftrightarrow> (\<exists>P. tidy_under P item k)"

lemma tidy_step:
  assumes "tidy item k" and "it_proc item = Some p"
    and "p (it_state item) (it_buf item) inp n w = Inr (rv, st', out', w')"
  shows "tidy (item\<lparr>it_state := st', it_buf := out'\<rparr>) k" and "out' = None \<longleftrightarrow> it_buf item = None"
    and "calm w w'"
proof -
  obtain P where P: "tidy_under P item k" using assms(1) by (auto simp: tidy_def)
  then have s: "P st' \<and> (out' = None \<longleftrightarrow> it_buf item = None) \<and> calm w w'"
    using assms(2,3) unfolding tidy_under_def by blast
  then show "out' = None \<longleftrightarrow> it_buf item = None" and "calm w w'" by simp_all
  have "tidy_under P (item\<lparr>it_state := st', it_buf := out'\<rparr>) k"
    using P s unfolding tidy_under_def by simp
  then show "tidy (item\<lparr>it_state := st', it_buf := out'\<rparr>) k" by (auto simp: tidy_def)
qed

lemma tidy_buf [simp]: "tidy (item\<lparr>it_buf := b\<rparr>) k \<longleftrightarrow> tidy item k"
  by (simp add: tidy_def tidy_under_def)

lemma tidy_frees: "tidy item k \<Longrightarrow> frees (it_exit item) (it_state item) k"
  by (auto simp: tidy_def tidy_under_def)

lemma tidy_wait: "tidy item k \<Longrightarrow> it_wait item = Some wt \<Longrightarrow> wt st w = Inr (r, w') \<Longrightarrow> calm w w'"
  unfolding tidy_def tidy_under_def by blast

section \<open>The operations of the queue keep the account\<close>

definition bufs :: "('s, 'w) item list \<Rightarrow> nat" where
  "bufs items = length (filter (\<lambda>item. it_buf item \<noteq> None) items)"

lemma bufs_simps [simp]: "bufs [] = 0" "bufs (item # items) = of_bool (it_buf item \<noteq> None) + bufs items"
  "bufs (is @ js) = bufs is + bufs js"
  by (simp_all add: bufs_def)

lemma exec_items_tidy:
  "list_all2 tidy items ks \<Longrightarrow> all_live items \<Longrightarrow> exec_items b n items w = Inr (rv, items', w') \<Longrightarrow>
     list_all2 tidy items' ks \<and> all_live items' \<and> bufs items' = bufs items \<and> calm w w'"
proof (induction items arbitrary: ks b n w rv items' w')
  case (Cons item items)
  obtain k ks' where ks: "ks = k # ks'" "tidy item k" "list_all2 tidy items ks'"
    using Cons.prems(1) by (auto simp: list_all2_Cons1)
  obtain p where p: "it_proc item = Some p" using Cons.prems by (cases "it_proc item") (auto split: if_splits)
  obtain rv1 st' out' w1 where s: "p (it_state item) (it_buf item) b n w = Inr (rv1, st', out', w1)"
    using Cons.prems p by (auto simp: bind_r_Inr_iff split: if_splits)
  note t = tidy_step [OF ks(2) p s]
  show ?case
  proof (cases "rv1 < 0")
    case True
    then show ?thesis using Cons.prems p s ks t by auto
  next
    case False
    then obtain its rv2 where e: "exec_items out' (nat rv1) items w1 = Inr (rv2, its, w')"
        "items' = item\<lparr>it_state := st', it_buf := out'\<rparr> # its"
      using Cons.prems p s by (auto simp: bind_r_Inr_iff Let_def)
    have live: "all_live items" using Cons.prems(2) by simp
    show ?thesis
      using Cons.IH [OF ks(3) live e(1)] e(2) ks(1) t Cons.prems(2) calm_trans [OF t(3)] by auto
  qed
qed auto

lemma prepare_items_tidy:
  "list_all2 tidy items ks \<Longrightarrow> all_live items \<Longrightarrow> bufs items = 0 \<Longrightarrow>
     prepare_items items w = Inr (rv, items', w') \<Longrightarrow>
     list_all2 tidy items' ks \<and> all_live items' \<and> w_live w' = w_live w + int (bufs items') \<and>
     w_bench w' = w_bench w"
proof (induction items w arbitrary: ks rv items' w' rule: prepare_items.induct)
  case (2 item items w)
  obtain k ks' where ks: "ks = k # ks'" "tidy item k" "list_all2 tidy items ks'"
    using 2(3) by (auto simp: list_all2_Cons1)
  have l: "it_live item" "all_live items" "it_buf item = None" "bufs items = 0" using 2(4,5) by simp_all
  show ?case
  proof (cases "it_type item = TYPE_SINK")
    case True
    then obtain its where "prepare_items items w = Inr (rv, its, w')" "items' = item # its"
      using 2(6) l by (auto simp: bind_r_Inr_iff)
    then show ?thesis using 2(1) [OF _ True ks(3) l(2,4)] l ks by auto
  next
    case False
    obtain ok w1 where a: "alloc w = (ok, w1)" by force
    note f = alloc_live [OF a] alloc_frame [OF a]
    show ?thesis
    proof (cases ok)
      case True
      obtain its buf where its: "prepare_items items w1 = Inr (rv, its, w')"
          "items' = item\<lparr>it_buf := Some buf\<rparr> # its"
        using 2(6) l False a True by (auto simp: bind_r_Inr_iff Let_def)
      have "list_all2 tidy its ks' \<and> all_live its \<and> w_live w' = w_live w1 + int (bufs its) \<and> w_bench w' = w_bench w1"
        using 2(2) [of _ _ True w1] its(1) l False a True ks(3) by auto
      then show ?thesis using its(2) l ks f True by auto
    next
      case no: False
      then show ?thesis using 2(6) l False a ks f by (auto simp: Let_def)
    qed
  qed
qed auto

lemma destroy_items_tidy:
  "list_all2 tidy items ks \<Longrightarrow> all_live items \<Longrightarrow>
     \<exists>w'. destroy_items items w = Inr w' \<and> w_bench w' = w_bench w \<and> w_files w' = w_files w \<and>
       w_live w' = w_live w - int (length items + bufs items + sum_list ks)"
proof (induction items ks arbitrary: w rule: list_all2_induct)
  case (Cons item items k ks)
  let ?w = "if it_buf item = None then w else release w"
  obtain w1 where w1: "(case it_exit item of None \<Rightarrow> Inr ?w | Some ex \<Rightarrow> ex (it_state item) ?w) = Inr w1"
      "w_live w1 = w_live ?w - int k" "w_bench w1 = w_bench w" "w_files w1 = w_files w"
  proof (cases "it_exit item")
    case None
    then show ?thesis using tidy_frees [OF Cons.hyps(1)] by (intro that [of ?w]) (simp_all add: frees_def)
  next
    case (Some ex)
    then have "\<exists>w'. ex (it_state item) ?w = Inr w' \<and> w_live w' = w_live ?w - int k \<and> w_bench w' = w_bench ?w \<and>
        w_files w' = w_files ?w"
      using tidy_frees [OF Cons.hyps(1)] unfolding frees_def by simp
    then show ?thesis using Some that by (auto split: if_splits)
  qed
  obtain w' where "destroy_items items (release w1) = Inr w'" "w_bench w' = w_bench (release w1)"
      "w_files w' = w_files (release w1)"
      "w_live w' = w_live (release w1) - int (length items + bufs items + sum_list ks)"
    using Cons.IH [of "release w1"] Cons.prems by auto
  with w1 Cons.prems show ?case by (auto simp: Let_def)
qed simp

section \<open>The items of the program are tidy\<close>

lemma tidyI:
  assumes "\<And>st. P st \<Longrightarrow> frees (it_exit item) st k" and "P (it_state item)"
    and "\<And>p st out inp n w rv st' out' w'. it_proc item = Some p \<Longrightarrow> P st \<Longrightarrow>
      p st out inp n w = Inr (rv, st', out', w') \<Longrightarrow> P st' \<and> (out' = None \<longleftrightarrow> out = None) \<and> calm w w'"
    and "\<And>wt st w r w'. it_wait item = Some wt \<Longrightarrow> wt st w = Inr (r, w') \<Longrightarrow> calm w w'"
  shows "tidy item k"
  unfolding tidy_def tidy_under_def by (rule exI [of _ P]) (use assms in blast)

lemma file_calm:
  "fread_c fh n out w = Inr (rv, out', w') \<Longrightarrow> calm w w'"
  "fwrite_c fh n inp w = Inr (rv, w') \<Longrightarrow> calm w w'"
  by (auto simp: fread_c_def fwrite_c_def bind_r_Inr_iff intro: calm_same)

lemma sock_calm:
  "sock_read fd n w = (rv, b, w') \<Longrightarrow> calm w w'"
  "sock_write fd p w = (rv, w') \<Longrightarrow> calm w w'"
  by (auto simp: sock_read_def sock_write_def Let_def intro!: calm_same split: list.splits option.splits)

lemma file_in_tidy:
  assumes "pq_cb_file_input st out inp n w = Inr (rv, st', out', w')"
  shows "st' = st \<and> (out' = None \<longleftrightarrow> out = None) \<and> calm w w'"
  using assms
  by (cases out) (auto simp: pq_cb_file_input_def bind_r_Inr_iff dest: file_calm split: option.splits
      item_state.splits if_splits)

lemma file_out_tidy:
  assumes "pq_cb_file_output st out inp n w = Inr (rv, st', out', w')"
  shows "st' = st \<and> (out' = None \<longleftrightarrow> out = None) \<and> calm w w'"
  using assms
  by (auto simp: pq_cb_file_output_def bind_r_Inr_iff dest: file_calm split: option.splits
      item_state.splits if_splits)

lemma item_bufs [simp]:
  "it_buf (file_source fh m) = None" "it_buf (file_sink fh m) = None" "it_buf (rtp_source fd m pt) = None"
  "it_buf (rtp_sink fd m pt r1 r2 r3) = None" "it_buf (conv_item f b) = None"
  by (simp_all add: file_source_def file_sink_def rtp_source_def rtp_sink_def conv_item_def zero_item_def)

lemma tidy_file [simp]: "tidy (file_source fh m) (Suc 0)" "tidy (file_sink fh m) (Suc 0)"
proof -
  show "tidy (file_source fh m) (Suc 0)"
    by (rule tidyI [where P = "\<lambda>_. True"])
       (auto simp: file_source_def zero_item_def frees_def pq_cb_file_exit_def dest: file_in_tidy)
  show "tidy (file_sink fh m) (Suc 0)"
    by (rule tidyI [where P = "\<lambda>_. True"])
       (auto simp: file_sink_def zero_item_def frees_def pq_cb_file_exit_def dest: file_out_tidy)
qed

lemma rtp_in_tidy:
  assumes "pq_cb_rtp_input st out inp n w = Inr (rv, st', out', w')"
  shows "(out' = None \<longleftrightarrow> out = None) \<and> calm w w'"
  using assms
  by (cases out) (auto simp: pq_cb_rtp_input_def bind_r_Inr_iff Let_def dest: sock_calm split: option.splits
      item_state.splits if_splits prod.splits)

lemma rtp_out_tidy:
  assumes "pq_cb_rtp_output st out inp n w = Inr (rv, st', out', w')"
  shows "(out' = None \<longleftrightarrow> out = None) \<and> calm w w'"
proof -
  obtain state where st: "st = Some (St_Rtp state)"
    using assms by (auto simp: pq_cb_rtp_output_def split: option.splits item_state.splits)
  obtain payload where p: "bind_r (if n = 0 then Inr [] else deref inp) (\<lambda>d. memcpy_c (replicate n 0) 0 d 0 n) = Inr payload"
    using assms st by (fastforce simp: pq_cb_rtp_output_def bind_r_Inr_iff)
  obtain r w1 where w1: "sock_write (pr_fd state) (rtp_packet state payload) w = (r, w1)" by force
  have "out' = out \<and> w' = w1"
    using assms st p w1 by (auto simp: pq_cb_rtp_output_def bind_r_Inr_iff Let_def)
  with sock_calm(2) [OF w1] show ?thesis by simp
qed

lemma tidy_rtp [simp]: "tidy (rtp_source fd m pt) (Suc 0)" "tidy (rtp_sink fd m pt r1 r2 r3) (Suc 0)"
proof -
  show "tidy (rtp_source fd m pt) (Suc 0)"
    by (rule tidyI [where P = "\<lambda>_. True"])
       (auto simp: rtp_source_def zero_item_def frees_def pq_cb_rtp_exit_def dest: rtp_in_tidy)
  show "tidy (rtp_sink fd m pt r1 r2 r3) (Suc 0)"
    by (rule tidyI [where P = "\<lambda>_. True"])
       (auto simp: rtp_sink_def zero_item_def frees_def pq_cb_rtp_exit_def dest: rtp_out_tidy)
qed

lemma conv_tidy:
  assumes "pq_cb_fmt_convert st out inp n w = Inr (rv, st', out', w')"
  shows "(out' = None \<longleftrightarrow> out = None) \<and> calm w w'"
  using assms
  by (cases out) (auto simp: pq_cb_fmt_convert_def bind_r_Inr_iff split: option.splits item_state.splits)

lemma tidy_conv [simp]: "tidy (conv_item f b) 0"
  by (rule tidyI [where P = "\<lambda>_. True"])
     (auto simp: conv_item_def zero_item_def frees_def dest: conv_tidy)

lemma benchmarked_calm:
  assumes "benchmarked c enc call out w = Inr (r, d, w')"
  shows "calm w w'"
proof -
  obtain s w1 where s: "bench_start w = (s, w1)" by force
  then have "calm w w1" using get_cycles_frame [of w s w1] by (auto simp: bench_start_def intro: calm_same)
  moreover have "calm w1 w'"
    using assms s calm_bench_stop by (fastforce simp: benchmarked_def bind_r_Inr_iff)
  ultimately show ?thesis by (rule calm_trans)
qed

lemma benchmarked_out:
  assumes "benchmarked c enc call out w = Inr (r, d, w')" and "\<And>z. call None \<noteq> Inr z"
  shows "out \<noteq> None \<and> calm w w'"
proof -
  obtain s w1 where "bench_start w = (s, w1)" by force
  then have "\<exists>z. call out = Inr z" using assms(1) by (auto simp: benchmarked_def bind_r_Inr_iff)
  then show ?thesis using assms benchmarked_calm by (cases out) auto
qed

lemma store_None [simp]: "store_output x None \<noteq> Inr z"
  by (simp add: store_output_def)

lemmas lib_procs = codec_fr_encode_def codec_fr_decode_def codec_hr_encode_def codec_hr_decode_def lib_st_def
lemmas amr_procs = codec_efr_encode_def codec_efr_decode_def codec_amr_encode_def codec_amr_decode_def enc_dec_st_def

lemma lib_procs_tidy:
  assumes "p \<in> {codec_fr_encode L, codec_fr_decode L, codec_hr_encode L, codec_hr_decode L}"
    and "p st out inp n w = Inr (rv, st', out', w')"
  shows "lib_st st' \<and> (out' = None \<longleftrightarrow> out = None) \<and> calm w w'"
  using assms
  by (elim insertE emptyE)
     (auto simp: lib_procs bind_r_Inr_iff case_prod_beta Let_def
      split: option.splits item_state.splits codec_state.splits dest!: benchmarked_out)

lemma amr_procs_tidy:
  assumes "p \<in> {codec_efr_encode L, codec_efr_decode L, codec_amr_encode L, codec_amr_decode L}"
    and "p st out inp n w = Inr (rv, st', out', w')"
  shows "enc_dec_st st' \<and> (out' = None \<longleftrightarrow> out = None) \<and> calm w w'"
  using assms
  by (elim insertE emptyE)
     (auto simp: amr_procs bind_r_Inr_iff case_prod_beta Let_def
      split: option.splits item_state.splits codec_state.splits dest!: benchmarked_out)

lemma codec_item_simps [simp]:
  "it_proc (codec_item e T codec st enc) = (if enc then cd_encode codec else cd_decode codec)"
  "it_exit (codec_item e T codec st enc) = cd_exit codec" "it_wait (codec_item e T codec st enc) = None"
  "it_state (codec_item e T codec st enc) = map_option St_Codec st" "it_buf (codec_item e T codec st enc) = None"
  by (simp_all add: codec_item_def zero_item_def)

lemma tidy_codec:
  fixes L :: "'c codec_libs" and codec :: "('c, 'x) codec_desc"
  assumes ready: "codec_ready C L c" and codec: "codec_get_from_type C L c = Some codec" and st: "codec_st c st"
  shows "tidy (codec_item e T codec (Some st) enc) (codec_cost c)"
proof (cases "c = CODEC_HR \<or> c = CODEC_FR")
  let ?item = "codec_item e T codec (Some st) enc :: ('c, 'x) qitem"
  case True
  then have ps: "cd_encode codec = Some p \<or> cd_decode codec = Some p \<Longrightarrow>
      p \<in> {codec_fr_encode L, codec_fr_decode L, codec_hr_encode L, codec_hr_decode L}"
    and ex: "frees (cd_exit codec) s (codec_cost c)" for p s
    using ready codec
    by (auto simp: codec_ready_def codec_descs Let_def if_built_def frees_def codec_fr_exit_def codec_hr_exit_def
        codec_cost_def)
  have step: "lib_st st' \<and> (out' = None \<longleftrightarrow> out = None) \<and> calm w w'"
    if "it_proc ?item = Some p" "p st out inp n w = Inr (rv, st', out', w')" for p st out inp n w rv st' out' w'
  proof -
    have "cd_encode codec = Some p \<or> cd_decode codec = Some p" using that(1) by (auto split: if_splits)
    then show ?thesis using lib_procs_tidy [where p = p and L = L, OF _ that(2)] ps [of p] by blast
  qed
  have "lib_st (it_state ?item)" using True st by (auto simp: codec_st_def lib_st_def split: codec_state.splits)
  then show ?thesis
    by (intro tidyI [where P = lib_st]) (use ex step in \<open>fastforce simp del: codec_item_simps(1)\<close>)+
next
  let ?item = "codec_item e T codec (Some st) enc :: ('c, 'x) qitem"
  case False
  then have ps: "cd_encode codec = Some p \<or> cd_decode codec = Some p \<Longrightarrow>
      p \<in> {codec_efr_encode L, codec_efr_decode L, codec_amr_encode L, codec_amr_decode L}"
    and ex: "enc_dec_st s \<Longrightarrow> frees (cd_exit codec) s (codec_cost c)" for p s
    using ready codec
    by (cases c; auto simp: codec_ready_def codec_descs Let_def if_built_def frees_def codec_efr_exit_def
        codec_amr_exit_def codec_cost_def enc_dec_st_def)+
  have step: "enc_dec_st st' \<and> (out' = None \<longleftrightarrow> out = None) \<and> calm w w'"
    if "it_proc ?item = Some p" "p st out inp n w = Inr (rv, st', out', w')" for p st out inp n w rv st' out' w'
  proof -
    have "cd_encode codec = Some p \<or> cd_decode codec = Some p" using that(1) by (auto split: if_splits)
    then show ?thesis using amr_procs_tidy [where p = p and L = L, OF _ that(2)] ps [of p] by blast
  qed
  have "enc_dec_st (it_state ?item)" using False st by (auto simp: codec_st_def enc_dec_st_def split: codec_state.splits)
  then show ?thesis
    by (intro tidyI [where P = enc_dec_st]) (use ex step in \<open>fastforce simp del: codec_item_simps(1)\<close>)+
qed

text \<open>The items that the plans of files and sockets do not contain.\<close>

lemma ext_calm: "ext_call f w = (r, w') \<Longrightarrow> calm w w'"
  by (auto simp: ext_call_def intro!: calm_same split: prod.splits)

lemma tidy_ecu: "tidy (ecu_item L) 1"
proof (rule tidyI [where P = ecu_st])
  show "ecu_st (it_state (ecu_item L))" by (simp add: ecu_item_def ecu_st_def)
  show "frees (it_exit (ecu_item L)) st 1" if "ecu_st st" for st
    using that by (auto simp: ecu_item_def ecu_st_def frees_def ecu_clean_up_def)
next
  fix p :: "('a, 'b) callback" and st out inp n w rv st' out' w'
  assume "it_proc (ecu_item L) = Some p" "p st out inp n w = Inr (rv, st', out', w')"
  then have "ecu_proc_fr L st out inp n w = Inr (rv, st', out', w')" by (simp add: ecu_item_def)
  then show "ecu_st st' \<and> (out' = None \<longleftrightarrow> out = None) \<and> calm w w'"
    by (cases out) (auto simp: ecu_proc_fr_def ecu_st_def bind_r_Inr_iff Let_def case_prod_beta
        split: option.splits item_state.splits if_splits)
qed (simp add: ecu_item_def zero_item_def)

section \<open>The account of a queue\<close>

text \<open>
  \<open>held pq w n\<close>: once the queue and the benchmark rings have been given back, \<open>n\<close> live
  allocations are left.
\<close>

definition held :: "('s, 'x world) pq \<Rightarrow> 'x world \<Rightarrow> int \<Rightarrow> bool" where
  "held pq w n \<longleftrightarrow> all_live (pq_items pq) \<and> benches_ok w \<and>
     (\<exists>ks. list_all2 tidy (pq_items pq) ks \<and>
        owed w = n + int (1 + length (pq_items pq) + bufs (pq_items pq) + sum_list ks))"

lemma held_execute:
  assumes "held pq w n" and "pq_execute pq w = Inr (rv, pq', w')"
  shows "held pq' w' n"
proof -
  obtain ks where ks: "all_live (pq_items pq)" "benches_ok w" "list_all2 tidy (pq_items pq) ks"
      "owed w = n + int (1 + length (pq_items pq) + bufs (pq_items pq) + sum_list ks)"
    using assms(1) by (auto simp: held_def)
  obtain items where i: "exec_items None 0 (pq_items pq) w = Inr (rv, items, w')" "pq_items pq' = items"
    using assms(2) by (auto simp: pq_execute_def bind_r_Inr_iff)
  note t = exec_items_tidy [OF ks(3,1) i(1)]
  have "length items = length (pq_items pq)" using t ks(3) by (metis list_all2_lengthD)
  then show ?thesis
    using t ks calm_owed [of w w'] i(2) by (auto simp: held_def calm_def)
qed

lemma held_prepare:
  assumes "held pq w n" and "bufs (pq_items pq) = 0" and "pq_prepare pq w = Inr (rv, pq', w')"
  shows "held pq' w' n"
proof -
  obtain ks where ks: "all_live (pq_items pq)" "benches_ok w" "list_all2 tidy (pq_items pq) ks"
      "owed w = n + int (1 + length (pq_items pq) + bufs (pq_items pq) + sum_list ks)"
    using assms(1) by (auto simp: held_def)
  obtain items where i: "prepare_items (pq_items pq) w = Inr (rv, items, w')" "pq_items pq' = items"
    using assms(3) by (auto simp: pq_prepare_def bind_r_Inr_iff)
  note t = prepare_items_tidy [OF ks(3,1) assms(2) i(1)]
  have "length items = length (pq_items pq)" using t ks(3) by (metis list_all2_lengthD)
  moreover have "owed w' = owed w + int (bufs items)" using t by (intro owed_live) simp_all
  ultimately show ?thesis
    using t ks i(2) assms(2) by (auto simp: held_def benches_ok_def)
qed

lemma held_calm: "held pq w n \<Longrightarrow> calm w w' \<Longrightarrow> held pq w' n"
  using calm_owed [of w w'] by (auto simp: held_def calm_def)

lemma held_destroy:
  assumes "held pq w n"
  shows "\<exists>w'. pq_destroy (Some pq) w = Inr w' \<and> owed w' = n \<and> benches_ok w' \<and> w_files w' = w_files w"
proof -
  obtain ks where ks: "all_live (pq_items pq)" "benches_ok w" "list_all2 tidy (pq_items pq) ks"
      "owed w = n + int (1 + length (pq_items pq) + bufs (pq_items pq) + sum_list ks)"
    using assms by (auto simp: held_def)
  obtain w1 where w1: "destroy_items (pq_items pq) w = Inr w1" "w_bench w1 = w_bench w" "w_files w1 = w_files w"
      "w_live w1 = w_live w - int (length (pq_items pq) + bufs (pq_items pq) + sum_list ks)"
    using destroy_items_tidy [OF ks(3,1)] by blast
  have "owed (release w1) = owed w + (- int (1 + length (pq_items pq) + bufs (pq_items pq) + sum_list ks))"
    by (rule owed_live) (use w1 in simp_all)
  then show ?thesis using w1 ks by (auto simp: pq_destroy_def benches_ok_def)
qed

section \<open>The account holds until the end of the run\<close>

text \<open>What a run leaves alone in the state of the application.\<close>

definition same_request :: "('c, 'x) gapk_state \<Rightarrow> ('c, 'x) gapk_state \<Rightarrow> bool" where
  "same_request gs gs' \<longleftrightarrow> opts gs' = opts gs \<and> in_fh gs' = in_fh gs \<and> in_fd gs' = in_fd gs \<and>
     out_fh gs' = out_fh gs \<and> out_fd gs' = out_fd gs"

definition gs_held :: "('c, 'x) gapk_state \<Rightarrow> 'x world \<Rightarrow> int \<Rightarrow> bool" where
  "gs_held gs w n \<longleftrightarrow> (\<exists>pq. gs_pq gs = Some pq \<and> held pq w n)"

lemma gs_heldI [intro]: "gs_pq gs = Some pq \<Longrightarrow> held pq w n \<Longrightarrow> gs_held gs w n"
  by (auto simp: gs_held_def)

lemma same_request_refl [simp]: "same_request gs gs"
  by (simp add: same_request_def)

lemma same_request_trans: "same_request a b \<Longrightarrow> same_request b c \<Longrightarrow> same_request a c"
  by (simp add: same_request_def)

lemma same_request_upd [simp]:
  "same_request gs (gs\<lparr>gs_pq := p\<rparr>)" "same_request gs (gs\<lparr>num_frames := k\<rparr>)" "same_request gs (gs\<lparr>gs_exit := x\<rparr>)"
  "same_request gs (interrupted b gs)"
  by (simp_all add: same_request_def interrupted_def)

lemma gs_held_upd [simp]:
  "gs_held (gs\<lparr>num_frames := k\<rparr>) w n \<longleftrightarrow> gs_held gs w n" "gs_held (gs\<lparr>gs_exit := x\<rparr>) w n \<longleftrightarrow> gs_held gs w n"
  "gs_held (interrupted b gs) w n \<longleftrightarrow> gs_held gs w n"
  by (simp_all add: gs_held_def interrupted_def)

lemma run_loop_held:
  fixes gs gs' :: "('c, 'x) gapk_state" and w w' :: "'x world"
  assumes "run_loop intr rv gs w = Some (Inr (rv', gs', w'))" and "gs_held gs w n"
  shows "gs_held gs' w' n \<and> same_request gs gs'"
proof -
  let ?P = "\<lambda>(intr :: nat \<Rightarrow> bool) (rv :: int) (gs :: ('c, 'x) gapk_state) (w :: 'x world)
      (r :: (int \<times> ('c, 'x) gapk_state \<times> 'x world) res).
    \<forall>rv' gs' w'. r = Inr (rv', gs', w') \<longrightarrow> gs_held gs w n \<longrightarrow> gs_held gs' w' n \<and> same_request gs gs'"
  have "?P intr rv gs w (Inr (rv', gs', w'))"
  proof (rule run_loop.raw_induct [where P = ?P, OF _ assms(1)], intro allI impI)
    fix f :: "(nat \<Rightarrow> bool) \<Rightarrow> int \<Rightarrow> ('c, 'x) gapk_state \<Rightarrow> 'x world \<Rightarrow>
        ((int \<times> ('c, 'x) gapk_state \<times> 'x world) res) option"
      and intr :: "nat \<Rightarrow> bool" and rv rv' :: int and gs gs' :: "('c, 'x) gapk_state" and w w' :: "'x world" and r
    assume IH: "\<And>intr rv gs w r. f intr rv gs w = Some r \<Longrightarrow> ?P intr rv gs w r"
      and body: "(let gs = interrupted (intr 0) gs
        in if gs_exit gs \<noteq> 0 then Some (Inr (rv, gs, w))
           else (case bind_r (deref (gs_pq gs)) (\<lambda>pq. pq_execute pq w) of
              Inl f \<Rightarrow> Some (Inl f)
            | Inr (rv, pq, w) \<Rightarrow>
                (let gs = gs\<lparr>gs_pq := Some pq\<rparr>
                 in if rv \<noteq> 0 then Some (Inr (rv, gs, w))
                    else f (\<lambda>i. intr (i + 1)) rv (gs\<lparr>num_frames := num_frames gs + 1\<rparr>) w))) = Some r"
      and r: "r = Inr (rv', gs', w')" and acc: "gs_held gs w n"
    let ?gs = "interrupted (intr 0) gs"
    show "gs_held gs' w' n \<and> same_request gs gs'"
    proof (cases "gs_exit ?gs \<noteq> 0")
      case True
      then show ?thesis using body r acc by (auto simp: Let_def)
    next
      case False
      obtain pq where pq: "gs_pq gs = Some pq" "held pq w n" using acc by (auto simp: gs_held_def)
      show ?thesis
      proof (cases "pq_execute pq w")
        case (Inl e)
        then show ?thesis using body r pq False by (auto simp: Let_def)
      next
        case (Inr x)
        obtain rv1 pq1 w1 where x: "x = (rv1, pq1, w1)" by (metis prod_cases3)
        have h: "held pq1 w1 n" using held_execute [OF pq(2)] Inr x by simp
        show ?thesis
        proof (cases "rv1 = 0")
          case True
          let ?gs1 = "?gs\<lparr>gs_pq := Some pq1, num_frames := num_frames ?gs + 1\<rparr>"
          have "f (\<lambda>i. intr (i + 1)) rv1 ?gs1 w1 = Some r"
            using body pq False Inr x True by (simp add: Let_def)
          then have "gs_held gs' w' n \<and> same_request ?gs1 gs'"
            using IH [of "\<lambda>i. intr (i + 1)" rv1 ?gs1 w1 r] r h by (auto intro: gs_heldI)
          then show ?thesis by (auto simp: same_request_def interrupted_def split: if_splits)
        next
          case nz: False
          then have "gs' = ?gs\<lparr>gs_pq := Some pq1\<rparr>" "w' = w1"
            using body r pq False Inr x by (simp_all add: Let_def)
          then show ?thesis using h by (auto simp: same_request_def interrupted_def split: if_splits)
        qed
      qed
    qed
  qed
  then show ?thesis using assms by blast
qed

lemma expire_held:
  "expire k gs w = Inr (gs', w') \<Longrightarrow> gs_held gs w n \<Longrightarrow> gs_held gs' w' n \<and> same_request gs gs'"
proof (induction k arbitrary: gs w)
  case (Suc k)
  obtain pq where pq: "gs_pq gs = Some pq" "held pq w n" using Suc.prems(2) by (auto simp: gs_held_def)
  obtain rc pq1 w1 where e: "pq_execute pq w = Inr (rc, pq1, w1)"
    using Suc.prems(1) pq by (auto simp: bind_r_Inr_iff Let_def)
  let ?gs1 = "gs\<lparr>num_frames := num_frames gs + 1, gs_pq := Some pq1, gs_exit := (if rc < 0 then 1 else gs_exit gs)\<rparr>"
  have "expire k ?gs1 w1 = Inr (gs', w')"
    using Suc.prems(1) pq e by (cases "rc < 0") (simp_all add: Let_def)
  moreover have "gs_held ?gs1 w1 n" by (rule gs_heldI [OF _ held_execute [OF pq(2) e]]) simp
  ultimately have "gs_held gs' w' n \<and> same_request ?gs1 gs'" by (rule Suc.IH)
  then show ?case by (auto simp: same_request_def)
qed auto

lemma timerfd_cb_held:
  "timerfd_cb t gs w = Inr (gs', w') \<Longrightarrow> gs_held gs w n \<Longrightarrow> gs_held gs' w' n \<and> same_request gs gs'"
  by (cases t) (simp_all add: timerfd_cb_def expire_held)

declare throttled_loop.simps [simp del]

lemma throttled_loop_held:
  "throttled_loop evs gs w = Some (Inr (gs', w')) \<Longrightarrow> gs_held gs w n \<Longrightarrow> gs_held gs' w' n \<and> same_request gs gs'"
proof (induction evs arbitrary: gs w)
  case Nil
  then show ?case by (auto simp: throttled_loop.simps split: if_splits)
next
  case (Cons ev evs)
  show ?case
  proof (cases "gs_exit gs \<noteq> 0")
    case True
    then show ?thesis using Cons.prems by (auto simp: throttled_loop.simps)
  next
    case False
    show ?thesis
    proof (cases ev)
      case Sigint
      then have "throttled_loop evs (interrupted True gs) w = Some (Inr (gs', w'))"
        using Cons.prems(1) False by (simp add: throttled_loop.simps [of "Sigint # evs"])
      then show ?thesis
        using Cons.IH [of "interrupted True gs" w] Cons.prems(2) by (auto simp: same_request_def interrupted_def)
    next
      case (Timer t)
      then obtain gs1 w1 where t: "timerfd_cb t gs w = Inr (gs1, w1)"
        using Cons.prems(1) False
        by (cases "timerfd_cb t gs w") (auto simp: throttled_loop.simps [of "Timer t # evs"])
      then have "throttled_loop evs gs1 w1 = Some (Inr (gs', w'))"
        using Cons.prems(1) False Timer by (simp add: throttled_loop.simps [of "Timer t # evs"])
      then show ?thesis
        using Cons.IH [of gs1 w1] timerfd_cb_held [OF t Cons.prems(2)] same_request_trans by blast
    qed
  qed
qed

lemma wait_loop_calm:
  fixes w w' :: "'x world"
  assumes "wait_loop wt w = Some (Inr w')" and wt: "\<And>w r w'. wt w = Inr (r, w') \<Longrightarrow> calm w w'"
  shows "calm w w'"
proof -
  let ?P = "\<lambda>wt (w :: 'x world) (r :: 'x world res). (\<forall>w r w'. wt w = Inr (r, w') \<longrightarrow> calm w w') \<longrightarrow>
    (\<forall>w'. r = Inr w' \<longrightarrow> calm w w')"
  have "?P wt w (Inr w')"
  proof (rule wait_loop.raw_induct [where P = ?P, OF _ assms(1)], intro allI impI)
    fix f :: "('x world \<Rightarrow> (int \<times> 'x world) res) \<Rightarrow> 'x world \<Rightarrow> ('x world res) option"
      and wt and w w' :: "'x world" and r
    assume IH: "\<And>wt w r. f wt w = Some r \<Longrightarrow> ?P wt w r"
      and body: "(case wt w of Inl f \<Rightarrow> Some (Inl f)
        | Inr (r, w) \<Rightarrow> if r \<noteq> 0 then f wt w else Some (Inr w)) = Some r"
      and c: "\<forall>w r w'. wt w = Inr (r, w') \<longrightarrow> calm w w'" and r: "r = Inr w'"
    show "calm w w'"
    proof (cases "wt w")
      case (Inl e)
      with body r show ?thesis by simp
    next
      case (Inr x)
      then obtain k w1 where x: "wt w = Inr (k, w1)" by (cases x) auto
      then have w1: "calm w w1" using c by blast
      show ?thesis
      proof (cases "k = 0")
        case True
        with body r x w1 show ?thesis by simp
      next
        case False
        then have "calm w1 w'" using IH [of wt w1 r] body r x c by simp
        with w1 show ?thesis by (rule calm_trans)
      qed
    qed
  qed
  with wt show ?thesis by blast
qed

lemma wait_for_sink_held:
  assumes "wait_for_sink gs w = Some (Inr w')" and "gs_held gs w n"
  shows "gs_held gs w' n"
proof -
  obtain pq where pq: "gs_pq gs = Some pq" "held pq w n" using assms(2) by (auto simp: gs_held_def)
  have ne: "pq_items pq \<noteq> []" using assms(1) pq(1) by (auto simp: wait_for_sink_def)
  obtain ks where "list_all2 tidy (pq_items pq) ks" using pq(2) by (auto simp: held_def)
  then obtain k where k: "tidy (last (pq_items pq)) k" using list_all2_last [OF _ ne] by blast
  have "calm w w'"
  proof (cases "it_wait (last (pq_items pq))")
    case None
    then show ?thesis using assms(1) pq(1) ne by (simp add: wait_for_sink_def Let_def)
  next
    case (Some wt)
    then show ?thesis
      using assms(1) pq(1) ne wait_loop_calm [of "wt (it_state (last (pq_items pq)))" w w'] tidy_wait [OF k Some]
      by (auto simp: wait_for_sink_def Let_def split: if_splits)
  qed
  then show ?thesis using pq held_calm by blast
qed

lemma map_sum_Inr_iff: "map_sum id f z = Inr y \<longleftrightarrow> (\<exists>x. z = Inr x \<and> f x = y)"
  by (cases z) auto

lemma run_held:
  assumes run: "run intr ts gs w = Some (Inr (rv, gs', w'))"
    and pq: "gs_pq gs = Some pq" "held pq w n" "bufs (pq_items pq) = 0"
  shows "gs_held gs' w' n \<and> same_request gs gs'"
proof -
  obtain rv1 pq1 w1 where p: "pq_prepare pq w = Inr (rv1, pq1, w1)"
    using run pq(1) by (cases "pq_prepare pq w") (auto simp: run_def)
  let ?gs1 = "gs\<lparr>gs_pq := Some pq1\<rparr>"
  have h1: "gs_held ?gs1 w1 n" using held_prepare [OF pq(2,3) p] by (auto simp: gs_held_def)
  show ?thesis
  proof (cases "rv1 = 0")
    case False
    then show ?thesis using run pq(1) p h1 by (auto simp: run_def Let_def)
  next
    case True
    obtain rv2 gs2 w2 where f: "run_frames intr ts ?gs1 w1 = Some (Inr (rv2, gs2, w2))"
      using run pq(1) p True by (auto simp: run_def Let_def split: option.splits sum.splits)
    have h2: "gs_held gs2 w2 n \<and> same_request ?gs1 gs2"
    proof (cases "throttle (opts ?gs1)")
      case True
      then have "throttled_loop ts ?gs1 w1 = Some (Inr (gs2, w2))"
        using f by (auto simp: run_frames_def map_sum_Inr_iff)
      then show ?thesis using throttled_loop_held h1 by blast
    next
      case False
      then have "run_loop intr 0 (?gs1\<lparr>num_frames := 0\<rparr>) w1 = Some (Inr (rv2, gs2, w2))"
        using f by (simp add: run_frames_def)
      then have "gs_held gs2 w2 n \<and> same_request (?gs1\<lparr>num_frames := 0\<rparr>) gs2"
        using run_loop_held h1 by fastforce
      then show ?thesis by (auto simp: same_request_def)
    qed
    obtain w3 where s: "wait_for_sink gs2 w2 = Some (Inr w3)" "gs' = gs2" "w' = w3"
      using run pq(1) p True f by (auto simp: run_def Let_def split: option.splits sum.splits)
    then show ?thesis using wait_for_sink_held [OF s(1)] h2 by (auto simp: same_request_def)
  qed
qed

end
