(* ===== verification/Construction.thy ===== *)
theory Construction
  imports Ownership
begin

text \<open>
  The account of the queue while \<^verbatim>\<open>make_processing_chain\<close> builds it (\<^verbatim>\<open>src/app_osmo_gapk.c\<close>), under
  every outcome: allocations that fail anywhere, codecs whose initialisation fails or that
  are not built in, items that are queued half filled, ALSA devices that do not open.
\<close>

section \<open>Items that are added\<close>

text \<open>A queue not yet prepared, whose account leaves \<open>n\<close> live allocations.\<close>

definition raw :: "int \<Rightarrow> ('s, 'x world) pq \<times> 'x world \<Rightarrow> bool" where
  "raw n s \<longleftrightarrow> held (fst s) (snd s) n \<and> bufs (pq_items (fst s)) = 0"

text \<open>The account after allocations in the world, and after a new item has joined the queue.\<close>

lemma raw_world:
  "raw n (pq, w) \<Longrightarrow> w_live w' = w_live w + d \<Longrightarrow> w_bench w' = w_bench w \<Longrightarrow> raw (n + d) (pq, w')"
  using owed_live [of w' w d] by (auto simp: raw_def held_def benches_ok_def)

lemma raw_push:
  assumes r: "raw n (pq, w)" and item: "tidy item k" "it_live item" "it_buf item = None"
  shows "raw (n - 1 - int k) (push_item item pq, w)"
proof -
  obtain ks where ks: "all_live (pq_items pq)" "benches_ok w" "list_all2 tidy (pq_items pq) ks"
      "owed w = n + int (1 + length (pq_items pq) + sum_list ks)" "bufs (pq_items pq) = 0"
    using r by (auto simp: raw_def held_def)
  have "list_all2 tidy (pq_items (push_item item pq)) (ks @ [k])"
    using ks(3) item(1) by (auto intro: list_all2_appendI)
  then show ?thesis
    using ks item by (auto simp: raw_def held_def intro!: exI [of _ "ks @ [k]"])
qed

lemma raw_alloc:
  "alloc w = (b, w') \<Longrightarrow> raw n (pq, w) \<Longrightarrow> raw (n + of_bool b) (pq, w') \<and> w_bench w' = w_bench w"
  using raw_world [of n pq w w' "of_bool b"] alloc_live [of w b w'] alloc_frame [of w b w'] by simp

lemma raw_release: "raw n (pq, w) \<Longrightarrow> raw (n - 1) (pq, release w)"
  using raw_world [of n pq w "release w" "-1"] by simp

lemma raw_ext [simp]: "raw n (pq, w\<lparr>w_ext := e\<rparr>) \<longleftrightarrow> raw n (pq, w)"
  by (simp add: raw_def held_def owed_def enabled_def benches_ok_def)

lemma release_ext: "release (w\<lparr>w_ext := e\<rparr>) = (release w)\<lparr>w_ext := e\<rparr>"
  by (simp add: release_def)

lemma raw_add:
  assumes "pq_add_item pq w = Inr (ok, pq', w')" and "raw n (pq, w)"
  shows "w_bench w' = w_bench w \<and>
    (if ok then pq' = push_item zero_item pq \<and> raw (n + 1) (pq, w') else pq' = pq \<and> raw n (pq, w'))"
proof -
  obtain b w1 where a: "alloc w = (b, w1)" by force
  then show ?thesis
    using assms raw_alloc [OF a assms(2)]
    by (auto simp: pq_add_item_def push_item_def split: bool.splits if_splits)
qed

text \<open>An item without callbacks: what an early error return leaves in the queue.\<close>

lemma tidy_inert: "it_proc item = None \<Longrightarrow> it_exit item = None \<Longrightarrow> it_wait item = None \<Longrightarrow> tidy item 0"
  by (rule tidyI [where P = "\<lambda>_. True"]) (simp_all add: frees_def)

section \<open>The functions that queue an item\<close>

text \<open>
  \<open>keeps k op\<close>: however the operation ends, the account of the queue is kept but for at most
  \<open>k\<close> blocks, and the benchmarks are not touched.
\<close>

definition keeps ::
    "nat \<Rightarrow> (('s, 'x world) pq \<Rightarrow> 'x world \<Rightarrow> (int \<times> ('s, 'x world) pq \<times> 'x world) res) \<Rightarrow> bool" where
  "keeps k op \<longleftrightarrow> (\<forall>pq w n rc pq' w'. raw n (pq, w) \<longrightarrow> op pq w = Inr (rc, pq', w') \<longrightarrow>
     (\<exists>j \<le> k. raw (n + int j) (pq', w')) \<and> w_bench w' = w_bench w)"

lemma keepsI:
  assumes "\<And>pq w n rc pq' w'. raw n (pq, w) \<Longrightarrow> op pq w = Inr (rc, pq', w') \<Longrightarrow>
    raw n (pq', w') \<and> w_bench w' = w_bench w"
  shows "keeps 0 op"
  unfolding keeps_def
proof (intro allI impI)
  fix pq w n rc pq' w'
  assume "raw n (pq, w)" "op pq w = Inr (rc, pq', w')"
  from assms [OF this] show "(\<exists>j \<le> 0. raw (n + int j) (pq', w')) \<and> w_bench w' = w_bench w" by simp
qed

lemma item_live [simp]:
  "it_live (file_source fh m)" "it_live (file_sink fh m)" "it_live (rtp_source fd m pt)"
  "it_live (rtp_sink fd m pt r1 r2 r3)" "it_live (conv_item f b)" "it_live (codec_item e T codec st enc)"
  by (simp_all add: file_source_def file_sink_def rtp_source_def rtp_sink_def conv_item_def codec_item_def zero_item_def)

text \<open>
  Functions that allocate a state and the item, the second one with its fields already filled
  in, and give the state back when there is no item.
\<close>

definition queue_item ::
    "('s, 'x world) item \<Rightarrow> ('s, 'x world) pq \<Rightarrow> 'x world \<Rightarrow> (int \<times> ('s, 'x world) pq \<times> 'x world) res" where
  "queue_item item pq w =
     bind_r (pq_add_item pq w) (\<lambda>(ok, pq, w).
     if \<not> ok then Inr (- ENOMEM, pq, release w) else Inr (0, upd_last (\<lambda>_. item) pq, w))"

lemma queue_item_kept:
  assumes "queue_item item pq w = Inr (rc, pq', w')" and r: "raw (n + 1) (pq, w)"
    and item: "tidy item 1" "it_live item" "it_buf item = None"
  shows "raw n (pq', w') \<and> w_bench w' = w_bench w"
proof -
  obtain ok pq1 w1 where a: "pq_add_item pq w = Inr (ok, pq1, w1)"
    using assms(1) by (auto simp: queue_item_def bind_r_Inr_iff)
  note k = raw_add [OF a r]
  show ?thesis
  proof (cases ok)
    case True
    then have "pq' = push_item item pq" "w' = w1" using assms(1) a k by (auto simp: queue_item_def)
    then show ?thesis using raw_push [of "n + 2" pq w1 item 1] k True item by (simp add: add.commute)
  next
    case False
    then have "pq' = pq" "w' = release w1" using assms(1) a k by (auto simp: queue_item_def)
    then show ?thesis using raw_release [of "n + 1" pq w1] k False by simp
  qed
qed

lemma queue_item_eq:
  assumes "f zero_item = item"
  shows "bind_r (pq_add_item pq w) (\<lambda>(ok, pq, w).
      if \<not> ok then Inr (- ENOMEM, pq, release w) else Inr (0, upd_last f pq, w)) = queue_item item pq w"
  using assms
  by (auto simp: queue_item_def pq_add_item_def upd_last_def split: prod.splits bool.splits)

lemma keeps_file: "keeps 0 (\<lambda>pq. pq_queue_file_op pq fh m io)"
proof (rule keepsI)
  fix pq :: "('c, 'x) queue" and w n rc pq' w'
  assume r: "raw n (pq, w)" and o: "pq_queue_file_op pq fh m io w = Inr (rc, pq', w')"
  obtain b w1 where a: "alloc w = (b, w1)" by force
  note k = raw_alloc [OF a r]
  show "raw n (pq', w') \<and> w_bench w' = w_bench w"
  proof (cases b)
    case False
    then show ?thesis using o a k by (simp add: pq_queue_file_op_def)
  next
    case True
    then have "queue_item (if io then file_source fh m else file_sink fh m) pq w1 = Inr (rc, pq', w')"
      using o a by (cases io) (simp_all add: pq_queue_file_op_def queue_item_eq file_source_def file_sink_def)
    then have "raw n (pq', w') \<and> w_bench w' = w_bench w1" by (rule queue_item_kept) (use k True in auto)
    then show ?thesis using k by simp
  qed
qed

lemma rtp_new_state_item:
  assumes "rtp_new_state fd m io pt w = (st, w')"
  shows "w_live w' = w_live w \<and> w_bench w' = w_bench w \<and>
    (\<exists>r1 r2 r3. zero_item\<lparr>it_type := (if io then TYPE_SOURCE else TYPE_SINK),
         it_cat_name := Some (if io then ''source'' else ''sink''), it_sub_name := Some ''rtp'',
         it_len_in := (if io then 0 else m), it_len_out := (if io then m else 0), it_state := Some (St_Rtp st),
         it_proc := Some (if io then pq_cb_rtp_input else pq_cb_rtp_output), it_wait := None,
         it_exit := Some pq_cb_rtp_exit\<rparr> = (if io then rtp_source fd m pt else rtp_sink fd m pt r1 r2 r3))"
proof (cases io)
  case True
  then show ?thesis using assms by (simp add: rtp_new_state_def rtp_source_def)
next
  case False
  obtain r1 w1 r2 w2 r3 w3 where r: "random_c w = (r1, w1)" "random_c w1 = (r2, w2)" "random_c w2 = (r3, w3)"
    by (metis surj_pair)
  note f = random_c_frame [OF r(1)] random_c_frame [OF r(2)] random_c_frame [OF r(3)]
  have "st = \<lparr>pr_fd = fd, pr_blk_len = m, pr_duration = 160, pr_payload_type = pt,
      pr_sequence = ucast r2, pr_timestamp = r3, pr_ssrc = r1\<rparr>" "w' = w3"
    using assms False r by (simp_all add: rtp_new_state_def)
  then show ?thesis using f False by (simp add: rtp_sink_def) blast
qed

lemma keeps_rtp: "keeps 0 (\<lambda>pq. pq_queue_rtp_op pq fd m io pt)"
proof (rule keepsI)
  fix pq :: "('c, 'x) queue" and w n rc pq' w'
  assume r: "raw n (pq, w)" and o: "pq_queue_rtp_op pq fd m io pt w = Inr (rc, pq', w')"
  obtain b w1 where a: "alloc w = (b, w1)" by force
  note k = raw_alloc [OF a r]
  show "raw n (pq', w') \<and> w_bench w' = w_bench w"
  proof (cases b)
    case False
    then show ?thesis using o a k by (simp add: pq_queue_rtp_op_def)
  next
    case True
    obtain st w2 where st: "rtp_new_state fd m io pt w1 = (st, w2)" by force
    obtain r1 r2 r3 where item: "w_live w2 = w_live w1" "w_bench w2 = w_bench w1"
        "zero_item\<lparr>it_type := (if io then TYPE_SOURCE else TYPE_SINK),
         it_cat_name := Some (if io then ''source'' else ''sink''), it_sub_name := Some ''rtp'',
         it_len_in := (if io then 0 else m), it_len_out := (if io then m else 0), it_state := Some (St_Rtp st),
         it_proc := Some (if io then pq_cb_rtp_input else pq_cb_rtp_output), it_wait := None,
         it_exit := Some pq_cb_rtp_exit\<rparr> = (if io then rtp_source fd m pt else rtp_sink fd m pt r1 r2 r3 :: ('c, 'x) qitem)"
      using rtp_new_state_item [OF st] by blast
    let ?item = "if io then rtp_source fd m pt else rtp_sink fd m pt r1 r2 r3 :: ('c, 'x) qitem"
    have "queue_item ?item pq w2 = Inr (rc, pq', w')"
      using o a True st item(3) by (cases io) (simp_all add: pq_queue_rtp_op_def queue_item_eq)
    then have "raw n (pq', w') \<and> w_bench w' = w_bench w2"
      by (rule queue_item_kept) (use raw_world [of "n + 1" pq w1 w2 0] k True item(1,2) in auto)
    then show ?thesis using item(2) k by simp
  qed
qed

lemma keeps_convert:
  fixes L :: "'c codec_libs"
  shows "keeps 0 (\<lambda>pq. pq_queue_fmt_convert C L pq fmt b)"
proof (rule keepsI)
  fix pq :: "('c, 'x) queue" and w n rc pq' w'
  assume r: "raw n (pq, w)" and o: "pq_queue_fmt_convert C L pq fmt b w = Inr (rc, pq', w')"
  show "raw n (pq', w') \<and> w_bench w' = w_bench w"
  proof (cases "codec_get_from_type C L (fd_codec_type fmt) :: ('c, 'x) codec_desc option")
    case None
    then show ?thesis using o r by (simp add: pq_queue_fmt_convert_def)
  next
    case (Some codec)
    then obtain ok pq1 w1 where a: "pq_add_item pq w = Inr (ok, pq1, w1)"
      using o by (auto simp: pq_queue_fmt_convert_def bind_r_Inr_iff)
    note k = raw_add [OF a r]
    show ?thesis
    proof (cases ok)
      case False
      then show ?thesis using o Some a k by (simp add: pq_queue_fmt_convert_def)
    next
      case True
      then have "pq' = push_item (conv_item fmt b) pq" "w' = w1"
        using o Some a k codec_canon_len [OF Some]
        by (auto simp: pq_queue_fmt_convert_def conv_item_def)
      then show ?thesis using raw_push [of "n + 1" pq w1 "conv_item fmt b" 0] k True by simp
    qed
  qed
qed

text \<open>
  A codec: without an initialisation it has no callbacks either; with one, the state that it
  returns is of the codec and its blocks are those the exit callback gives back.
\<close>

lemma codec_init_cases:
  fixes L :: "'c codec_libs" and codec :: "('c, 'x) codec_desc"
  assumes "codec_get_from_type C L c = Some codec" and "cd_init codec = Some init" and "init w = (st, w')"
  shows "w_bench w' = w_bench w \<and>
    (case st of
       None \<Rightarrow> w_live w' = w_live w
     | Some s \<Rightarrow> codec_st c s \<and> codec_ready C L c \<and> w_live w' = w_live w + int (codec_cost c))"
proof -
  obtain b w1 where a: "alloc w = (b, w1)" by force
  note al = alloc_live [OF a] alloc_frame [OF a]
  have enc_dec: "w_bench w' = w_bench w \<and>
      (case st of
         None \<Rightarrow> w_live w' = w_live w
       | Some s \<Rightarrow> codec_st c s \<and> codec_ready C L c \<and> w_live w' = w_live w + int (codec_cost c))"
    if "c = CODEC_EFR \<or> c = CODEC_AMR" "have_opencore C" "init w = codec_efr_init L w"
    using assms(3) a al that
    by (cases b) (auto simp: codec_efr_init_def codec_st_def codec_ready_def codec_cost_def)
  have amr: "codec_amr_init L w = codec_efr_init L w" by (simp add: codec_amr_init_def codec_efr_init_def)
  show ?thesis
    using assms enc_dec amr
    by (cases c; cases st)
       (auto simp: codec_descs Let_def if_built_def codec_fr_init_def codec_hr_init_def codec_st_def codec_ready_def
          codec_cost_def split: if_splits)
qed

lemma codec_without_init:
  "codec_get_from_type C L c = Some codec \<Longrightarrow> cd_init codec = None \<Longrightarrow>
     cd_exit codec = None \<and> cd_encode codec = None \<and> cd_decode codec = None"
  by (cases c) (auto simp: codec_descs Let_def if_built_def split: if_splits)

lemma keeps_codec:
  fixes L :: "'c codec_libs" and codec :: "('c, 'x) codec_desc"
  assumes c: "codec_get_from_type C L c = Some codec"
  shows "keeps 0 (\<lambda>pq. pq_queue_codec e T C L pq codec enc)"
proof (rule keepsI)
  fix pq :: "('c, 'x) queue" and w n rc pq' w'
  assume r: "raw n (pq, w)" and o: "pq_queue_codec e T C L pq codec enc w = Inr (rc, pq', w')"
  obtain ok pq1 w1 where a: "pq_add_item pq w = Inr (ok, pq1, w1)"
    using o by (auto simp: pq_queue_codec_def bind_r_Inr_iff)
  note k = raw_add [OF a r]
  have inert: "raw n (push_item item pq, w2)"
    if "it_proc item = None" "it_exit item = None" "it_wait item = None" "it_live item" "it_buf item = None"
      "raw (n + 1) (pq, w2)" for item :: "('c, 'x) qitem" and w2
    using raw_push [OF that(6) tidy_inert [OF that(1-3)] that(4,5)] by simp
  show "raw n (pq', w') \<and> w_bench w' = w_bench w"
  proof (cases ok)
    case False
    then show ?thesis using o a k by (simp add: pq_queue_codec_def)
  next
    case True
    then have r1: "raw (n + 1) (pq, w1)" "pq1 = push_item zero_item pq" "w_bench w1 = w_bench w" using k by auto
    show ?thesis
    proof (cases "cd_init codec")
      case None
      have i: "cd_exit codec = None" "cd_encode codec = None" "cd_decode codec = None"
        using codec_without_init [OF c None] by simp_all
      have "w' = w1" "\<exists>item. pq' = push_item item pq \<and> it_proc item = None \<and> it_exit item = None \<and>
          it_wait item = None \<and> it_live item \<and> it_buf item = None"
        using o a True r1(2) None i
        by (auto simp: pq_queue_codec_def codec_pcm_desc_def Let_def zero_item_def split: option.splits if_splits)
      then show ?thesis using inert r1(1,3) by blast
    next
      case (Some init)
      obtain st w2 where st: "init w1 = (st, w2)" by force
      note f = codec_init_cases [OF c Some st]
      show ?thesis
      proof (cases st)
        case None
        then have "pq' = push_item (zero_item\<lparr>it_state := None\<rparr>) pq" "w' = w2"
          using o a True r1(2) Some st by (simp_all add: pq_queue_codec_def)
        then show ?thesis
          using inert [of "zero_item\<lparr>it_state := None\<rparr>" w2] raw_world [OF r1(1), of w2 0] f None r1(3)
          by (simp add: zero_item_def)
      next
        case s: (Some s)
        then have f2: "codec_st c s" "codec_ready C L c" "w_live w2 = w_live w1 + int (codec_cost c)"
          using f by simp_all
        obtain i where i: "cd_init codec = Some i" "cd_enc_format_type codec \<noteq> FMT_INVALID"
            "cd_dec_format_type codec \<noteq> FMT_INVALID" "cd_encode codec \<noteq> None" "cd_decode codec \<noteq> None"
          using codec_ready_desc [OF f2(2) c] by metis
        have "pq' = push_item (codec_item e T codec (Some s) enc) pq \<and> w' = w2"
          using o a True r1(2) Some st s i(2-5) fmt_get_from_type_of [OF i(2), of e T] fmt_get_from_type_of [OF i(3), of e T]
          by (cases enc) (auto simp: pq_queue_codec_def codec_item_def codec_pcm_desc_def Let_def)
        then show ?thesis
          using raw_push [OF raw_world [OF r1(1) f2(3)] tidy_codec [OF f2(2) c f2(1)], of e T enc] f r1(3) by simp
      qed
    qed
  qed
qed

lemma tidy_alsa: "tidy (alsa_item A h m io) 1"
proof (rule tidyI [where P = "alsa_st m"])
  show "alsa_st m (it_state (alsa_item A h m io))" by (simp add: alsa_item_def alsa_st_def)
  show "frees (it_exit (alsa_item A h m io)) st 1" if "alsa_st m st" for st
    using that by (auto simp: alsa_item_def alsa_st_def frees_def pq_cb_alsa_exit_def ext_do_def)
next
  fix wt :: "'a item_state option \<Rightarrow> 'b world \<Rightarrow> (int \<times> 'b world) res" and st w r w'
  assume "it_wait (alsa_item A h m io) = Some wt" "wt st w = Inr (r, w')"
  then show "calm w w'"
    by (auto simp: alsa_item_def pq_cb_alsa_wait_def Let_def dest: ext_calm
        split: option.splits item_state.splits prod.splits)
next
  fix p :: "('a, 'b) callback" and st out inp n w rv st' out' w'
  assume p: "it_proc (alsa_item A h m io) = Some p" "alsa_st m st" "p st out inp n w = Inr (rv, st', out', w')"
  show "alsa_st m st' \<and> (out' = None \<longleftrightarrow> out = None) \<and> calm w w'"
  proof (cases io)
    case True
    then have "pq_cb_alsa_input A st out inp n w = Inr (rv, st', out', w')" using p by (simp add: alsa_item_def)
    then show ?thesis
      using p(2)
      by (cases out) (auto simp: pq_cb_alsa_input_def alsa_st_def bind_r_Inr_iff Let_def map_sum_Inr_iff intro!: calm_same
          split: prod.splits if_splits)
  next
    case False
    then have "pq_cb_alsa_output A st out inp n w = Inr (rv, st', out', w')" using p by (simp add: alsa_item_def)
    then show ?thesis
      using p(2)
      by (auto simp: pq_cb_alsa_output_def alsa_st_def bind_r_Inr_iff Let_def ext_call_def ext_do_def intro!: calm_same
          split: prod.splits if_splits)
  qed
qed

text \<open>
  ALSA: a device that cannot be opened leaves one block, the state, to the queue's talloc
  context. After that everything is given back.
\<close>

lemma alsa_item_simps [simp]: "it_live (alsa_item A h m io)" "it_buf (alsa_item A h m io) = None"
  by (simp_all add: alsa_item_def zero_item_def)

lemma keeps_alsa:
  fixes A :: "'x alsa_lib"
  shows "keeps 1 (\<lambda>pq. pq_queue_alsa_op A pq dev m io)"
  unfolding keeps_def
proof (intro allI impI)
  fix pq :: "('c, 'x) queue" and w n rc pq' w'
  assume r: "raw n (pq, w)" and o: "pq_queue_alsa_op A pq dev m io w = Inr (rc, pq', w')"
  have one: "(\<exists>j \<le> 1. raw (n + int j) (pq', w')) \<and> w_bench w' = w_bench w"
    if "raw n (pq', w') \<or> raw (n + 1) (pq', w')" "w_bench w' = w_bench w"
    using that(1)
  proof
    assume "raw n (pq', w')"
    then show ?thesis using that(2) by (intro conjI exI [of _ 0]) simp_all
  next
    assume "raw (n + 1) (pq', w')"
    then show ?thesis using that(2) by (intro conjI exI [of _ 1]) simp_all
  qed
  obtain b w1 where a: "alloc w = (b, w1)" by force
  note k = raw_alloc [OF a r]
  show "(\<exists>j \<le> 1. raw (n + int j) (pq', w')) \<and> w_bench w' = w_bench w"
  proof (cases b)
    case False
    then show ?thesis using one o a k by (simp add: pq_queue_alsa_op_def)
  next
    case True
    then have r1: "raw (n + 1) (pq, w1)" "w_bench w1 = w_bench w" using k by simp_all
    obtain r1 h e1 where 1: "snd_pcm_open A dev io (w_ext w1) = (r1, h, e1)" by (metis prod_cases3)
    obtain r2 e2 where 2: "snd_pcm_hw A HW_MALLOC h e1 = (r2, e2)" by force
    obtain r3 w3 where 3: "hw_setup A h hw_calls (w1\<lparr>w_ext := e2\<rparr>) = (r3, w3)" by force
    obtain e3 where e3: "w3 = w1\<lparr>w_ext := e2, w_ext := e3\<rparr>" using hw_setup_frame [OF 3] by blast
    have close: "raw n (pq, release (ext_do f (w1\<lparr>w_ext := e\<rparr>)))" for f e
      using raw_release [of "n + 1" pq w1] r1(1) by (simp add: ext_do_def release_ext)
    consider "r1 < 0" | "0 \<le> r1" "r2 < 0" | "0 \<le> r1" "0 \<le> r2" "r3 < 0" | "0 \<le> r1" "0 \<le> r2" "0 \<le> r3"
      by linarith
    then show ?thesis
    proof cases
      case c: 1
      then have "pq' = pq" "w' = w1\<lparr>w_ext := e1\<rparr>" using o a True 1 by (simp_all add: pq_queue_alsa_op_def)
      then show ?thesis using one r1 by simp
    next
      case c: 2
      then have "pq' = pq" "w' = release (ext_do (snd_pcm_close A h) (w1\<lparr>w_ext := e2\<rparr>))"
        using o a True 1 2 by (simp_all add: pq_queue_alsa_op_def ext_call_def)
      then show ?thesis using one close [of _ e2] r1(2) by (simp add: ext_do_def)
    next
      case c: 3
      then have "pq' = pq" "w' = release (ext_do (snd_pcm_close A h) (ext_do (snd_pcm_hw_free A) (w1\<lparr>w_ext := e3\<rparr>)))"
        using o a True 1 2 3 e3 by (simp_all add: pq_queue_alsa_op_def ext_call_def Let_def)
      then show ?thesis using one close [of _ "snd_pcm_hw_free A e3"] r1(2) by (simp add: ext_do_def)
    next
      case c: 4
      let ?w = "ext_do (snd_pcm_hw_free A) (w1\<lparr>w_ext := e3\<rparr>)"
      have rw: "raw (n + 1) (pq, ?w)" "w_bench ?w = w_bench w" using r1 by (simp_all add: ext_do_def)
      obtain ok pq1 w4 where ad: "pq_add_item pq ?w = Inr (ok, pq1, w4)"
        using o a True 1 2 3 e3 c by (auto simp: pq_queue_alsa_op_def ext_call_def Let_def bind_r_Inr_iff)
      note ka = raw_add [OF ad rw(1)]
      show ?thesis
      proof (cases ok)
        case ok: True
        then have "pq' = push_item (alsa_item A h m io) pq" "w' = w4"
          using o a True 1 2 3 e3 c ad ka
          by (simp_all add: pq_queue_alsa_op_def ext_call_def Let_def alsa_item_def)
        then show ?thesis
          using one raw_push [OF _ tidy_alsa, of "n + 2" pq w4 A h m io] ka ok rw(2) by (simp add: add.commute)
      next
        case False
        then have "pq' = pq" "w' = release (ext_do (snd_pcm_close A h) w4)"
          using o a True 1 2 3 e3 c ad ka by (simp_all add: pq_queue_alsa_op_def ext_call_def Let_def)
        then show ?thesis
          using one raw_release [of "n + 1" pq w4] ka False rw(2) by (simp add: ext_do_def release_ext)
      qed
    qed
  qed
qed

section \<open>The whole construction\<close>

lemma keeps_step:
  assumes "keeps k op" and "raw n s" and "queue_step op s = Inr s'"
  shows "\<exists>j \<le> k. raw (n + int j) s' \<and> w_bench (snd s') = w_bench (snd s)"
proof -
  obtain pq w where s: "s = (pq, w)" by force
  then obtain rc pq' w' where "op pq w = Inr (rc, pq', w')" "s' = (pq', w')"
    using assms(3) by (auto simp: queue_step_def bind_r_Inr_iff)
  then show ?thesis using assms(1,2) s unfolding keeps_def by fastforce
qed

lemma keeps_step0:
  "keeps 0 op \<Longrightarrow> raw n s \<Longrightarrow> queue_step op s = Inr s' \<Longrightarrow> raw n s' \<and> w_bench (snd s') = w_bench (snd s)"
  using keeps_step [of 0 op n s s'] by simp

text \<open>Enabling a benchmark for the first time; without memory nothing happens.\<close>

lemma raw_bench:
  assumes r: "raw n s" and none: "w_bench (snd s) (codec_num c) = None"
  shows "raw n (bench_step on c s) \<and>
    (\<forall>k. k \<noteq> codec_num c \<longrightarrow> w_bench (snd (bench_step on c s)) k = w_bench (snd s) k)"
proof -
  obtain pq w where s: "s = (pq, w)" by force
  obtain b w1 where a: "alloc w = (b, w1)" by force
  show ?thesis
  proof (cases "on \<and> b")
    case False
    then show ?thesis
      using r s a raw_alloc [OF a, of n pq] by (cases b) (auto simp: bench_step_def bench_enable_def)
  next
    case True
    let ?w = "w1\<lparr>w_bench := (w_bench w1)(codec_num c := Some zero_bench)\<rparr>"
    have e: "bench_step on c (pq, w) = (pq, ?w)" using True a by (simp add: bench_step_def bench_enable_def)
    have f: "w_live w1 = w_live w + 1" "w_bench w1 = w_bench w" using alloc_live [OF a] alloc_frame [OF a] True by simp_all
    have "codec_num c < 6" by (cases c) simp_all
    then have "enabled ?w = insert (codec_num c) (enabled w)" using f(2) by (auto simp: enabled_def)
    moreover have "codec_num c \<notin> enabled w" using none s by (simp add: enabled_def)
    ultimately have "owed ?w = owed w" using f(1) by (simp add: owed_def)
    moreover have "benches_ok w \<longrightarrow> benches_ok ?w" using f(2) by (auto simp: benches_ok_def)
    ultimately show ?thesis using r f(2) unfolding e s by (auto simp: raw_def held_def)
  qed
qed

text \<open>Source and sink: all is kept but for an ALSA device that does not open.\<close>

lemma keeps_sources:
  fixes A :: "'x alsa_lib"
  shows "keeps 0 (\<lambda>pq. pq_queue_file_input pq fh m)" "keeps 0 (\<lambda>pq. pq_queue_file_output pq fh m)"
    "keeps 0 (\<lambda>pq. pq_queue_rtp_input pq fd m pt)" "keeps 0 (\<lambda>pq. pq_queue_rtp_output pq fd m pt)"
    "keeps 1 (\<lambda>pq. pq_queue_alsa_input A pq dev m)" "keeps 1 (\<lambda>pq. pq_queue_alsa_output A pq dev m)"
  by (simp_all only: pq_queue_file_input_def [abs_def] pq_queue_file_output_def [abs_def]
      pq_queue_rtp_input_def [abs_def] pq_queue_rtp_output_def [abs_def]
      pq_queue_alsa_input_def [abs_def] pq_queue_alsa_output_def [abs_def] keeps_file keeps_rtp keeps_alsa)

lemma source_kept:
  assumes "queue_source E gs fi s = Inr (Some s')" and r: "raw n s"
  shows "\<exists>j \<le> of_bool (alsa_in (opts gs) \<noteq> None). raw (n + int j) s' \<and> w_bench (snd s') = w_bench (snd s)"
proof -
  consider fh where "in_fh gs = Some fh" | "in_fh gs = None" "in_fd gs \<noteq> -1"
    | dev where "in_fh gs = None" "in_fd gs = -1" "alsa_in (opts gs) = Some dev" "have_alsa (e_cfg E)"
    using assms(1) by (cases "in_fh gs"; cases "in_fd gs = -1"; cases "alsa_in (opts gs)"; cases "have_alsa (e_cfg E)")
      (simp_all add: queue_source_def)
  then show ?thesis
  proof cases
    case fh: 1
    then have "queue_step (\<lambda>pq. pq_queue_file_input pq fh (fd_frame_len fi)) s = Inr s'"
      using assms(1) by (auto simp: queue_source_def map_sum_Inr_iff)
    from keeps_step0 [OF keeps_sources(1) r this] show ?thesis by (intro exI [of _ 0]) simp
  next
    case rtp: 2
    then have "queue_step (\<lambda>pq. pq_queue_rtp_input pq (nat (in_fd gs)) (fd_frame_len fi) (rtp_pt_in (opts gs))) s = Inr s'"
      using assms(1) by (auto simp: queue_source_def map_sum_Inr_iff)
    from keeps_step0 [OF keeps_sources(3) r this] show ?thesis by (intro exI [of _ 0]) simp
  next
    case alsa: 3
    then have "queue_step (\<lambda>pq. pq_queue_alsa_input (e_alsa E) pq dev (fd_frame_len fi)) s = Inr s'"
      using assms(1) by (auto simp: queue_source_def map_sum_Inr_iff)
    from keeps_step [OF keeps_sources(5) r this] show ?thesis using alsa by simp
  qed
qed

lemma sink_kept:
  assumes "queue_sink E gs fo s = Inr (Some s')" and r: "raw n s"
  shows "\<exists>j \<le> of_bool (alsa_out (opts gs) \<noteq> None). raw (n + int j) s'"
proof -
  consider fh where "out_fh gs = Some fh" | "out_fh gs = None" "out_fd gs \<noteq> -1"
    | dev where "out_fh gs = None" "out_fd gs = -1" "alsa_out (opts gs) = Some dev" "have_alsa (e_cfg E)"
    using assms(1) by (cases "out_fh gs"; cases "out_fd gs = -1"; cases "alsa_out (opts gs)"; cases "have_alsa (e_cfg E)")
      (simp_all add: queue_sink_def)
  then show ?thesis
  proof cases
    case fh: 1
    then have "queue_step (\<lambda>pq. pq_queue_file_output pq fh (fd_frame_len fo)) s = Inr s'"
      using assms(1) by (auto simp: queue_sink_def map_sum_Inr_iff)
    from keeps_step0 [OF keeps_sources(2) r this] show ?thesis by (intro exI [of _ 0]) simp
  next
    case rtp: 2
    then have "queue_step (\<lambda>pq. pq_queue_rtp_output pq (nat (out_fd gs)) (fd_frame_len fo) (rtp_pt_out (opts gs))) s = Inr s'"
      using assms(1) by (auto simp: queue_sink_def map_sum_Inr_iff)
    from keeps_step0 [OF keeps_sources(4) r this] show ?thesis by (intro exI [of _ 0]) simp
  next
    case alsa: 3
    then have "queue_step (\<lambda>pq. pq_queue_alsa_output (e_alsa E) pq dev (fd_frame_len fo)) s = Inr s'"
      using assms(1) by (auto simp: queue_sink_def map_sum_Inr_iff)
    from keeps_step [OF keeps_sources(6) r this] show ?thesis using alsa by auto
  qed
qed

text \<open>Decoder and encoder, each with the benchmark of its codec.\<close>

lemma convert_kept:
  "raw n s \<Longrightarrow> queue_step (\<lambda>pq. pq_queue_fmt_convert C L pq f b) s = Inr s' \<Longrightarrow>
     raw n s' \<and> w_bench (snd s') = w_bench (snd s)"
  by (rule keeps_step0 [OF keeps_convert])

lemma codec_kept:
  "codec_get_from_type C L c = Some codec \<Longrightarrow> raw n s \<Longrightarrow>
     queue_step (\<lambda>pq. pq_queue_codec e T C L pq codec enc) s = Inr s' \<Longrightarrow>
     raw n s' \<and> w_bench (snd s') = w_bench (snd s)"
  by (rule keeps_step0 [OF keeps_codec])

lemma decoder_kept:
  fixes E :: "('c, 'x) env"
  assumes d: "queue_decoder E on fi fo s = Inr (Some s')" and r: "raw n s"
    and none: "w_bench (snd s) (codec_num (fd_codec_type fi)) = None"
  shows "raw n s' \<and> (\<forall>k. k \<noteq> codec_num (fd_codec_type fi) \<longrightarrow> w_bench (snd s') k = w_bench (snd s) k)"
proof (cases "fd_codec_type fi \<noteq> CODEC_PCM \<and> fd_codec_type fi \<noteq> fd_codec_type fo")
  case True
  let ?c = "fd_codec_type fi"
  obtain codec :: "('c, 'x) codec_desc" where c: "codec_get_from_type (e_cfg E) (e_libs E) ?c = Some codec"
    using d True by (auto simp: queue_decoder_def bind_r_Inr_iff deref_Inr_iff Let_def)
  define conv where "conv = (\<lambda>s1. s1 = s \<or>
      (\<exists>fd s0. queue_step (\<lambda>pq. pq_queue_fmt_convert (e_cfg E) (e_libs E) pq fi False) s = Inr s0 \<and>
        queue_step (\<lambda>pq. pq_queue_fmt_convert (e_cfg E) (e_libs E) pq fd True) s0 = Inr s1))"
  have "\<exists>s1 s2. conv s1 \<and>
      queue_step (\<lambda>pq. pq_queue_codec (e_endian E) (e_tables E) (e_cfg E) (e_libs E) pq codec False) s1 = Inr s2 \<and>
      s' = bench_step on ?c s2"
  proof (cases "fd_type fi = cd_dec_format_type codec")
    case same: True
    then obtain s2 where "queue_step (\<lambda>pq. pq_queue_codec (e_endian E) (e_tables E) (e_cfg E) (e_libs E) pq codec False) s = Inr s2"
        "s' = bench_step on ?c s2"
      using d True c by (auto simp: queue_decoder_def bind_r_Inr_iff Let_def simp del: split_paired_Ex)
    then show ?thesis unfolding conv_def by blast
  next
    case other: False
    then obtain fd where fd: "fmt_get_from_type (e_endian E) (e_tables E) (fmt_num (cd_dec_format_type codec)) = Some fd"
      using d True c by (auto simp: queue_decoder_def Let_def split: option.splits)
    obtain s0 where s0: "queue_step (\<lambda>pq. pq_queue_fmt_convert (e_cfg E) (e_libs E) pq fi False) s = Inr s0"
      using d True c other fd
      by (cases "queue_step (\<lambda>pq. pq_queue_fmt_convert (e_cfg E) (e_libs E) pq fi False) s")
         (simp_all add: queue_decoder_def)
    obtain s1 where s1: "queue_step (\<lambda>pq. pq_queue_fmt_convert (e_cfg E) (e_libs E) pq fd True) s0 = Inr s1"
      using d True c other fd s0
      by (cases "queue_step (\<lambda>pq. pq_queue_fmt_convert (e_cfg E) (e_libs E) pq fd True) s0")
         (simp_all add: queue_decoder_def)
    obtain s2 where "queue_step (\<lambda>pq. pq_queue_codec (e_endian E) (e_tables E) (e_cfg E) (e_libs E) pq codec False) s1 = Inr s2"
        "s' = bench_step on ?c s2"
      using d True c other fd s0 s1
      by (cases "queue_step (\<lambda>pq. pq_queue_codec (e_endian E) (e_tables E) (e_cfg E) (e_libs E) pq codec False) s1")
         (simp_all add: queue_decoder_def)
    moreover have "conv s1" unfolding conv_def using s0 s1 by blast
    ultimately show ?thesis by blast
  qed
  then obtain s1 s2 where c2: "conv s1"
      "queue_step (\<lambda>pq. pq_queue_codec (e_endian E) (e_tables E) (e_cfg E) (e_libs E) pq codec False) s1 = Inr s2"
      "s' = bench_step on ?c s2"
    by blast
  have "raw n s1 \<and> w_bench (snd s1) = w_bench (snd s)"
    using c2(1) unfolding conv_def
  proof (elim disjE exE conjE)
    fix fd s0
    assume "queue_step (\<lambda>pq. pq_queue_fmt_convert (e_cfg E) (e_libs E) pq fi False) s = Inr s0"
      "queue_step (\<lambda>pq. pq_queue_fmt_convert (e_cfg E) (e_libs E) pq fd True) s0 = Inr s1"
    then show ?thesis using convert_kept r by metis
  qed (use r in simp)
  then have "raw n s2 \<and> w_bench (snd s2) = w_bench (snd s)" using codec_kept [OF c _ c2(2)] by auto
  then show ?thesis using raw_bench [of n s2 ?c on] none unfolding c2(3) by simp
next
  case False
  then have "s' = s \<or> queue_step (\<lambda>pq. pq_queue_fmt_convert (e_cfg E) (e_libs E) pq fi False) s = Inr s'"
    using d by (auto simp: queue_decoder_def map_sum_Inr_iff Let_def split: if_splits)
  then show ?thesis using r convert_kept by metis
qed

lemma encoder_kept:
  fixes E :: "('c, 'x) env"
  assumes d: "queue_encoder E on fi fo s = Inr (Some s')" and r: "raw n s"
    and none: "fd_codec_type fo \<noteq> fd_codec_type fi \<Longrightarrow> w_bench (snd s) (codec_num (fd_codec_type fo)) = None"
  shows "raw n s'"
proof (cases "fd_codec_type fo \<noteq> CODEC_PCM \<and> fd_codec_type fo \<noteq> fd_codec_type fi")
  case True
  let ?c = "fd_codec_type fo"
  obtain codec :: "('c, 'x) codec_desc" where c: "codec_get_from_type (e_cfg E) (e_libs E) ?c = Some codec"
    using d True by (auto simp: queue_encoder_def bind_r_Inr_iff deref_Inr_iff Let_def)
  obtain s1 where s1: "queue_step (\<lambda>pq. pq_queue_codec (e_endian E) (e_tables E) (e_cfg E) (e_libs E) pq codec True) s = Inr s1"
    using d True c
    by (cases "queue_step (\<lambda>pq. pq_queue_codec (e_endian E) (e_tables E) (e_cfg E) (e_libs E) pq codec True) s")
       (simp_all add: queue_encoder_def)
  have "raw n s1 \<and> w_bench (snd s1) = w_bench (snd s)" using codec_kept [OF c r s1] .
  then have b: "raw n (bench_step on ?c s1)" using raw_bench [of n s1 ?c on] none True by simp
  show ?thesis
  proof (cases "fd_type fo = cd_enc_format_type codec")
    case same: True
    then show ?thesis using d True c s1 b by (simp add: queue_encoder_def Let_def)
  next
    case other: False
    then obtain fd where fd: "fmt_get_from_type (e_endian E) (e_tables E) (fmt_num (cd_enc_format_type codec)) = Some fd"
      using d True c s1 by (auto simp: queue_encoder_def Let_def split: option.splits)
    obtain s0 where s0: "queue_step (\<lambda>pq. pq_queue_fmt_convert (e_cfg E) (e_libs E) pq fd False) (bench_step on ?c s1) = Inr s0"
      using d True c other fd s1
      by (cases "queue_step (\<lambda>pq. pq_queue_fmt_convert (e_cfg E) (e_libs E) pq fd False) (bench_step on ?c s1)")
         (simp_all add: queue_encoder_def Let_def)
    have "queue_step (\<lambda>pq. pq_queue_fmt_convert (e_cfg E) (e_libs E) pq fo True) s0 = Inr s'"
      using d True c other fd s1 s0
      by (cases "queue_step (\<lambda>pq. pq_queue_fmt_convert (e_cfg E) (e_libs E) pq fo True) s0")
         (simp_all add: queue_encoder_def Let_def)
    then show ?thesis using convert_kept b s0 by metis
  qed
next
  case False
  then have "s' = s \<or> queue_step (\<lambda>pq. pq_queue_fmt_convert (e_cfg E) (e_libs E) pq fo True) s = Inr s'"
    using d by (auto simp: queue_encoder_def map_sum_Inr_iff Let_def split: if_splits)
  then show ?thesis using r convert_kept by metis
qed

text \<open>However the construction ends, at most one block per ALSA device is not accounted for.\<close>

definition alsa_devices :: "gapk_options \<Rightarrow> nat" where
  "alsa_devices opt = of_bool (alsa_in opt \<noteq> None) + of_bool (alsa_out opt \<noteq> None)"

definition gs_raw :: "('c, 'x) gapk_state \<Rightarrow> int \<Rightarrow> ('c, 'x) gapk_state \<Rightarrow> 'x world \<Rightarrow> bool" where
  "gs_raw gs n gs' w' \<longleftrightarrow> same_request gs gs' \<and>
     (\<exists>pq' j. gs_pq gs' = Some pq' \<and> j \<le> alsa_devices (opts gs) \<and> raw (n + int j) (pq', w'))"

lemma gs_rawI:
  "raw (n + int j) s \<Longrightarrow> j \<le> alsa_devices (opts gs) \<Longrightarrow> gs_raw gs n (gs\<lparr>gs_pq := Some (fst s)\<rparr>) (snd s)"
  by (cases s) (auto simp: gs_raw_def)

lemma chain_kept:
  fixes E :: "('c, 'x) env"
  assumes mk: "make_processing_chain E gs w = Inr (rv, gs', w')" and pq: "gs_pq gs = Some pq" "raw n (pq, w)"
    and none: "w_bench w = (\<lambda>_. None)"
  shows "gs_raw gs n gs' w'"
proof -
  obtain fi fo where f: "fmt_in (opts gs) = Some fi" "fmt_out (opts gs) = Some fo"
    using mk by (auto simp: make_processing_chain_def bind_r_Inr_iff deref_Inr_iff)
  obtain r1 where r1: "queue_source E gs fi (pq, w) = Inr r1"
    using mk f pq by (cases "queue_source E gs fi (pq, w)") (simp_all add: make_processing_chain_def)
  show ?thesis
  proof (cases r1)
    case None
    then show ?thesis
      using mk f pq r1 by (auto simp: make_processing_chain_def gs_raw_def intro!: exI [of _ 0])
  next
    case (Some s1)
    obtain j1 where j1: "j1 \<le> of_bool (alsa_in (opts gs) \<noteq> None)" "raw (n + int j1) s1" "w_bench (snd s1) = (\<lambda>_. None)"
      using source_kept [OF r1 [unfolded Some] pq(2)] none by auto
    have d1: "j1 \<le> alsa_devices (opts gs)" using j1(1) by (simp add: alsa_devices_def)
    obtain r2 where r2: "queue_decoder E (benchmark (opts gs)) fi fo s1 = Inr r2"
      using mk f pq r1 Some
      by (cases "queue_decoder E (benchmark (opts gs)) fi fo s1") (simp_all add: make_processing_chain_def)
    show ?thesis
    proof (cases r2)
      case None
      then show ?thesis
        using mk f pq r1 Some r2 gs_rawI [OF j1(2) d1] by (simp add: make_processing_chain_def)
    next
      case s2: (Some s2)
      have k2: "raw (n + int j1) s2"
          "\<forall>k. k \<noteq> codec_num (fd_codec_type fi) \<longrightarrow> w_bench (snd s2) k = None"
        using decoder_kept [OF r2 [unfolded s2] j1(2)] j1(3) by simp_all
      obtain r3 where r3: "queue_encoder E (benchmark (opts gs)) fi fo s2 = Inr r3"
        using mk f pq r1 Some r2 s2
        by (cases "queue_encoder E (benchmark (opts gs)) fi fo s2") (simp_all add: make_processing_chain_def)
      show ?thesis
      proof (cases r3)
        case None
        then show ?thesis
          using mk f pq r1 Some r2 s2 r3 gs_rawI [OF k2(1) d1] by (simp add: make_processing_chain_def)
      next
        case s3: (Some s3)
        have k3: "raw (n + int j1) s3"
          using encoder_kept [OF r3 [unfolded s3] k2(1)] k2(2) by (simp add: codec_num_inj)
        obtain r4 where r4: "queue_sink E gs fo s3 = Inr r4"
          using mk f pq r1 Some r2 s2 r3 s3
          by (cases "queue_sink E gs fo s3") (simp_all add: make_processing_chain_def)
        show ?thesis
        proof (cases r4)
          case None
          then show ?thesis
            using mk f pq r1 Some r2 s2 r3 s3 r4 gs_rawI [OF k3 d1] by (simp add: make_processing_chain_def)
        next
          case s4: (Some s4)
          obtain j2 where j2: "j2 \<le> of_bool (alsa_out (opts gs) \<noteq> None)" "raw (n + int j1 + int j2) s4"
            using sink_kept [OF r4 [unfolded s4] k3] by blast
          have d2: "raw (n + int (j1 + j2)) s4" "j1 + j2 \<le> alsa_devices (opts gs)"
            using j1(1) j2 by (simp_all add: alsa_devices_def add.assoc)
          have "gs' = gs\<lparr>gs_pq := Some (fst s4)\<rparr>" "w' = snd s4"
            using mk f pq r1 Some r2 s2 r3 s3 r4 s4
            by (auto simp: make_processing_chain_def bind_r_Inr_iff case_prod_beta)
          then show ?thesis using gs_rawI [OF d2] by simp
        qed
      qed
    qed
  qed
qed

end
