(* ===== verification/Startup.thy ===== *)
theory Startup
  imports Chain
begin

text \<open>
  What the application does before and after the processing loop (\<^verbatim>\<open>src/app_osmo_gapk.c\<close>): the
  options it accepts, the check of a request, the streams it opens and closes, the file
  headers, and the benchmark report.
\<close>

section \<open>Options\<close>

definition from_table :: "('c, 'x) env \<Rightarrow> format_desc option \<Rightarrow> bool" where
  "from_table E f \<longleftrightarrow>
     (case f of None \<Rightarrow> True | Some f \<Rightarrow> \<exists>t. t \<noteq> FMT_INVALID \<and> f = fmt_of (e_endian E) (e_tables E) t)"

definition opts_ok :: "('c, 'x) env \<Rightarrow> gapk_options \<Rightarrow> bool" where
  "opts_ok E opt \<longleftrightarrow> from_table E (fmt_in opt) \<and> from_table E (fmt_out opt) \<and>
     rtp_in_port opt \<le> 65535 \<and> rtp_out_port opt \<le> 65535 \<and>
     (\<not> have_alsa (e_cfg E) \<longrightarrow> alsa_in opt = None \<and> alsa_out opt = None)"

lemma from_table_simps [simp]: "from_table E None"
  "from_table E (Some f) \<longleftrightarrow> (\<exists>t. t \<noteq> FMT_INVALID \<and> f = fmt_of (e_endian E) (e_tables E) t)"
  by (simp_all add: from_table_def)

lemma parse_option_ok:
  assumes "opts_ok E opt" and "parse_option E co opt w = (Inr opt', w')"
  shows "opts_ok E opt'"
  using assms
  by (auto simp: parse_option_def opts_ok_def fmt_get_from_name_iff Let_def
      split: prod.splits if_splits option.splits)

lemma parse_loop_ok:
  "opts_ok E opt \<Longrightarrow> parse_loop E cos opt w = (rv, opt', w') \<Longrightarrow> opts_ok E opt'"
  by (induction E cos opt w rule: parse_loop.induct)
     (auto split: prod.splits sum.splits dest: parse_option_ok)

lemma parse_options_ok:
  "parse_options E args gs w = (rv, gs', w') \<Longrightarrow> opts_ok E (opts gs')"
  using parse_loop_ok [of E "zero_options\<lparr>rtp_pt_in := 3, rtp_pt_out := 3\<rparr>" args w]
  by (auto simp: parse_options_def opts_ok_def zero_options_def Let_def split: prod.splits)

subsection \<open>Host and port\<close>

lemma strtok_token:
  assumes "h \<noteq> []" and "CHR ''/'' \<notin> set h"
  shows "strtok (h @ CHR ''/'' # s) = Some (h, s)" and "strtok h = Some (h, [])"
proof -
  have h: "hd h \<noteq> CHR ''/''" using assms by (cases h) auto
  have n: "c \<noteq> CHR ''/''" if "c \<in> set h" for c using that assms(2) by auto
  have d: "dropWhile (\<lambda>c. c = CHR ''/'') (h @ xs) = h @ xs" for xs using h assms(1) by (cases h) auto
  have t: "takeWhile (\<lambda>c. c \<noteq> CHR ''/'') (h @ xs) = h @ takeWhile (\<lambda>c. c \<noteq> CHR ''/'') xs"
    "dropWhile (\<lambda>c. c \<noteq> CHR ''/'') (h @ xs) = dropWhile (\<lambda>c. c \<noteq> CHR ''/'') xs" for xs
    using n by (simp_all add: takeWhile_append2 dropWhile_append2)
  show "strtok (h @ CHR ''/'' # s) = Some (h, s)"
    using assms(1) by (simp add: strtok_def d t Let_def)
  have e: "dropWhile (\<lambda>c. c \<noteq> CHR ''/'') h = []" using n by (simp add: dropWhile_eq_Nil_conv)
  have "takeWhile (\<lambda>c. c \<noteq> CHR ''/'') h = h" "dropWhile (\<lambda>c. c = CHR ''/'') h = h"
    using d [of "[]"] t(1) [of "[]"] by simp_all
  then show "strtok h = Some (h, [])"
    using assms(1) by (simp add: strtok_def e Let_def)
qed

text \<open>Decimal notation, as the reference for \<^verbatim>\<open>atoi\<close>.\<close>

fun decimal :: "nat \<Rightarrow> string" where
  "decimal n = (if n < 10 then [] else decimal (n div 10)) @ [char_of (48 + n mod 10)]"

declare decimal.simps [simp del]

lemma digit_char:
  assumes "d < 10"
  shows "is_digit_c (char_of (48 + d))" and "(of_char (char_of (48 + d :: nat)) :: int) = 48 + int d"
    and "(of_char (char_of (48 + d :: nat)) :: nat) = 48 + d" and "char_of (48 + d :: nat) \<noteq> CHR ''/''"
    and "char_of (48 + d :: nat) \<noteq> CHR ''-''" and "char_of (48 + d :: nat) \<noteq> CHR ''+''"
proof -
  have n: "(of_char (char_of (48 + d :: nat)) :: nat) = 48 + d" using assms by (simp add: of_char_of)
  then show "(of_char (char_of (48 + d :: nat)) :: nat) = 48 + d" .
  show "is_digit_c (char_of (48 + d))" using n assms by (simp add: is_digit_c_def)
  show "(of_char (char_of (48 + d :: nat)) :: int) = 48 + int d"
    using n by (metis of_nat_add of_nat_numeral of_nat_of_char)
  show "char_of (48 + d :: nat) \<noteq> CHR ''/''" using n by (intro notI) simp
  show "char_of (48 + d :: nat) \<noteq> CHR ''-''" using n by (intro notI) simp
  show "char_of (48 + d :: nat) \<noteq> CHR ''+''" using n by (intro notI) simp
qed

lemma digits_val_append:
  "list_all is_digit_c cs \<Longrightarrow> digits_val v (cs @ ds) = digits_val (digits_val v cs) ds"
  by (induction cs arbitrary: v) auto

lemma decimal_digits: "list_all is_digit_c (decimal n)"
proof (induction n rule: decimal.induct)
  case (1 n)
  then show ?case by (subst decimal.simps) (use digit_char(1) [of "n mod 10"] in simp)
qed

lemma digits_val_decimal: "digits_val 0 (decimal n) = int n"
proof (induction n rule: decimal.induct)
  case (1 n)
  have "digits_val v [char_of (48 + n mod 10)] = 10 * v + int (n mod 10)" for v
    using digit_char [of "n mod 10"] by simp
  moreover have "10 * int (n div 10) + int (n mod 10) = int n"
    by (metis mult_div_mod_eq of_nat_add of_nat_mult of_nat_numeral)
  ultimately show ?case
    using 1 decimal_digits [of "n div 10"]
    by (subst decimal.simps) (auto simp: digits_val_append)
qed

lemma atoi_decimal: "atoi (decimal n) = int n"
proof -
  obtain c cs where c: "decimal n = c # cs" by (cases "decimal n") (simp add: decimal.simps [of n], auto)
  have d: "is_digit_c c" using decimal_digits [of n] c by simp
  then have "\<not> is_space_c c" "c \<noteq> CHR ''-''" "c \<noteq> CHR ''+''"
    by (auto simp: is_digit_c_def is_space_c_def)
  then show ?thesis using digits_val_decimal [of n] c by (simp add: atoi_def)
qed

lemma decimal_no_slash: "CHR ''/'' \<notin> set (decimal n)" "decimal n \<noteq> []"
proof -
  have "\<not> is_digit_c (CHR ''/'')" by (simp add: is_digit_c_def)
  then show "CHR ''/'' \<notin> set (decimal n)"
    using decimal_digits [of n] by (auto simp: list_all_iff)
  show "decimal n \<noteq> []" by (simp add: decimal.simps [of n])
qed

lemma parse_host_port_printed:
  assumes "h \<noteq> []" and "CHR ''/'' \<notin> set h" and "w_mem w = []"
  shows "\<exists>w'. parse_host_port (h @ CHR ''/'' # decimal n) host w = (int n, Some h, w')"
  using assms strtok_token [OF assms(1,2)] strtok_token [OF decimal_no_slash(2) decimal_no_slash(1)]
  by (simp add: parse_host_port_def atoi_decimal)

section \<open>The check of a request\<close>

definition libs_created :: "'c codec_libs \<Rightarrow> bool" where
  "libs_created L \<longleftrightarrow> lib_gsm_create L \<noteq> None \<and> lib_gsmhr_init L \<noteq> None"

lemma codec_supported:
  fixes codec :: "('c, 'x) codec_desc"
  assumes "codec_get_from_type C L c = Some codec" and "libs_created L"
    and "c \<noteq> CODEC_PCM" and "c \<noteq> CODEC_INVALID"
  shows "cd_type codec = c" and "cd_decode codec \<noteq> None \<longleftrightarrow> codec_ready C L c"
    and "cd_encode codec \<noteq> None \<longleftrightarrow> codec_ready C L c"
  using assms by (cases c; clarsimp simp: codec_descs codec_ready_def libs_created_def if_built_def Let_def)+

lemma pcm_desc_type: "codec_get_from_type C L CODEC_PCM = Some codec \<Longrightarrow> cd_type codec = CODEC_PCM"
  by (auto simp: codec_descs)

definition sources :: "gapk_options \<Rightarrow> nat" where
  "sources opt = of_bool (fname_in opt \<noteq> None) + of_bool (rtp_in_port opt \<noteq> 0) + of_bool (alsa_in opt \<noteq> None)"

definition sinks :: "gapk_options \<Rightarrow> nat" where
  "sinks opt = of_bool (fname_out opt \<noteq> None) + of_bool (rtp_out_port opt \<noteq> 0) + of_bool (alsa_out opt \<noteq> None)"

lemma check_options_spec:
  fixes E :: "('c, 'x) env"
  assumes L: "libs_created (e_libs E)" and f: "fmt_in (opts gs) = Some (fmt_of (e_endian E) (e_tables E) ti)"
      "fmt_out (opts gs) = Some (fmt_of (e_endian E) (e_tables E) tt)" and t: "ti \<noteq> FMT_INVALID" "tt \<noteq> FMT_INVALID"
  shows "check_options E gs =
    (if \<not> servable E ti tt then - ENOTSUP
     else if sources (opts gs) > 1 \<or> sinks (opts gs) > 1 then - EINVAL else 0)"
proof (cases "codec_of ti = codec_of tt")
  case True
  then show ?thesis using f t
    by (simp add: check_options_def fd_codec_type_of servable_def need_dec_def need_enc_def sources_def sinks_def Let_def)
next
  case False
  obtain ci :: "('c, 'x) codec_desc" where ci: "codec_get_from_type (e_cfg E) (e_libs E) (codec_of ti) = Some ci"
    using codec_get_Some [OF codec_of_valid] by blast
  obtain co :: "('c, 'x) codec_desc" where co: "codec_get_from_type (e_cfg E) (e_libs E) (codec_of tt) = Some co"
    using codec_get_Some [OF codec_of_valid] by blast
  have i: "cd_type ci \<noteq> CODEC_PCM \<and> cd_decode ci = None \<longleftrightarrow>
      need_dec ti tt \<and> \<not> codec_ready (e_cfg E) (e_libs E) (codec_of ti)"
    using codec_supported [OF ci L _ codec_of_valid] pcm_desc_type [of "e_cfg E" "e_libs E" ci] ci False
    by (cases "codec_of ti = CODEC_PCM") (auto simp: need_dec_def)
  have o: "cd_type co \<noteq> CODEC_PCM \<and> cd_encode co = None \<longleftrightarrow>
      need_enc ti tt \<and> \<not> codec_ready (e_cfg E) (e_libs E) (codec_of tt)"
    using codec_supported [OF co L _ codec_of_valid] pcm_desc_type [of "e_cfg E" "e_libs E" co] co False
    by (cases "codec_of tt = CODEC_PCM") (auto simp: need_enc_def)
  show ?thesis
    using f t False ci co i o
    by (auto simp: check_options_def fd_codec_type_of servable_def sources_def sinks_def Let_def)
qed

section \<open>Streams\<close>

text \<open>What the source and the sink of a request hold open, and whether opening them succeeded.\<close>

definition source_opened :: "('c, 'x) env \<Rightarrow> gapk_options \<Rightarrow> closed list" where
  "source_opened E opt =
     (case fname_in opt of
        Some name \<Rightarrow> (case e_fopen E name False of None \<Rightarrow> [] | Some (fh, f) \<Rightarrow> [Closed_File fh])
      | None \<Rightarrow>
          if rtp_in_port opt \<noteq> 0 \<and> e_sock_init E (rtp_in_hostname opt) (rtp_in_port opt) True \<ge> 0
          then [Closed_Fd (e_sock_init E (rtp_in_hostname opt) (rtp_in_port opt) True)] else [])"

definition sink_opened :: "('c, 'x) env \<Rightarrow> gapk_options \<Rightarrow> closed list" where
  "sink_opened E opt =
     (case fname_out opt of
        Some name \<Rightarrow> (case e_fopen E name True of None \<Rightarrow> [] | Some (fh, f) \<Rightarrow> [Closed_File fh])
      | None \<Rightarrow>
          if rtp_out_port opt \<noteq> 0 \<and> e_sock_init E (rtp_out_hostname opt) (rtp_out_port opt) False \<ge> 0
          then [Closed_Fd (e_sock_init E (rtp_out_hostname opt) (rtp_out_port opt) False)] else [])"

definition source_failed :: "('c, 'x) env \<Rightarrow> gapk_options \<Rightarrow> bool" where
  "source_failed E opt \<longleftrightarrow>
     (case fname_in opt of
        Some name \<Rightarrow> e_fopen E name False = None
      | None \<Rightarrow> rtp_in_port opt \<noteq> 0 \<and> e_sock_init E (rtp_in_hostname opt) (rtp_in_port opt) True < 0)"

text \<open>The library never hands out the handles of the standard streams again.\<close>

definition fresh_handles :: "('c, 'x) env \<Rightarrow> bool" where
  "fresh_handles E \<longleftrightarrow> (\<forall>name mode fh f. e_fopen E name mode = Some (fh, f) \<longrightarrow> 1 < fh) \<and> 0 < e_errno E"

definition no_streams :: "('c, 'x) gapk_state \<Rightarrow> bool" where
  "no_streams gs \<longleftrightarrow> in_fh gs = None \<and> in_fd gs = -1 \<and> out_fh gs = None \<and> out_fd gs = -1"

lemma fresh_handleD: "fresh_handles E \<Longrightarrow> e_fopen E name mode = Some (fh, f) \<Longrightarrow> 1 < fh"
  by (auto simp: fresh_handles_def)

lemma open_source_spec:
  assumes fresh: "fresh_handles E" and none: "no_streams gs" and s: "open_source E gs w = (rv, gs1, w1)"
  shows "files_close gs1 = source_opened E (opts gs) \<and> (rv \<noteq> 0 \<longleftrightarrow> source_failed E (opts gs)) \<and>
    opts gs1 = opts gs \<and> out_fh gs1 = None \<and> out_fd gs1 = -1 \<and> gs_pq gs1 = gs_pq gs"
proof (cases "fname_in (opts gs)")
  case None
  then show ?thesis
    using s none by (auto simp: open_source_def source_opened_def source_failed_def no_streams_def
        files_close_def Let_def split: if_splits)
next
  case (Some name)
  show ?thesis
  proof (cases "e_fopen E name False")
    case None
    then show ?thesis
      using s none fresh Some by (auto simp: open_source_def source_opened_def source_failed_def no_streams_def
          files_close_def fresh_handles_def)
  next
    case f: (Some ff)
    obtain fh f where ff: "ff = (fh, f)" by force
    then have "1 < fh" using fresh_handleD [OF fresh] f by blast
    then show ?thesis
      using s none Some f ff by (auto simp: open_source_def source_opened_def source_failed_def no_streams_def
          files_close_def)
  qed
qed

lemma open_sink_spec:
  assumes fresh: "fresh_handles E" and none: "out_fh gs = None" "out_fd gs = -1"
    and s: "open_sink E gs w = (rv, gs1, w1)"
  shows "files_close gs1 = files_close gs @ sink_opened E (opts gs) \<and> opts gs1 = opts gs \<and>
    gs_pq gs1 = gs_pq gs"
proof (cases "fname_out (opts gs)")
  case None
  then show ?thesis
    using s none by (auto simp: open_sink_def sink_opened_def files_close_def Let_def split: if_splits)
next
  case (Some name)
  show ?thesis
  proof (cases "e_fopen E name True")
    case None
    then show ?thesis using s none Some by (auto simp: open_sink_def sink_opened_def files_close_def)
  next
    case f: (Some ff)
    obtain fh f where ff: "ff = (fh, f)" by force
    then have "1 < fh" using fresh_handleD [OF fresh] f by blast
    then show ?thesis
      using s none Some f ff by (auto simp: open_sink_def sink_opened_def files_close_def)
  qed
qed

lemma files_open_close:
  assumes fresh: "fresh_handles E" and none: "no_streams gs" and opn: "files_open E gs w = (rv, gs', w')"
  shows "files_close gs' = source_opened E (opts gs) @
      (if source_failed E (opts gs) then [] else sink_opened E (opts gs))"
    and "opts gs' = opts gs" and "gs_pq gs' = gs_pq gs"
proof -
  obtain rv1 gs1 w1 where s: "open_source E gs w = (rv1, gs1, w1)" by (metis prod_cases3)
  note src = open_source_spec [OF fresh none s]
  have "files_close gs' = source_opened E (opts gs) @
      (if source_failed E (opts gs) then [] else sink_opened E (opts gs)) \<and> opts gs' = opts gs \<and>
      gs_pq gs' = gs_pq gs"
  proof (cases "rv1 = 0")
    case True
    then have "open_sink E gs1 w1 = (rv, gs', w')" using opn s by (simp add: files_open_def)
    then show ?thesis using open_sink_spec [OF fresh, of gs1 w1 rv gs' w'] src True by simp
  next
    case False
    then show ?thesis using opn s src by (simp add: files_open_def)
  qed
  then show "files_close gs' = source_opened E (opts gs) @
      (if source_failed E (opts gs) then [] else sink_opened E (opts gs))"
    and "opts gs' = opts gs" and "gs_pq gs' = gs_pq gs" by blast+
qed

section \<open>Headers\<close>

lemma fread_c_header:
  assumes "0 < n"
  shows "\<exists>rv buf f. fread_c fh n (fresh_bytes w n) w = Inr (rv, buf, w\<lparr>w_files := (w_files w)(fh := f)\<rparr>) \<and>
    (rv = 1 \<and> buf = take n (drop (fl_pos (w_files w fh)) (fl_data (w_files w fh))) \<and>
       n \<le> length (drop (fl_pos (w_files w fh)) (fl_data (w_files w fh))) \<and>
       f = (w_files w fh)\<lparr>fl_pos := fl_pos (w_files w fh) + n\<rparr> \<or>
     rv = 0 \<and> length (drop (fl_pos (w_files w fh)) (fl_data (w_files w fh))) < n)"
  using assms by (auto simp: fread_c_def fread_f_def Let_def min_def)

lemma write_header_file:
  assumes "out_fh gs = Some fh" and "fl_room (w_files w fh) = None"
  shows "\<exists>w'. write_header gs fo w = Inr (0, w') \<and> w_live w' = w_live w \<and>
    (\<forall>h. h \<noteq> fh \<longrightarrow> w_files w' h = w_files w h) \<and> fl_room (w_files w' fh) = None \<and>
    fl_data (w_files w' fh) = fl_data (w_files w fh) @ fd_header fo"
  using assms by (auto simp: write_header_def fwrite_c_def fwrite_f_whole Let_def)

text \<open>The memory for the comparison is given back on every path.\<close>

lemma read_header_file:
  assumes h: "in_fh gs = Some fh" and mem: "w_mem w = []"
  shows "\<exists>rv w'. read_header gs fi w = Inr (rv, w') \<and> w_live w' = w_live w \<and>
    (\<forall>h. h \<noteq> fh \<longrightarrow> w_files w' h = w_files w h) \<and>
    (if take (fd_header_len fi) (drop (fl_pos (w_files w fh)) (fl_data (w_files w fh))) = fd_header fi
     then rv = 0 \<and> w_files w' fh = (w_files w fh)\<lparr>fl_pos := fl_pos (w_files w fh) + fd_header_len fi\<rparr>
     else rv = - EINVAL)"
proof (cases "fd_header_len fi = 0")
  case True
  then show ?thesis using h by (auto simp: read_header_def Let_def)
next
  case False
  let ?n = "fd_header_len fi" and ?f = "w_files w fh"
  let ?w = "w\<lparr>w_allocs := w_allocs w + 1, w_live := w_live w + 1\<rparr>"
  obtain rv buf f' where r: "fread_c fh ?n (fresh_bytes ?w ?n) ?w =
      Inr (rv, buf, ?w\<lparr>w_files := (w_files ?w)(fh := f')\<rparr>)"
      "rv = 1 \<and> buf = take ?n (drop (fl_pos ?f) (fl_data ?f)) \<and> ?n \<le> length (drop (fl_pos ?f) (fl_data ?f)) \<and>
         f' = ?f\<lparr>fl_pos := fl_pos ?f + ?n\<rparr> \<or>
       rv = 0 \<and> length (drop (fl_pos ?f) (fl_data ?f)) < ?n"
    using fread_c_header [of ?n fh ?w] False by auto
  let ?w1 = "release (?w\<lparr>w_files := (w_files ?w)(fh := f')\<rparr>)"
  have e: "read_header gs fi w = Inr (if rv \<noteq> 1 \<or> buf \<noteq> fd_header fi then - EINVAL else 0, ?w1)"
    using h False mem r(1) by (simp add: read_header_def)
  have w1: "w_live ?w1 = w_live w" "w_files ?w1 = (w_files w)(fh := f')" by simp_all
  show ?thesis
  proof (cases "take ?n (drop (fl_pos ?f) (fl_data ?f)) = fd_header fi")
    case True
    then have "\<not> length (drop (fl_pos ?f) (fl_data ?f)) < ?n"
      by (metis length_take min_less_iff_disj not_less_iff_gr_or_eq)
    then have "rv = 1" "buf = fd_header fi" "f' = ?f\<lparr>fl_pos := fl_pos ?f + ?n\<rparr>" using r(2) True by auto
    then show ?thesis using e w1 True by auto
  next
    case False
    then have "rv \<noteq> 1 \<or> buf \<noteq> fd_header fi" using r(2) by auto
    then show ?thesis using e w1 False by auto
  qed
qed

lemma handle_headers_spec:
  assumes f: "fmt_in (opts gs) = Some fi" "fmt_out (opts gs) = Some fo" and h: "in_fh gs = Some fh" "out_fh gs = Some fh2"
    and ne: "fh \<noteq> fh2" and mem: "w_mem w = []" and room: "fl_room (w_files w fh2) = None"
  shows "\<exists>rv w'. handle_headers gs w = Inr (rv, w') \<and> w_live w' = w_live w \<and>
    (if take (fd_header_len fi) (drop (fl_pos (w_files w fh)) (fl_data (w_files w fh))) = fd_header fi
     then rv = 0 \<and> fl_pos (w_files w' fh) = fl_pos (w_files w fh) + fd_header_len fi \<and>
          fl_data (w_files w' fh) = fl_data (w_files w fh) \<and>
          fl_data (w_files w' fh2) = fl_data (w_files w fh2) @ fd_header fo
     else rv = - EINVAL \<and> w_files w' fh2 = w_files w fh2)"
proof -
  obtain rv w1 where r: "read_header gs fi w = Inr (rv, w1)" "w_live w1 = w_live w"
      "\<forall>h. h \<noteq> fh \<longrightarrow> w_files w1 h = w_files w h"
      "if take (fd_header_len fi) (drop (fl_pos (w_files w fh)) (fl_data (w_files w fh))) = fd_header fi
       then rv = 0 \<and> w_files w1 fh = (w_files w fh)\<lparr>fl_pos := fl_pos (w_files w fh) + fd_header_len fi\<rparr>
       else rv = - EINVAL"
    using read_header_file [OF h(1) mem, of fi] by blast
  have w1: "w_files w1 fh2 = w_files w fh2" using r(3) ne by simp
  obtain w2 where s: "write_header gs fo w1 = Inr (0, w2)" "w_live w2 = w_live w1"
      "\<forall>h. h \<noteq> fh2 \<longrightarrow> w_files w2 h = w_files w1 h" "fl_data (w_files w2 fh2) = fl_data (w_files w1 fh2) @ fd_header fo"
    using write_header_file [OF h(2), of w1 fo] room w1 by auto
  show ?thesis
    using r s w1 ne f by (auto simp: handle_headers_def)
qed

section \<open>The benchmark report\<close>

lemma bench_frames_nonzero:
  assumes "0 < n" and "n < CYCLES_NUM_AVG"
  shows "(of_nat n :: u32) \<noteq> 0"
proof -
  have "n < 2 ^ 32" using assms(2) by (simp add: CYCLES_NUM_AVG_def)
  then have "unat (of_nat n :: u32) = n" by (simp add: unsigned_of_nat take_bit_nat_eq_self_iff)
  with assms(1) show ?thesis by auto
qed

lemma dump_line_ok:
  assumes ok: "benches_ok w" and b: "w_bench w c = Some bc"
    and used: "0 < (if enc then bc_enc_used bc else bc_dec_used bc)"
  shows "\<exists>l. dump_line c enc w = Inr l"
proof -
  have lim: "bc_enc_used bc < CYCLES_NUM_AVG" "bc_dec_used bc < CYCLES_NUM_AVG"
    using ok b by (auto simp: benches_ok_def bench_ok_def)
  have "bench_get_frames c enc w \<noteq> 0"
    using b used lim bench_frames_nonzero by (auto simp: bench_get_frames_def)
  moreover have "\<exists>s. bench_get_cycles c enc w = Inr s"
    using b lim by (auto simp: bench_get_cycles_def cycles_loop)
  ultimately show ?thesis by (auto simp: dump_line_def Let_def)
qed

lemma dump_codec_ok: "benches_ok w \<Longrightarrow> \<exists>ls. dump_codec c w = Inr ls"
proof (cases "w_bench w c")
  case (Some bc)
  assume ok: "benches_ok w"
  have e: "\<exists>l. dump_line c True w = Inr l" if "bc_enc_used bc \<noteq> 0"
    using dump_line_ok [OF ok Some, of True] that by simp
  have d: "\<exists>l. dump_line c False w = Inr l" if "bc_dec_used bc \<noteq> 0"
    using dump_line_ok [OF ok Some, of False] that by simp
  show ?thesis
    using e d Some
    by (cases "bc_enc_used bc = 0"; cases "bc_dec_used bc = 0") (auto simp: dump_codec_def)
qed (simp add: dump_codec_def)

lemma benchmark_dump_ok: "benches_ok w \<Longrightarrow> \<exists>ls. benchmark_dump is w = Inr ls"
proof (induction "is")
  case (Cons i "is")
  then show ?case using dump_codec_ok [of w i] by auto
qed simp

end
