(* ===== verification/Transcode.thy ===== *)
theory Transcode
  imports Safety
begin

text \<open>
  The program as a whole on files whose formats belong to one codec
  (\<^verbatim>\<open>src/app_osmo_gapk.c\<close> with \<^verbatim>\<open>src/pq_file.c\<close> and \<^verbatim>\<open>src/pq_format.c\<close>): the output file gets
  exactly the converted frames of the input file, in order, and the incomplete frame at the
  end is dropped.
\<close>

section \<open>Frames of a file\<close>

function frames :: "nat \<Rightarrow> 'a list \<Rightarrow> 'a list list" where
  "frames m bs = (if m = 0 \<or> length bs < m then [] else take m bs # frames m (drop m bs))"
  by pat_completeness auto
termination by (relation "measure (\<lambda>(m, bs). length bs)") auto

declare frames.simps [simp del]

lemma frames_nil: "length bs < m \<Longrightarrow> frames m bs = []"
  by (simp add: frames.simps)

lemma frames_step: "0 < m \<Longrightarrow> m \<le> length bs \<Longrightarrow> frames m bs = take m bs # frames m (drop m bs)"
  by (subst frames.simps) auto

lemma length_frames: "0 < m \<Longrightarrow> length (frames m bs) = length bs div m"
proof (induction m bs rule: frames.induct)
  case (1 m bs)
  then show ?case
    by (cases "length bs < m") (simp_all add: frames_nil frames_step le_div_geq)
qed

lemma frames_concat:
  "0 < m \<Longrightarrow> \<forall>fr \<in> set frs. length fr = m \<Longrightarrow> frames m (concat frs) = frs"
  by (induction frs) (auto simp: frames_nil frames_step)

lemma frames_length: "fr \<in> set (frames m bs) \<Longrightarrow> length fr = m"
proof (induction m bs rule: frames.induct)
  case (1 m bs)
  then show ?case by (cases "m = 0 \<or> length bs < m") (auto simp: frames.simps [of m bs])
qed

section \<open>What one frame becomes\<close>

definition convert :: "endian \<Rightarrow> bit_tables \<Rightarrow> format_type \<Rightarrow> format_type \<Rightarrow> buf \<Rightarrow> buf" where
  "convert e T ti tt fr = (if ti = tt then fr else fmt_enc e T tt (fmt_dec e T ti fr))"

definition accepted :: "format_type \<Rightarrow> format_type \<Rightarrow> buf \<Rightarrow> bool" where
  "accepted ti tt fr \<longleftrightarrow> ti = tt \<or> fmt_frame_ok ti fr"

lemma length_convert:
  assumes T: "good_tables T" and t: "fixed_len ti" "fixed_len tt" "codec_of ti = codec_of tt"
    and fr: "length fr = frame_len_of ti"
  shows "length (convert e T ti tt fr) = frame_len_of tt"
  using fixed_conv.length_g [OF fmt_fixed_conv(2) [OF T t(1), of e]]
    fixed_conv.length_g [OF fmt_fixed_conv(1) [OF T t(2), of e]] t(3) fr
  by (simp add: convert_def fd_codec_type_of fd_frame_len_of)

text \<open>Converting there and back leaves the frame that the first format writes for it.\<close>

lemma convert_back:
  assumes T: "good_tables T" and t: "fixed_len ti" "fixed_len tt" "codec_of ti = codec_of tt" "ti \<noteq> tt"
    and lossless: "ti \<noteq> FMT_TI_EFR" "tt \<noteq> FMT_TI_EFR"
    and fr: "length fr = frame_len_of ti" "fmt_frame_ok ti fr"
    and zero: "tt = FMT_RTP_EFR \<Longrightarrow> fmt_dec e T ti fr \<noteq> replicate 31 0"
  shows "convert e T tt ti (convert e T ti tt fr) = fmt_enc e T ti (fmt_dec e T ti fr)"
    and "fmt_frame_ok tt (convert e T ti tt fr)"
proof -
  note A = fmt_lossless [OF T t(1) lossless(1), of e] and B = fmt_lossless [OF T t(2) lossless(2), of e]
  have "fmt_canon_ok e T ti (fmt_dec e T ti fr)"
    using lossless_format.canon_ok_dec [OF A] fr by (simp add: fd_frame_len_of)
  then have "fmt_canon_ok e T tt (fmt_dec e T ti fr)"
    using t(3) zero by (auto simp: fmt_canon_ok_def fd_codec_type_of)
  then show "convert e T tt ti (convert e T ti tt fr) = fmt_enc e T ti (fmt_dec e T ti fr)"
    and "fmt_frame_ok tt (convert e T ti tt fr)"
    using t(4) lossless_format.dec_enc [OF B] lossless_format.frame_ok_enc [OF B]
    by (auto simp: convert_def)
qed

section \<open>The queue of a conversion\<close>

text \<open>The prepared queue between two files.\<close>

definition xfer_queue ::
    "endian \<Rightarrow> bit_tables \<Rightarrow> nat \<Rightarrow> nat \<Rightarrow> format_type \<Rightarrow> format_type \<Rightarrow> ('c, 'x) qitem list \<Rightarrow> bool" where
  "xfer_queue e T fh fh2 ti tt items \<longleftrightarrow>
     (\<exists>d. length d = frame_len_of ti \<and>
        (if ti = tt
         then items = [(file_source fh (frame_len_of ti))\<lparr>it_buf := Some d\<rparr>, file_sink fh2 (frame_len_of tt)]
         else \<exists>d2 d3. length d2 = canon_len (codec_of ti) \<and> length d3 = frame_len_of tt \<and>
           items = [(file_source fh (frame_len_of ti))\<lparr>it_buf := Some d\<rparr>,
                    (conv_item (fmt_of e T ti) False)\<lparr>it_buf := Some d2\<rparr>,
                    (conv_item (fmt_of e T tt) True)\<lparr>it_buf := Some d3\<rparr>,
                    file_sink fh2 (frame_len_of tt)]))"

text \<open>The files after one frame.\<close>

definition after_frame ::
    "nat \<Rightarrow> nat \<Rightarrow> nat \<Rightarrow> buf \<Rightarrow> (nat \<Rightarrow> file_obj) \<Rightarrow> (nat \<Rightarrow> file_obj)" where
  "after_frame fh fh2 m out fs =
     (let fs = fs(fh := (fs fh)\<lparr>fl_pos := fl_pos (fs fh) + m\<rparr>)
      in fs(fh2 := (fs fh2)\<lparr>fl_data := fl_data (fs fh2) @ out, fl_pos := fl_pos (fs fh2) + length out\<rparr>))"

lemma sink_step:
  fixes fh2 :: nat
  assumes "0 < k" and "k \<le> length d" and "fl_room (w_files w fh2) = None"
  shows "exec_items (Some d) k [file_sink fh2 k :: ('c, 'x) qitem] w =
    Inr (0, [file_sink fh2 k], w\<lparr>w_files := (w_files w)(fh2 := (w_files w fh2)
      \<lparr>fl_data := fl_data (w_files w fh2) @ take k d, fl_pos := fl_pos (w_files w fh2) + k\<rparr>)\<rparr>)"
proof -
  let ?st = "it_state (file_sink fh2 k :: ('c, 'x) qitem)"
  have "pq_cb_file_output ?st None (Some d) k w =
    Inr (0, ?st, None, w\<lparr>w_files := (w_files w)(fh2 := (w_files w fh2)
      \<lparr>fl_data := fl_data (w_files w fh2) @ take k d, fl_pos := fl_pos (w_files w fh2) + k\<rparr>)\<rparr>)"
    using assms by (intro file_output_block) (auto simp: file_st_def file_sink_def)
  then show ?thesis by (simp add: file_sink_def zero_item_def)
qed

lemma conv_item_step:
  fixes items :: "('c, 'x) qitem list"
  assumes c: "fixed_conv (if b then fd_conv_from_canon f else fd_conv_to_canon f) g m k src_ok"
    and i: "length i = m" "src_ok i" and d: "length d = k" and out: "out = g i"
    and rest: "exec_items (Some out) k items w = Inr (rv, items', w')"
  shows "exec_items (Some i) m ((conv_item f b)\<lparr>it_buf := Some d\<rparr> # items) w =
    Inr (rv, (conv_item f b)\<lparr>it_buf := Some out\<rparr> # items', w')"
proof -
  let ?st = "Some (St_Conv (if b then fd_conv_from_canon f else fd_conv_to_canon f)) :: 'c item_state option"
  have "pq_cb_fmt_convert ?st (Some d) (Some i) m w = Inr (int k, ?st, Some out, w)"
    by (subst conv_step [OF c _ _]) (use d i out in simp_all)
  with rest show ?thesis by (cases b) (simp_all add: conv_item_def zero_item_def)
qed

lemma xfer_block:
  fixes items :: "('c, 'x) qitem list"
  assumes q: "xfer_queue e T fh fh2 ti tt items" and T: "good_tables T"
    and t: "fixed_len ti" "fixed_len tt" "codec_of ti = codec_of tt" and ne: "fh \<noteq> fh2"
    and room: "fl_room (w_files w fh2) = None"
    and more: "fl_pos (w_files w fh) + frame_len_of ti \<le> length (fl_data (w_files w fh))"
    and fr: "fr = take (frame_len_of ti) (drop (fl_pos (w_files w fh)) (fl_data (w_files w fh)))"
    and ok: "accepted ti tt fr"
  shows "\<exists>items' w'. exec_items None 0 items w = Inr (0, items', w') \<and> xfer_queue e T fh fh2 ti tt items' \<and>
    w_files w' = after_frame fh fh2 (frame_len_of ti) (convert e T ti tt fr) (w_files w)"
proof -
  let ?m = "frame_len_of ti" and ?k = "frame_len_of tt"
  let ?w = "w\<lparr>w_files := (w_files w)(fh := (w_files w fh)\<lparr>fl_pos := fl_pos (w_files w fh) + ?m\<rparr>)\<rparr>"
  let ?src = "file_source fh ?m :: ('c, 'x) qitem" and ?out = "convert e T ti tt fr"
  let ?snk = "file_sink fh2 ?k :: ('c, 'x) qitem"
  have m: "0 < ?m" "0 < ?k" using t fixed_len_codec by auto
  have lfr: "length fr = ?m" using more fr by simp
  have lout: "length ?out = ?k" by (rule length_convert [OF T t lfr])
  define w2 where "w2 = ?w\<lparr>w_files := (w_files ?w)(fh2 := (w_files ?w fh2)
      \<lparr>fl_data := fl_data (w_files ?w fh2) @ ?out, fl_pos := fl_pos (w_files ?w fh2) + ?k\<rparr>)\<rparr>"
  have w2: "w_files w2 = after_frame fh fh2 ?m ?out (w_files w)"
    using lout by (simp add: w2_def after_frame_def Let_def)
  have snk: "exec_items (Some ?out) ?k [file_sink fh2 ?k :: ('c, 'x) qitem] ?w = Inr (0, [file_sink fh2 ?k], w2)"
    using sink_step [of ?k ?out ?w fh2] m lout room ne by (simp add: w2_def)
  have src: "exec_items None 0 (?src\<lparr>it_buf := Some d\<rparr> # rest) w =
      Inr (rv, ?src\<lparr>it_buf := Some fr\<rparr> # rest', w')"
    if "length d = ?m" "exec_items (Some fr) ?m rest ?w = Inr (rv, rest', w')" for d rest rv rest' w'
  proof -
    have "pq_cb_file_input (it_state ?src) (Some d) None 0 w = Inr (int ?m, it_state ?src, Some fr, ?w)"
      using file_input_block [of fh ?m "it_state ?src" d w None 0] m(1) that(1) more fr
      by (simp add: file_st_def file_source_def)
    with that(2) show ?thesis by (simp add: file_source_def zero_item_def)
  qed
  show ?thesis
  proof (cases "ti = tt")
    case True
    then obtain d where d: "length d = ?m" "items = [?src\<lparr>it_buf := Some d\<rparr>, file_sink fh2 ?k]"
      using q by (auto simp: xfer_queue_def)
    have "?out = fr" using True by (simp add: convert_def)
    then have "exec_items None 0 items w = Inr (0, [?src\<lparr>it_buf := Some fr\<rparr>, file_sink fh2 ?k], w2)"
      using src [OF d(1)] snk True d(2) by simp
    then show ?thesis using w2 True lfr by (auto simp: xfer_queue_def)
  next
    case False
    then obtain d d2 d3 where d: "length d = ?m" "length d2 = canon_len (codec_of ti)" "length d3 = ?k"
        "items = [?src\<lparr>it_buf := Some d\<rparr>, (conv_item (fmt_of e T ti) False)\<lparr>it_buf := Some d2\<rparr>,
           (conv_item (fmt_of e T tt) True)\<lparr>it_buf := Some d3\<rparr>, file_sink fh2 ?k]"
      using q by (auto simp: xfer_queue_def)
    let ?c = "fmt_dec e T ti fr"
    have A: "fixed_conv (if False then fd_conv_from_canon (fmt_of e T ti) else fd_conv_to_canon (fmt_of e T ti))
        (fmt_dec e T ti) ?m (canon_len (codec_of ti)) (fmt_frame_ok ti)"
      using fmt_fixed_conv(2) [OF T t(1), of e] by (simp add: fd_codec_type_of fd_frame_len_of)
    have B: "fixed_conv (if True then fd_conv_from_canon (fmt_of e T tt) else fd_conv_to_canon (fmt_of e T tt))
        (fmt_enc e T tt) (canon_len (codec_of ti)) ?k (\<lambda>_. True)"
      using fmt_fixed_conv(1) [OF T t(2), of e] t(3) by (simp add: fd_codec_type_of fd_frame_len_of)
    have lc: "length ?c = canon_len (codec_of ti)" using fixed_conv.length_g [OF A] lfr by simp
    have out: "?out = fmt_enc e T tt ?c" using False by (simp add: convert_def)
    have enc: "exec_items (Some ?c) (canon_len (codec_of ti))
        [(conv_item (fmt_of e T tt) True)\<lparr>it_buf := Some d3\<rparr>, ?snk] ?w =
        Inr (0, [(conv_item (fmt_of e T tt) True)\<lparr>it_buf := Some ?out\<rparr>, ?snk], w2)"
      by (rule conv_item_step [OF B lc TrueI d(3) out snk])
    have dec: "exec_items (Some fr) ?m [(conv_item (fmt_of e T ti) False)\<lparr>it_buf := Some d2\<rparr>,
        (conv_item (fmt_of e T tt) True)\<lparr>it_buf := Some d3\<rparr>, ?snk] ?w =
        Inr (0, [(conv_item (fmt_of e T ti) False)\<lparr>it_buf := Some ?c\<rparr>,
                 (conv_item (fmt_of e T tt) True)\<lparr>it_buf := Some ?out\<rparr>, ?snk], w2)"
      by (rule conv_item_step [OF A lfr _ d(2) refl enc]) (use ok False in \<open>simp add: accepted_def\<close>)
    have "exec_items None 0 items w = Inr (0, [?src\<lparr>it_buf := Some fr\<rparr>,
        (conv_item (fmt_of e T ti) False)\<lparr>it_buf := Some ?c\<rparr>,
        (conv_item (fmt_of e T tt) True)\<lparr>it_buf := Some ?out\<rparr>, ?snk], w2)"
      unfolding d(4) by (rule src [OF d(1) dec])
    then show ?thesis using w2 False lfr lc lout by (auto simp: xfer_queue_def)
  qed
qed

lemma xfer_source:
  fixes items :: "('c, 'x) qitem list"
  assumes "xfer_queue e T fh fh2 ti tt items"
  obtains d rest where "items = (file_source fh (frame_len_of ti))\<lparr>it_buf := Some d\<rparr> # rest"
    "length d = frame_len_of ti" "\<And>d'. length d' = length d \<Longrightarrow>
       xfer_queue e T fh fh2 ti tt ((file_source fh (frame_len_of ti))\<lparr>it_buf := Some d'\<rparr> # rest)"
    "it_wait (last items) = None" "items \<noteq> []"
proof -
  have wait: "it_wait (file_sink fh2 (frame_len_of tt) :: ('c, 'x) qitem) = None"
    by (simp add: file_sink_def zero_item_def)
  show ?thesis
  proof (cases "ti = tt")
    case True
    with assms obtain d where "length d = frame_len_of ti"
        "items = [(file_source fh (frame_len_of ti))\<lparr>it_buf := Some d\<rparr>, file_sink fh2 (frame_len_of tt)]"
      by (auto simp: xfer_queue_def)
    with True wait show ?thesis by (intro that [of d "tl items"]) (auto simp: xfer_queue_def)
  next
    case False
    with assms obtain d d2 d3 where "length d = frame_len_of ti" "length d2 = canon_len (codec_of ti)"
        "length d3 = frame_len_of tt"
        "items = [(file_source fh (frame_len_of ti))\<lparr>it_buf := Some d\<rparr>,
          (conv_item (fmt_of e T ti) False)\<lparr>it_buf := Some d2\<rparr>,
          (conv_item (fmt_of e T tt) True)\<lparr>it_buf := Some d3\<rparr>, file_sink fh2 (frame_len_of tt)]"
      by (auto simp: xfer_queue_def)
    with False wait show ?thesis by (intro that [of d "tl items"]) (auto simp: xfer_queue_def)
  qed
qed

lemma xfer_end:
  fixes items :: "('c, 'x) qitem list"
  assumes q: "xfer_queue e T fh fh2 ti tt items" and ne: "fh \<noteq> fh2"
    and less: "length (fl_data (w_files w fh)) < fl_pos (w_files w fh) + frame_len_of ti"
  shows "\<exists>items' w'. exec_items None 0 items w = Inr (-1, items', w') \<and> xfer_queue e T fh fh2 ti tt items' \<and>
    w_files w' fh2 = w_files w fh2"
proof -
  let ?st = "it_state (file_source fh (frame_len_of ti) :: ('c, 'x) qitem)"
  obtain d rest where d: "items = (file_source fh (frame_len_of ti))\<lparr>it_buf := Some d\<rparr> # rest"
      "length d = frame_len_of ti" "\<And>d'. length d' = length d \<Longrightarrow>
       xfer_queue e T fh fh2 ti tt ((file_source fh (frame_len_of ti))\<lparr>it_buf := Some d'\<rparr> # rest)"
    using xfer_source [OF q] by metis
  obtain d' w' where d': "pq_cb_file_input ?st (Some d) None 0 w = Inr (-1, ?st, Some d', w')"
      "length d' = length d" "\<forall>h. h \<noteq> fh \<longrightarrow> w_files w' h = w_files w h"
    using file_input_end [of fh "frame_len_of ti" ?st d w None 0] d(2) less
    by (auto simp: file_st_def file_source_def)
  then have "exec_items None 0 items w =
      Inr (-1, (file_source fh (frame_len_of ti))\<lparr>it_buf := Some d'\<rparr> # rest, w')"
    using d(1) by (simp add: file_source_def zero_item_def)
  with d(3) d' ne show ?thesis by auto
qed

section \<open>The processing loop of a conversion\<close>

text \<open>The frames that are still to come from the input file.\<close>

definition pending :: "nat \<Rightarrow> file_obj \<Rightarrow> buf list" where
  "pending m f = frames m (drop (fl_pos f) (fl_data f))"

lemma pending_end: "0 < m \<Longrightarrow> length (fl_data f) < fl_pos f + m \<Longrightarrow> pending m f = []"
  by (auto simp: pending_def intro: frames_nil)

lemma pending_step:
  "0 < m \<Longrightarrow> fl_pos f + m \<le> length (fl_data f) \<Longrightarrow>
     pending m f = take m (drop (fl_pos f) (fl_data f)) # pending m (f\<lparr>fl_pos := fl_pos f + m\<rparr>)"
  by (simp add: pending_def frames_step add.commute)

lemma xfer_loop:
  fixes gs :: "('c, 'x) gapk_state"
  assumes T: "good_tables T" and t: "fixed_len ti" "fixed_len tt" "codec_of ti = codec_of tt" and ne: "fh \<noteq> fh2"
    and q: "gs_pq gs = Some pq" "xfer_queue e T fh fh2 ti tt (pq_items pq)" and ex: "gs_exit gs = 0"
    and room: "fl_room (w_files w fh2) = None"
    and ok: "\<forall>fr \<in> set (pending (frame_len_of ti) (w_files w fh)). accepted ti tt fr"
  shows "\<exists>gs' w' pq'. run_loop (\<lambda>_. False) rv gs w = Some (Inr (-1, gs', w')) \<and>
    num_frames gs' = num_frames gs + of_nat (length (pending (frame_len_of ti) (w_files w fh))) \<and>
    fl_data (w_files w' fh2) = fl_data (w_files w fh2) @
      concat (map (convert e T ti tt) (pending (frame_len_of ti) (w_files w fh))) \<and>
    gs_pq gs' = Some pq' \<and> xfer_queue e T fh fh2 ti tt (pq_items pq')"
  using q ex room ok
proof (induction "pending (frame_len_of ti) (w_files w fh)" arbitrary: gs pq w rv)
  case Nil
  let ?f = "w_files w fh" and ?m = "frame_len_of ti"
  have m: "0 < ?m" using t fixed_len_codec by auto
  have "length (fl_data ?f) < fl_pos ?f + ?m"
    using Nil.hyps pending_step [OF m, of ?f] by (metis list.distinct(1) not_le)
  then obtain items' w' where "exec_items None 0 (pq_items pq) w = Inr (-1, items', w')"
      "xfer_queue e T fh fh2 ti tt items'" "w_files w' fh2 = w_files w fh2"
    using xfer_end [OF Nil.prems(2) ne] by metis
  then show ?case
    using Nil by (subst run_loop.simps) (simp add: Let_def pq_execute_def)
next
  case (Cons fr frs)
  let ?f = "w_files w fh" and ?m = "frame_len_of ti" and ?conv = "convert e T ti tt"
  have m: "0 < ?m" using t fixed_len_codec by auto
  have more: "fl_pos ?f + ?m \<le> length (fl_data ?f)"
    using Cons.hyps(2) pending_end [OF m, of ?f] by (metis list.distinct(1) not_le)
  have fr: "fr = take ?m (drop (fl_pos ?f) (fl_data ?f))" "frs = pending ?m (?f\<lparr>fl_pos := fl_pos ?f + ?m\<rparr>)"
    using Cons.hyps(2) pending_step [OF m more] by simp_all
  have "accepted ti tt fr" using Cons.prems(5) unfolding Cons.hyps(2) [symmetric] by simp
  then obtain items' w1 where e: "exec_items None 0 (pq_items pq) w = Inr (0, items', w1)"
      "xfer_queue e T fh fh2 ti tt items'" "w_files w1 = after_frame fh fh2 ?m (?conv fr) (w_files w)"
    using xfer_block [OF Cons.prems(2) T t ne Cons.prems(4) more fr(1)] by metis
  have f1: "w_files w1 fh = ?f\<lparr>fl_pos := fl_pos ?f + ?m\<rparr>"
      "fl_data (w_files w1 fh2) = fl_data (w_files w fh2) @ ?conv fr" "fl_room (w_files w1 fh2) = None"
    using e(3) ne Cons.prems(4) by (simp_all add: after_frame_def Let_def)
  let ?gs1 = "gs\<lparr>gs_pq := Some (pq\<lparr>pq_items := items'\<rparr>), num_frames := num_frames gs + 1\<rparr>"
  have "run_loop (\<lambda>_. False) rv gs w = run_loop (\<lambda>_. False) 0 ?gs1 w1"
    using Cons.prems(1,3) e(1) by (subst run_loop.simps) (simp add: Let_def pq_execute_def)
  moreover obtain gs' w' pq' where "run_loop (\<lambda>_. False) 0 ?gs1 w1 = Some (Inr (-1, gs', w'))"
      "num_frames gs' = num_frames ?gs1 + of_nat (length frs)"
      "fl_data (w_files w' fh2) = fl_data (w_files w1 fh2) @ concat (map ?conv frs)"
      "gs_pq gs' = Some pq'" "xfer_queue e T fh fh2 ti tt (pq_items pq')"
    using Cons.hyps(1) [of w1 ?gs1 "pq\<lparr>pq_items := items'\<rparr>" 0] e(2) f1 fr(2) Cons.prems(3,5)
    unfolding Cons.hyps(2) [symmetric] by auto
  ultimately show ?case
    unfolding Cons.hyps(2) [symmetric] using f1(2) by auto
qed

section \<open>From the request to the output file\<close>

lemma plan_same_codec:
  "codec_of ti = codec_of tt \<Longrightarrow> plan ti tt = (if ti = tt then [] else [El_Conv ti False, El_Conv tt True])"
  by (simp add: plan_def plan_dec_def plan_enc_def need_dec_def need_enc_def Let_def)

lemma planned_xfer_queue:
  fixes E :: "('c, 'x) env"
  assumes rq: "file_request E gs fh ti tt" and c: "codec_of ti = codec_of tt" and out: "out_fh gs = Some fh2"
    and items: "list_all2 (realises E) (plan ti tt) items" "is_sink gs (frame_len_of tt) sink"
    and prep: "list_all2 prepared (source_item gs (frame_len_of ti) # items @ [sink]) its"
  shows "xfer_queue (e_endian E) (e_tables E) fh fh2 ti tt its"
proof -
  let ?f = "fmt_of (e_endian E) (e_tables E)" and ?m = "frame_len_of ti"
  have f: "fixed_len ti" "fixed_len tt" "in_fh gs = Some fh" using rq by (auto simp: file_request_def)
  note pos = fixed_len_codec [OF f(1)] fixed_len_codec [OF f(2)]
  have src: "source_item gs ?m = file_source fh ?m" using f by (simp add: source_item_def)
  have sink: "sink = file_sink fh2 (frame_len_of tt)" using items(2) out by (simp add: is_sink_def)
  have p_src: "\<exists>d. s = (file_source fh ?m)\<lparr>it_buf := Some d\<rparr> \<and> length d = ?m"
    if "prepared (file_source fh ?m) s" for s :: "('c, 'x) qitem"
    using that pos by (auto simp: prepared_def file_source_def buf_size_def)
  have p_sink: "s = file_sink fh2 k" if "prepared (file_sink fh2 k) s" for s :: "('c, 'x) qitem" and k
    using that by (auto simp: prepared_def file_sink_def zero_item_def)
  have p_conv: "\<exists>d. s = (conv_item (?f t) b)\<lparr>it_buf := Some d\<rparr> \<and>
      length d = (if b then frame_len_of t else canon_len (codec_of t))"
    if "prepared (conv_item (?f t) b) s" "fixed_len t" for s :: "('c, 'x) qitem" and t b
    using that fixed_len_codec [OF that(2)]
    by (auto simp: prepared_def conv_item_def buf_size_def fd_codec_type_of fd_frame_len_of split: if_splits)
  show ?thesis
  proof (cases "ti = tt")
    case True
    then have "items = []" using items(1) plan_same_codec [OF c] by simp
    then obtain s1 s2 where "its = [s1, s2]" "prepared (file_source fh ?m) s1" "prepared sink s2"
      using prep src by (auto simp: list_all2_Cons1)
    then show ?thesis
      using p_src [of s1] p_sink [of "frame_len_of tt" s2] sink True by (auto simp: xfer_queue_def)
  next
    case False
    then have "items = [conv_item (?f ti) False, conv_item (?f tt) True]"
      using items(1) plan_same_codec [OF c] by (auto simp: list_all2_Cons1 realises_def)
    then obtain s1 s2 s3 s4 where s: "its = [s1, s2, s3, s4]" "prepared (file_source fh ?m) s1"
        "prepared (conv_item (?f ti) False) s2" "prepared (conv_item (?f tt) True) s3" "prepared sink s4"
      using prep src by (auto simp: list_all2_Cons1)
    obtain d1 where "s1 = (file_source fh ?m)\<lparr>it_buf := Some d1\<rparr>" "length d1 = ?m" using p_src [OF s(2)] by blast
    moreover obtain d2 where "s2 = (conv_item (?f ti) False)\<lparr>it_buf := Some d2\<rparr>"
        "length d2 = canon_len (codec_of ti)" using p_conv [OF s(3) f(1)] by auto
    moreover obtain d3 where "s3 = (conv_item (?f tt) True)\<lparr>it_buf := Some d3\<rparr>" "length d3 = frame_len_of tt"
      using p_conv [OF s(4) f(2)] by auto
    moreover have "s4 = file_sink fh2 (frame_len_of tt)" using p_sink s(5) sink by simp
    ultimately show ?thesis using False s(1) unfolding xfer_queue_def by auto
  qed
qed

lemma transcode_run:
  fixes E :: "('c, 'x) env"
  assumes rq: "file_request E gs fh ti tt" and c: "codec_of ti = codec_of tt" and out: "out_fh gs = Some fh2"
    and pq: "gs_pq gs = Some (empty_pq name)" and mem: "w_mem w = []" and thr: "\<not> throttle (opts gs)"
    and ex: "gs_exit gs = 0" and room: "fl_room (w_files w fh2) = None"
    and frs: "frs = pending (frame_len_of ti) (w_files w fh)" and ok: "\<forall>fr \<in> set frs. accepted ti tt fr"
  shows "\<exists>gs1 w1 gs2 w2. make_processing_chain E gs w = Inr (0, gs1, w1) \<and>
    run (\<lambda>_. False) ts gs1 w1 = Some (Inr (if (of_nat (length frs) :: u32) = 0 then -1 else 0, gs2, w2)) \<and>
    num_frames gs2 = of_nat (length frs) \<and>
    fl_data (w_files w2 fh2) = fl_data (w_files w fh2) @
      concat (map (convert (e_endian E) (e_tables E) ti tt) frs)"
proof -
  let ?m = "frame_len_of ti"
  have r: "requested E gs ti tt" and f: "fixed_len ti" "fixed_len tt" "good_tables (e_tables E)" "fh \<noteq> fh2"
    using rq out by (auto simp: file_request_def)
  obtain pq1 items sink w1 its w2 where mk: "make_processing_chain E gs w = Inr (0, gs\<lparr>gs_pq := Some pq1\<rparr>, w1)"
      "pq_items pq1 = source_item gs ?m # items @ [sink]"
      "list_all2 (realises E) (plan ti tt) items" "is_sink gs (frame_len_of tt) sink"
      and p: "pq_prepare pq1 w1 = Inr (0, pq1\<lparr>pq_items := its\<rparr>, w2)"
      and pr: "list_all2 prepared (pq_items pq1) its" "w_files w2 = w_files w"
    using chain_prepares [OF r pq mem] by blast
  have q: "xfer_queue (e_endian E) (e_tables E) fh fh2 ti tt its"
    using planned_xfer_queue [OF rq c out mk(3,4)] pr(1) mk(2) by simp
  let ?gs = "gs\<lparr>gs_pq := Some (pq1\<lparr>pq_items := its\<rparr>), num_frames := 0\<rparr>"
  obtain gs2 w3 pq2 where l: "run_loop (\<lambda>_. False) 0 ?gs w2 = Some (Inr (-1, gs2, w3))"
      "num_frames gs2 = of_nat (length frs)"
      "fl_data (w_files w3 fh2) = fl_data (w_files w fh2) @
         concat (map (convert (e_endian E) (e_tables E) ti tt) frs)"
      "gs_pq gs2 = Some pq2" "xfer_queue (e_endian E) (e_tables E) fh fh2 ti tt (pq_items pq2)"
    using xfer_loop [OF f(3,1,2) c f(4), of ?gs "pq1\<lparr>pq_items := its\<rparr>" "e_endian E" w2 0] q ex room ok pr(2) frs
    by auto
  have "wait_for_sink gs2 w3 = Some (Inr w3)"
  proof (rule xfer_source [OF l(5)])
    assume "it_wait (last (pq_items pq2)) = None" and "pq_items pq2 \<noteq> []"
    with l(4) show ?thesis by (simp add: wait_for_sink_def Let_def)
  qed
  then have "run (\<lambda>_. False) ts (gs\<lparr>gs_pq := Some pq1\<rparr>) w1 =
      Some (Inr (if (of_nat (length frs) :: u32) = 0 then -1 else 0, gs2, w3))"
    using p l(1,2) thr by (simp add: run_def run_frames_def word_gt_0 Let_def)
  then show ?thesis using mk(1) l(2,3) by blast
qed

end
