(* ===== verification/Program.thy ===== *)
theory Program
  imports Construction Startup Transcode
begin

text \<open>
  The main function from the command line to the exit (\<^verbatim>\<open>src/app_osmo_gapk.c\<close>): what was
  allocated for the queue and the benchmarks is given back and what was opened is closed,
  whichever path the program takes, and a conversion between two files does what it should.
\<close>

section \<open>What the steps of the main function leave alone\<close>

lemma parse_option_frame:
  assumes "parse_option E co opt w = (r, w')"
  shows "(w_mem w = [] \<longrightarrow> w_mem w' = []) \<and> w_bench w' = w_bench w \<and> w_files w' = w_files w"
proof -
  obtain b w1 where a: "alloc w = (b, w1)" by force
  have m: "w_mem w = [] \<longrightarrow> w_mem w1 = []" using a by auto
  have p: "(w_mem w = [] \<longrightarrow> w_mem w2 = []) \<and> w_bench w2 = w_bench w \<and> w_files w2 = w_files w"
    if "parse_host_port s h w = (k, h2, w2)" for s h k h2 w2
    using that a m alloc_frame [OF a] by (auto simp: parse_host_port_def split: option.splits bool.splits)
  show ?thesis
    using assms by (auto simp: parse_option_def Let_def dest: p split: prod.splits if_splits option.splits)
qed

lemma parse_loop_frame:
  "parse_loop E cos opt w = (rv, opt', w') \<Longrightarrow>
     (w_mem w = [] \<longrightarrow> w_mem w' = []) \<and> w_bench w' = w_bench w \<and> w_files w' = w_files w"
  by (induction E cos opt w rule: parse_loop.induct)
     (auto split: prod.splits sum.splits dest!: parse_option_frame)

lemma parse_options_frame:
  assumes "parse_options E args gs w = (rv, gs', w')"
  shows "(w_mem w = [] \<longrightarrow> w_mem w' = []) \<and> w_bench w' = w_bench w \<and> w_files w' = w_files w \<and>
    gs' = gs\<lparr>opts := opts gs'\<rparr>"
proof -
  obtain rv1 opt w1 where l: "parse_loop E args (zero_options\<lparr>rtp_pt_in := 3, rtp_pt_out := 3\<rparr>) w = (rv1, opt, w1)"
    by (metis prod_cases3)
  then have "gs' = gs\<lparr>opts := opt\<rparr>" "w' = w1" using assms(1) by (simp_all add: parse_options_def)
  then show ?thesis using parse_loop_frame [OF l] by simp
qed

lemma open_frame:
  "open_source E gs w = (rv, gs', w') \<Longrightarrow> w_live w' = w_live w \<and> w_mem w' = w_mem w \<and> w_bench w' = w_bench w"
  "open_sink E gs w = (rv, gs', w') \<Longrightarrow> w_live w' = w_live w \<and> w_mem w' = w_mem w \<and> w_bench w' = w_bench w"
  by (auto simp: open_source_def open_sink_def Let_def split: option.splits if_splits)

lemma files_open_frame:
  "files_open E gs w = (rv, gs', w') \<Longrightarrow> w_live w' = w_live w \<and> w_mem w' = w_mem w \<and> w_bench w' = w_bench w"
  by (auto simp: files_open_def split: prod.splits if_splits dest!: open_frame)

lemma fread_c_frame:
  "fread_c fh n out w = Inr (rv, out', w') \<Longrightarrow> w_live w' = w_live w \<and> w_mem w' = w_mem w \<and> w_bench w' = w_bench w"
  by (auto simp: fread_c_def bind_r_Inr_iff)

lemma fwrite_c_frame:
  "fwrite_c fh n out w = Inr (rv, w') \<Longrightarrow> w_live w' = w_live w \<and> w_mem w' = w_mem w \<and> w_bench w' = w_bench w"
  by (auto simp: fwrite_c_def bind_r_Inr_iff)

lemma read_header_frame:
  assumes "w_mem w = []"
  shows "\<exists>rv w'. read_header gs fi w = Inr (rv, w') \<and> w_live w' = w_live w \<and> w_mem w' = [] \<and> w_bench w' = w_bench w"
proof (cases "in_fh gs = None \<or> fd_header_len fi = 0")
  case True
  then show ?thesis using assms by (auto simp: read_header_def Let_def split: option.splits)
next
  case False
  then obtain fh where fh: "in_fh gs = Some fh" by auto
  let ?n = "fd_header_len fi" and ?w = "w\<lparr>w_allocs := w_allocs w + 1, w_live := w_live w + 1\<rparr>"
  obtain rv buf f where "fread_f (w_files ?w fh) ?n (fresh_bytes ?w ?n) = Inr (rv, buf, f)"
    using fread_f_safe [of ?n "fresh_bytes ?w ?n" "w_files ?w fh"] by auto
  then show ?thesis using False fh assms by (simp add: read_header_def fread_c_def Let_def)
qed

lemma write_header_frame:
  "\<exists>rv w'. write_header gs fo w = Inr (rv, w') \<and> w_live w' = w_live w \<and> w_mem w' = w_mem w \<and> w_bench w' = w_bench w"
proof (cases "out_fh gs = None \<or> fd_header_len fo = 0")
  case True
  then show ?thesis by (auto simp: write_header_def Let_def split: option.splits)
next
  case False
  then obtain fh where fh: "out_fh gs = Some fh" by auto
  obtain rv f where "fwrite_f (w_files w fh) (fd_header_len fo) (fd_header fo) = Inr (rv, f)"
    using fwrite_f_safe [of "fd_header_len fo" "fd_header fo" "w_files w fh"] by auto
  then show ?thesis using False fh by (simp add: write_header_def fwrite_c_def Let_def)
qed

lemma handle_headers_frame:
  assumes "fmt_in (opts gs) = Some fi" and "fmt_out (opts gs) = Some fo" and "w_mem w = []"
  shows "\<exists>rv w'. handle_headers gs w = Inr (rv, w') \<and> w_live w' = w_live w \<and> w_mem w' = [] \<and> w_bench w' = w_bench w"
proof -
  obtain rv w1 where "read_header gs fi w = Inr (rv, w1)" "w_live w1 = w_live w" "w_mem w1 = []" "w_bench w1 = w_bench w"
    using read_header_frame [OF assms(3)] by blast
  then show ?thesis using assms write_header_frame [of gs fo w1] by (auto simp: handle_headers_def)
qed

text \<open>With failing allocations: if the headers are handled without a fault, the account is as before.\<close>

lemma read_header_kept:
  assumes "read_header gs fi w = Inr (rv, w')"
  shows "w_live w' = w_live w \<and> w_bench w' = w_bench w"
proof (cases "in_fh gs = None \<or> fd_header_len fi = 0")
  case True
  then show ?thesis using assms by (auto simp: read_header_def split: option.splits)
next
  case False
  then obtain fh where fh: "in_fh gs = Some fh" by auto
  obtain b w1 where a: "alloc w = (b, w1)" by force
  note al = alloc_live [OF a] alloc_frame [OF a]
  show ?thesis
  proof (cases b)
    case no: False
    then show ?thesis using assms False fh a al by (simp add: read_header_def)
  next
    case True
    then obtain rv1 buf w2 where rd: "fread_c fh (fd_header_len fi) (fresh_bytes w1 (fd_header_len fi)) w1 = Inr (rv1, buf, w2)"
        "w' = release w2"
      using assms False fh a by (auto simp: read_header_def bind_r_Inr_iff Let_def)
    then show ?thesis using fread_c_frame [OF rd(1)] al True by simp
  qed
qed

lemma headers_kept:
  assumes "handle_headers gs w = Inr (rv, w')"
  shows "w_live w' = w_live w \<and> w_bench w' = w_bench w"
proof -
  obtain fi fo where f: "fmt_in (opts gs) = Some fi" "fmt_out (opts gs) = Some fo"
    using assms by (auto simp: handle_headers_def bind_r_Inr_iff deref_Inr_iff)
  obtain rv1 w1 where rd: "read_header gs fi w = Inr (rv1, w1)"
    using assms f by (cases "read_header gs fi w") (auto simp: handle_headers_def)
  then show ?thesis
    using assms f read_header_kept [OF rd] write_header_frame [of gs fo w1]
    by (cases "rv1 = 0") (auto simp: handle_headers_def)
qed

section \<open>From the first queue to the shutdown\<close>

lemma held_empty: "w_bench w = (\<lambda>_. None) \<Longrightarrow> w_live w = n + 1 \<Longrightarrow> held (empty_pq name) w n"
  by (simp add: held_def empty_pq_def benches_ok_def owed_def enabled_def)

text \<open>Shutdown gives back all that is accounted for, and closes what is open.\<close>

lemma shutdown_held:
  assumes "gs_held gs w n"
  shows "\<exists>w'. app_shutdown gs w = Inr (files_close gs, w') \<and> w_live w' = n \<and> w_files w' = w_files w"
proof -
  obtain pq where pq: "gs_pq gs = Some pq" "held pq w n" using assms by (auto simp: gs_held_def)
  obtain w1 where w1: "pq_destroy (gs_pq gs) w = Inr w1" "owed w1 = n" "benches_ok w1" "w_files w1 = w_files w"
    using held_destroy [OF pq(2)] pq(1) by auto
  obtain ls where "benchmark_dump [0..<CODEC_MAX] w1 = Inr ls" using benchmark_dump_ok [OF w1(3)] by blast
  then show ?thesis using w1 bench_free_owed [of w1] by (simp add: app_shutdown_def Let_def)
qed

text \<open>
  A second interrupt, between two frames: the handler shuts the program down as the main
  function would, closes the same streams and gives everything back.
\<close>

lemma second_interrupt:
  assumes "gs_held gs w n" and "gs_exit gs \<noteq> 0"
  shows "\<exists>gs' w'. signal_handler SIGINT gs w = Inr (Some (files_close gs), gs', w') \<and> w_live w' = n \<and>
    w_files w' = w_files w"
proof -
  have "gs_held (gs\<lparr>gs_exit := gs_exit gs + 1\<rparr>) w n" using assms(1) by simp
  from shutdown_held [OF this] show ?thesis
    using assms(2) by (auto simp: signal_handler_def files_close_def Let_def)
qed

lemma same_request_close: "same_request gs gs' \<Longrightarrow> files_close gs' = files_close gs"
  by (simp add: same_request_def files_close_def)

section \<open>From the command line to the exit\<close>

lemma main_unfold:
  fixes E :: "('c, 'x) env"
  assumes "parse_options E args init_state w = (0, gs, w1)" and "check_options E gs = 0" and "alloc w1 = (True, wq)"
    and "files_open E (gs\<lparr>gs_pq := Some (empty_pq (Some ''main''))\<rparr>) wq = (rv, gs2, w2)"
  shows "app_main E intr ts args w =
    (let finish = (\<lambda>rv gs w. Some (bind_r (app_shutdown gs w) (\<lambda>(cl, w). Inr (rv, cl, w))))
     in if rv \<noteq> 0 then finish rv gs2 w2
        else
          (case handle_headers gs2 w2 of
             Inl f \<Rightarrow> Some (Inl f)
           | Inr (rv, w) \<Rightarrow>
               if rv \<noteq> 0 then finish rv gs2 w
               else
                 (case make_processing_chain E gs2 w of
                    Inl f \<Rightarrow> Some (Inl f)
                  | Inr (rv, gs, w) \<Rightarrow>
                      if rv \<noteq> 0 then finish rv gs w
                      else
                        (case run intr ts gs w of
                           None \<Rightarrow> None
                         | Some (Inl f) \<Rightarrow> Some (Inl f)
                         | Some (Inr (rv, gs, w)) \<Rightarrow> finish rv gs w))))"
  using assms by (simp add: app_main_def pq_create_def empty_pq_def Let_def)

text \<open>
  Everything that the main function does once it has its queue, on every path that returns:
  the streams it opened are closed, and what is still allocated is at most the state of an
  ALSA device that did not open.
\<close>

lemma raw_empty: "w_bench w = (\<lambda>_. None) \<Longrightarrow> w_live w = n + 1 \<Longrightarrow> raw n (empty_pq name, w)"
  using held_empty [of w n name] by (simp add: raw_def empty_pq_def)

lemma main_kept:
  fixes E :: "('c, 'x) env"
  assumes p: "parse_options E args init_state w = (0, gs, w1)" and c: "check_options E gs = 0"
    and a: "alloc w1 = (True, wq)" and bench: "w_bench w = (\<lambda>_. None)"
    and o: "files_open E (gs\<lparr>gs_pq := Some (empty_pq (Some ''main''))\<rparr>) wq = (rv1, gs2, w2)"
    and gs2: "gs_pq gs2 = Some (empty_pq (Some ''main''))"
    and main: "app_main E intr ts args w = Some (Inr (rv, cl, w'))"
  shows "\<exists>j \<le> alsa_devices (opts gs2). w_live w' = w_live w1 + int j \<and> cl = files_close gs2"
proof -
  note u = main_unfold [OF p c a o, of intr ts]
  have w2: "w_live w2 = w_live w1 + 1" "w_bench w2 = (\<lambda>_. None)"
    using files_open_frame [OF o] alloc_live [OF a] alloc_frame [OF a] parse_options_frame [OF p] bench by simp_all
  have fin: "\<exists>j \<le> alsa_devices (opts gs2). w_live w' = w_live w1 + int j \<and> cl = files_close gs2"
    if "Some (bind_r (app_shutdown gs3 w3) (\<lambda>(cl, w). Inr (rv3, cl, w))) = Some (Inr (rv, cl, w'))"
      "gs_held gs3 w3 (w_live w1 + int j)" "j \<le> alsa_devices (opts gs2)" "same_request gs2 gs3" for gs3 w3 rv3 j
    using that(1,3) shutdown_held [OF that(2)] same_request_close [OF that(4)] by auto
  have raw2: "raw (w_live w1) (empty_pq (Some ''main''), w)" if "w_live w = w_live w1 + 1" "w_bench w = (\<lambda>_. None)"
    for w :: "'x world"
    using raw_empty that by blast
  have fin0: "\<exists>j \<le> alsa_devices (opts gs2). w_live w' = w_live w1 + int j \<and> cl = files_close gs2"
    if "Some (bind_r (app_shutdown gs2 w3) (\<lambda>(cl, w). Inr (rv3, cl, w))) = Some (Inr (rv, cl, w'))"
      "w_live w3 = w_live w1 + 1" "w_bench w3 = (\<lambda>_. None)" for w3 rv3
  proof -
    have "gs_held gs2 w3 (w_live w1 + int 0)" using raw2 [OF that(2,3)] gs2 by (auto simp: raw_def)
    from fin [OF that(1) this] show ?thesis by simp
  qed
  show ?thesis
  proof (cases "rv1 = 0")
    case False
    then show ?thesis using main u fin0 [OF _ w2] by (simp add: Let_def)
  next
    case opened: True
    obtain rv3 w3 where h: "handle_headers gs2 w2 = Inr (rv3, w3)"
      using main u opened by (cases "handle_headers gs2 w2") (auto simp: Let_def)
    have w3: "w_live w3 = w_live w1 + 1" "w_bench w3 = (\<lambda>_. None)" using headers_kept [OF h] w2 by simp_all
    show ?thesis
    proof (cases "rv3 = 0")
      case False
      then show ?thesis using main u opened h fin0 [OF _ w3] by (simp add: Let_def)
    next
      case headers: True
      obtain rv4 gs4 w4 where m: "make_processing_chain E gs2 w3 = Inr (rv4, gs4, w4)"
        using main u opened h headers by (cases "make_processing_chain E gs2 w3") (auto simp: Let_def)
      obtain pq j where k: "same_request gs2 gs4" "gs_pq gs4 = Some pq" "j \<le> alsa_devices (opts gs2)"
          "raw (w_live w1 + int j) (pq, w4)"
        using chain_kept [OF m gs2 raw2 [OF w3] w3(2)] by (auto simp: gs_raw_def)
      show ?thesis
      proof (cases "rv4 = 0")
        case False
        have "gs_held gs4 w4 (w_live w1 + int j)" using k by (auto simp: raw_def)
        then show ?thesis using main u opened h headers m False fin k(1,3) by (simp add: Let_def)
      next
        case True
        obtain rv5 gs5 w5 where rn: "run intr ts gs4 w4 = Some (Inr (rv5, gs5, w5))"
          using main u opened h headers m True by (auto simp: Let_def split: option.splits sum.splits)
        have "held pq w4 (w_live w1 + int j)" "bufs (pq_items pq) = 0" using k(4) by (simp_all add: raw_def)
        from run_held [OF rn k(2) this] have "gs_held gs5 w5 (w_live w1 + int j)" "same_request gs2 gs5"
          using k(1) same_request_trans by blast+
        then show ?thesis using main u opened h headers m True rn fin k(3) by (simp add: Let_def)
      qed
    qed
  qed
qed

text \<open>All paths together, those included that end before there is a queue.\<close>

lemma shutdown_none:
  assumes "gs_pq gs = None" and "w_bench w = (\<lambda>_. None)"
  shows "\<exists>w'. app_shutdown gs w = Inr (files_close gs, w') \<and> w_live w' = w_live w"
proof -
  have "benches_ok w" using assms(2) by (simp add: benches_ok_def)
  then obtain ls where "benchmark_dump [0..<CODEC_MAX] w = Inr ls" using benchmark_dump_ok by blast
  then show ?thesis
    using assms bench_free_owed [of w] by (simp add: app_shutdown_def pq_destroy_def owed_def enabled_def Let_def)
qed

lemma main_balanced:
  fixes E :: "('c, 'x) env"
  assumes p: "parse_options E args init_state w = (rv0, gs, w1)" and bench: "w_bench w = (\<lambda>_. None)"
    and E: "fresh_handles E" and main: "app_main E intr ts args w = Some (Inr (rv, cl, w'))"
  shows "w_live w1 \<le> w_live w' \<and> w_live w' \<le> w_live w1 + int (alsa_devices (opts gs)) \<and>
    cl = (if rv0 = 0 \<and> check_options E gs = 0 \<and> fst (alloc w1)
          then source_opened E (opts gs) @ (if source_failed E (opts gs) then [] else sink_opened E (opts gs))
          else [])"
proof (cases "rv0 = 0 \<and> check_options E gs = 0")
  case False
  then show ?thesis using main p by (auto simp: app_main_def split: if_splits)
next
  case True
  then have p0: "parse_options E args init_state w = (0, gs, w1)" using p by simp
  note pf = parse_options_frame [OF p0]
  have fresh: "no_streams gs" "gs_pq gs = None" using pf by (metis init_state_def no_streams_def gapk_state.simps)+
  obtain b wq where a: "alloc w1 = (b, wq)" by force
  show ?thesis
  proof (cases b)
    case False
    then have wq: "w_bench wq = (\<lambda>_. None)" "w_live wq = w_live w1"
      using alloc_live [OF a] alloc_frame [OF a] pf bench by simp_all
    have "app_main E intr ts args w = Some (bind_r (app_shutdown gs wq) (\<lambda>(cl, w). Inr (- ENOMEM, cl, w)))"
      using True p0 a False by (simp add: app_main_def pq_create_def)
    then have "w_live w' = w_live w1 \<and> cl = files_close gs"
      using main shutdown_none [OF fresh(2) wq(1)] wq(2) by auto
    then show ?thesis using True a False fresh(1) by (simp add: files_close_def no_streams_def)
  next
    case memory: True
    let ?gs = "gs\<lparr>gs_pq := Some (empty_pq (Some ''main''))\<rparr>"
    obtain rv1 gs2 w2 where o: "files_open E ?gs wq = (rv1, gs2, w2)" by (metis prod_cases3)
    have "no_streams ?gs" using fresh(1) by (simp add: no_streams_def)
    note oc = files_open_close [OF E this o]
    obtain j where "j \<le> alsa_devices (opts gs2)" "w_live w' = w_live w1 + int j" "cl = files_close gs2"
      using main_kept [OF p0 _ _ bench o _ main] True oc(3) a memory by auto
    then show ?thesis using oc(1,2) True a memory by simp
  qed
qed

section \<open>Two files on the command line\<close>

definition file_args :: "string \<Rightarrow> string \<Rightarrow> format_type \<Rightarrow> format_type \<Rightarrow> (char \<times> string) list" where
  "file_args a b ti tt = [(CHR ''i'', a), (CHR ''o'', b), (CHR ''f'', fmt_name ti), (CHR ''g'', fmt_name tt)]"

definition file_opts ::
    "('c, 'x) env \<Rightarrow> string \<Rightarrow> string \<Rightarrow> format_type \<Rightarrow> format_type \<Rightarrow> gapk_options" where
  "file_opts E a b ti tt = zero_options
     \<lparr>rtp_pt_in := 3, rtp_pt_out := 3, fname_in := Some a, fname_out := Some b,
      fmt_in := Some (fmt_of (e_endian E) (e_tables E) ti), fmt_out := Some (fmt_of (e_endian E) (e_tables E) tt)\<rparr>"

text \<open>An environment in which the two files can be opened and the conversion is supported.\<close>

definition files_there ::
    "('c, 'x) env \<Rightarrow> string \<Rightarrow> string \<Rightarrow> format_type \<Rightarrow> format_type \<Rightarrow> nat \<Rightarrow> file_obj \<Rightarrow> nat \<Rightarrow> file_obj \<Rightarrow> bool" where
  "files_there E a b ti tt fh f fh2 f2 \<longleftrightarrow>
     e_fopen E a False = Some (fh, f) \<and> e_fopen E b True = Some (fh2, f2) \<and> fh \<noteq> fh2 \<and> fresh_handles E \<and>
     fixed_len ti \<and> fixed_len tt \<and> servable E ti tt \<and> good_tables (e_tables E) \<and>
     libs_ok (e_libs E) \<and> libs_created (e_libs E)"

definition files_state ::
    "('c, 'x) env \<Rightarrow> string \<Rightarrow> string \<Rightarrow> format_type \<Rightarrow> format_type \<Rightarrow> nat \<Rightarrow> nat \<Rightarrow> ('c, 'x) gapk_state" where
  "files_state E a b ti tt fh fh2 = init_state
     \<lparr>opts := file_opts E a b ti tt, gs_pq := Some (empty_pq (Some ''main'')), in_fh := Some fh, out_fh := Some fh2\<rparr>"

lemma file_opts_simps [simp]:
  "fname_in (file_opts E a b ti tt) = Some a" "fname_out (file_opts E a b ti tt) = Some b"
  "fmt_in (file_opts E a b ti tt) = Some (fmt_of (e_endian E) (e_tables E) ti)"
  "fmt_out (file_opts E a b ti tt) = Some (fmt_of (e_endian E) (e_tables E) tt)"
  "alsa_in (file_opts E a b ti tt) = None" "alsa_out (file_opts E a b ti tt) = None"
  "rtp_in_port (file_opts E a b ti tt) = 0" "rtp_out_port (file_opts E a b ti tt) = 0"
  "\<not> throttle (file_opts E a b ti tt)"
  by (simp_all add: file_opts_def zero_options_def)

lemma files_state_simps [simp]:
  "opts (files_state E a b ti tt fh fh2) = file_opts E a b ti tt"
  "gs_pq (files_state E a b ti tt fh fh2) = Some (empty_pq (Some ''main''))"
  "in_fh (files_state E a b ti tt fh fh2) = Some fh" "out_fh (files_state E a b ti tt fh fh2) = Some fh2"
  "gs_exit (files_state E a b ti tt fh fh2) = 0"
  by (simp_all add: files_state_def init_state_def)

lemma parse_file_args:
  assumes "ti \<noteq> FMT_INVALID" and "tt \<noteq> FMT_INVALID"
  shows "parse_options E (file_args a b ti tt) gs w = (0, gs\<lparr>opts := file_opts E a b ti tt\<rparr>, w)"
proof -
  have n: "fmt_get_from_name e T (fmt_name t) = Some (fmt_of e T t)" if "t \<noteq> FMT_INVALID" for e T t
    using that fmt_get_from_name_iff by blast
  show ?thesis
    using n [OF assms(1)] n [OF assms(2)]
    by (simp add: parse_options_def file_args_def parse_option_def file_opts_def zero_options_def)
qed

lemma files_request:
  "files_there E a b ti tt fh f fh2 f2 \<Longrightarrow> file_request E (files_state E a b ti tt fh fh2) fh ti tt"
  by (simp add: files_there_def file_request_def requested_def streams_open_def)

lemma files_state_facts:
  "gs_pq (files_state E a b ti tt fh fh2) = Some (empty_pq (Some ''main''))"
  "fmt_in (opts (files_state E a b ti tt fh fh2)) = Some (fmt_of (e_endian E) (e_tables E) ti)"
  "fmt_out (opts (files_state E a b ti tt fh fh2)) = Some (fmt_of (e_endian E) (e_tables E) tt)"
  "out_fh (files_state E a b ti tt fh fh2) = Some fh2"
  "\<not> throttle (opts (files_state E a b ti tt fh fh2))"
  "gs_exit (files_state E a b ti tt fh fh2) = 0"
  by simp_all

text \<open>The world when both files have been opened.\<close>

definition files_world :: "'x world \<Rightarrow> nat \<Rightarrow> file_obj \<Rightarrow> nat \<Rightarrow> file_obj \<Rightarrow> 'x world" where
  "files_world w fh f fh2 f2 =
     w\<lparr>w_allocs := w_allocs w + 1, w_live := w_live w + 1, w_files := (w_files w)(fh := f, fh2 := f2)\<rparr>"

lemma files_world_simps [simp]:
  "w_mem (files_world w fh f fh2 f2) = w_mem w" "w_bench (files_world w fh f fh2 f2) = w_bench w"
  "w_live (files_world w fh f fh2 f2) = w_live w + 1"
  "w_files (files_world w fh f fh2 f2) = (w_files w)(fh := f, fh2 := f2)"
  by (simp_all add: files_world_def)

lemma files_opened:
  fixes E :: "('c, 'x) env"
  assumes "files_there E a b ti tt fh f fh2 f2"
  shows "files_open E (init_state\<lparr>opts := file_opts E a b ti tt, gs_pq := Some (empty_pq (Some ''main''))\<rparr>)
      (w\<lparr>w_allocs := w_allocs w + 1, w_live := w_live w + 1\<rparr>) =
    (0, files_state E a b ti tt fh fh2, files_world w fh f fh2 f2)"
  using assms
  by (simp add: files_there_def files_open_def open_source_def open_sink_def files_state_def files_world_def init_state_def)

lemma files_check:
  fixes E :: "('c, 'x) env"
  assumes "files_there E a b ti tt fh f fh2 f2"
  shows "check_options E (init_state\<lparr>opts := file_opts E a b ti tt\<rparr> :: ('c, 'x) gapk_state) = 0"
  using assms check_options_spec [of E "init_state\<lparr>opts := file_opts E a b ti tt\<rparr> :: ('c, 'x) gapk_state" ti tt]
  by (simp add: files_there_def servable_def sources_def sinks_def)

text \<open>After the headers: either the shutdown, or the run and then the shutdown.\<close>

lemma main_files_unfold:
  fixes E :: "('c, 'x) env"
  assumes there: "files_there E a b ti tt fh f fh2 f2" and mem: "w_mem w = []"
    and h: "handle_headers (files_state E a b ti tt fh fh2) (files_world w fh f fh2 f2) = Inr (rv, w1)"
  shows "app_main E intr ts (file_args a b ti tt) w =
    (let finish = (\<lambda>rv gs w. Some (bind_r (app_shutdown gs w) (\<lambda>(cl, w). Inr (rv, cl, w))))
     in if rv \<noteq> 0 then finish rv (files_state E a b ti tt fh fh2) w1
        else
          (case make_processing_chain E (files_state E a b ti tt fh fh2) w1 of
             Inl f \<Rightarrow> Some (Inl f)
           | Inr (rv, gs, w) \<Rightarrow>
               if rv \<noteq> 0 then finish rv gs w
               else
                 (case run intr ts gs w of
                    None \<Rightarrow> None
                  | Some (Inl f) \<Rightarrow> Some (Inl f)
                  | Some (Inr (rv, gs, w)) \<Rightarrow> finish rv gs w)))"
proof -
  have v: "ti \<noteq> FMT_INVALID" "tt \<noteq> FMT_INVALID" using there by (auto simp: files_there_def servable_def)
  have o: "files_open E (init_state\<lparr>opts := file_opts E a b ti tt\<rparr>\<lparr>gs_pq := Some (empty_pq (Some ''main''))\<rparr>)
      (w\<lparr>w_allocs := w_allocs w + 1, w_live := w_live w + 1\<rparr>) =
    (0, files_state E a b ti tt fh fh2, files_world w fh f fh2 f2)"
    using files_opened [OF there, of w] by simp
  show ?thesis
    using main_unfold [OF parse_file_args [OF v] files_check [OF there] alloc_ok [OF mem] o, of intr ts] h
    by (simp add: Let_def)
qed

lemma files_closed:
  "files_there E a b ti tt fh f fh2 f2 \<Longrightarrow>
     files_close (files_state E a b ti tt fh fh2) = [Closed_File fh, Closed_File fh2]"
  using fresh_handleD [of E]
  by (fastforce simp: files_there_def files_close_def files_state_def init_state_def)

lemma files_headers:
  assumes "w_mem w = []" and "w_bench w = (\<lambda>_. None)"
  shows "\<exists>rv w'. handle_headers (files_state E a b ti tt fh fh2) (files_world w fh f fh2 f2) = Inr (rv, w') \<and>
    w_live w' = w_live w + 1 \<and> w_mem w' = [] \<and> w_bench w' = (\<lambda>_. None)"
  using handle_headers_frame [OF files_state_facts(2,3) [of E a b ti tt fh fh2], of "files_world w fh f fh2 f2"] assms
  by simp

text \<open>A run that ends is followed by a shutdown that gives everything back.\<close>

lemma finish_run:
  fixes E :: "('c, 'x) env"
  assumes there: "files_there E a b ti tt fh f fh2 f2" and mem: "w_mem w1 = []" "w_bench w1 = (\<lambda>_. None)"
    and live: "w_live w1 = n + 1"
    and mk: "make_processing_chain E (files_state E a b ti tt fh fh2) w1 = Inr (0, gs2, w2)"
    and r: "run intr ts gs2 w2 = Some (Inr (rv, gs3, w3))"
  shows "\<exists>w'. app_shutdown gs3 w3 = Inr ([Closed_File fh, Closed_File fh2], w') \<and> w_live w' = n \<and>
    w_files w' = w_files w3"
proof -
  let ?gs = "files_state E a b ti tt fh fh2"
  have "raw n (empty_pq (Some ''main''), w1)" using raw_empty mem(2) live by blast
  from chain_kept [OF mk files_state_facts(1) this mem(2)]
  obtain pq where c: "gs_pq gs2 = Some pq" "held pq w2 n" "bufs (pq_items pq) = 0" "same_request ?gs gs2"
    by (auto simp: gs_raw_def raw_def alsa_devices_def)
  have h: "gs_held gs3 w3 n \<and> same_request gs2 gs3" using run_held [OF r c(1-3)] .
  have "files_close gs3 = files_close gs2" by (rule same_request_close) (use h in simp)
  also have "files_close gs2 = files_close ?gs" by (rule same_request_close [OF c(4)])
  also have "files_close ?gs = [Closed_File fh, Closed_File fh2]" by (rule files_closed [OF there])
  finally show ?thesis using shutdown_held [of gs3 w3 n] h by auto
qed

lemma main_files_return:
  fixes E :: "('c, 'x) env"
  assumes there: "files_there E a b ti tt fh f fh2 f2" and mem: "w_mem w = []" and bench: "w_bench w = (\<lambda>_. None)"
  shows "\<exists>rv w'. app_main E intr ts (file_args a b ti tt) w =
      Some (Inr (rv, [Closed_File fh, Closed_File fh2], w')) \<and> w_live w' = w_live w"
proof -
  let ?gs = "files_state E a b ti tt fh fh2" and ?w = "files_world w fh f fh2 f2"
  obtain rv1 w1 where h: "handle_headers ?gs ?w = Inr (rv1, w1)" "w_live w1 = w_live w + 1" "w_mem w1 = []"
      "w_bench w1 = (\<lambda>_. None)"
    using files_headers [OF mem bench] by blast
  note u = main_files_unfold [OF there mem h(1), of intr ts]
  show ?thesis
  proof (cases "rv1 = 0")
    case False
    have "gs_held ?gs w1 (w_live w)" using held_empty [OF h(4,2)] by (auto simp: gs_held_def)
    then show ?thesis using shutdown_held u False files_closed [OF there] by (fastforce simp: Let_def)
  next
    case True
    obtain gs1 w2 rv2 gs2 w3 where r: "make_processing_chain E ?gs w1 = Inr (0, gs1, w2)"
        "run intr ts gs1 w2 = Some (Inr (rv2, gs2, w3))"
      using run_ends [OF files_request [OF there] files_state_facts(1) h(3), of intr ts] by auto
    show ?thesis using finish_run [OF there h(3,4,2) r] u True r by (auto simp: Let_def)
  qed
qed

lemma main_files_convert:
  fixes E :: "('c, 'x) env"
  assumes there: "files_there E a b ti tt fh f fh2 f2" and mem: "w_mem w = []" and bench: "w_bench w = (\<lambda>_. None)"
    and c: "codec_of ti = codec_of tt" and room: "fl_room f2 = None"
    and hdr: "drop (fl_pos f) (fl_data f) = fd_header (fmt_of (e_endian E) (e_tables E) ti) @ body"
    and frs: "frs = frames (frame_len_of ti) body" and ok: "\<forall>fr \<in> set frs. accepted ti tt fr"
  shows "\<exists>w'. app_main E (\<lambda>_. False) ts (file_args a b ti tt) w =
      Some (Inr (if (of_nat (length frs) :: u32) = 0 then -1 else 0, [Closed_File fh, Closed_File fh2], w')) \<and>
    fl_data (w_files w' fh2) = fl_data f2 @ fd_header (fmt_of (e_endian E) (e_tables E) tt) @
      concat (map (convert (e_endian E) (e_tables E) ti tt) frs) \<and> w_live w' = w_live w"
proof -
  let ?gs = "files_state E a b ti tt fh fh2" and ?w = "files_world w fh f fh2 f2"
  let ?fi = "fmt_of (e_endian E) (e_tables E) ti" and ?fo = "fmt_of (e_endian E) (e_tables E) tt"
  have ne: "fh \<noteq> fh2" using there by (simp add: files_there_def)
  obtain rv0 w0 where rd: "read_header ?gs ?fi ?w = Inr (rv0, w0)"
      "\<forall>h. h \<noteq> fh \<longrightarrow> w_files w0 h = w_files ?w h"
      "rv0 = 0" "w_files w0 fh = f\<lparr>fl_pos := fl_pos f + fd_header_len ?fi\<rparr>"
    using read_header_file [of ?gs fh ?w ?fi] mem ne hdr by auto
  obtain w1 where wr: "write_header ?gs ?fo w0 = Inr (0, w1)" "\<forall>h. h \<noteq> fh2 \<longrightarrow> w_files w1 h = w_files w0 h"
      "fl_room (w_files w1 fh2) = None" "fl_data (w_files w1 fh2) = fl_data f2 @ fd_header ?fo"
    using write_header_file [of ?gs fh2 w0 ?fo] rd(2) room ne by auto
  have h: "handle_headers ?gs ?w = Inr (0, w1)" using rd wr by (simp add: handle_headers_def)
  then have w1: "w_live w1 = w_live w + 1" "w_mem w1 = []" "w_bench w1 = (\<lambda>_. None)"
    using files_headers [OF mem bench, of E a b ti tt fh fh2 f f2] by simp_all
  have f1: "w_files w1 fh = f\<lparr>fl_pos := fl_pos f + fd_header_len ?fi\<rparr>" using wr(2) rd(4) ne by simp
  have p: "frs = pending (frame_len_of ti) (w_files w1 fh)"
    using frs hdr f1 by (simp add: pending_def drop_drop [symmetric] add.commute [of "fl_pos f"] del: drop_drop)
  obtain gs1 w2 gs2 w3 where r: "make_processing_chain E ?gs w1 = Inr (0, gs1, w2)"
      "run (\<lambda>_. False) ts gs1 w2 = Some (Inr (if (of_nat (length frs) :: u32) = 0 then -1 else 0, gs2, w3))"
      "fl_data (w_files w3 fh2) = fl_data (w_files w1 fh2) @
         concat (map (convert (e_endian E) (e_tables E) ti tt) frs)"
    using transcode_run [OF files_request [OF there] c files_state_facts(4,1) w1(2) files_state_facts(5,6) wr(3) p ok,
      of ts] wr(4) by blast
  show ?thesis
    using finish_run [OF there w1(2,3,1) r(1,2)] main_files_unfold [OF there mem h, of "\<lambda>_. False" ts] r wr(4)
    by (auto simp: Let_def)
qed

end
