(* ===== verification/Typing.thy ===== *)
theory Typing
  imports Safety
begin

text \<open>
  A type system for the queue of a conversion (\<^verbatim>\<open>src/procqueue.c\<close>, \<^verbatim>\<open>src/app_osmo_gapk.c\<close>): the
  private state of every item and its output object have the type of the item's place in
  the queue. Executions keep the types and do not fault, in whatever order they and changes
  of the world from outside happen.
\<close>

section \<open>Places of the queue and their types\<close>

datatype slot = Src nat nat | El elem | Snk nat

text \<open>The bytes a slot takes and gives.\<close>

fun slot_pre :: "slot \<Rightarrow> buf option \<Rightarrow> nat \<Rightarrow> bool" where
  "slot_pre (Src fh m) = (\<lambda>_ _. True)"
| "slot_pre (El el) = frame (el_in el)"
| "slot_pre (Snk m) = frame m"

fun slot_post :: "slot \<Rightarrow> buf option \<Rightarrow> nat \<Rightarrow> bool" where
  "slot_post (Src fh m) = frame m"
| "slot_post (El el) = frame (el_out el)"
| "slot_post (Snk m) = (\<lambda>_ n. n = 0)"

text \<open>The types of the output object and of the private state.\<close>

fun slot_buf :: "slot \<Rightarrow> buf option \<Rightarrow> bool" where
  "slot_buf (Src fh m) b \<longleftrightarrow> holds m b"
| "slot_buf (El el) b \<longleftrightarrow> holds (el_out el) b"
| "slot_buf (Snk m) b \<longleftrightarrow> True"

fun slot_state :: "('c, 'x) env \<Rightarrow> ('c, 'x) gapk_state \<Rightarrow> slot \<Rightarrow> 'c item_state option \<Rightarrow> bool" where
  "slot_state E gs (Src fh m) st \<longleftrightarrow> file_st fh m st"
| "slot_state E gs (El el) st \<longleftrightarrow> el_state E el st"
| "slot_state E gs (Snk m) st \<longleftrightarrow>
     (case out_fh gs of Some fh \<Rightarrow> file_st fh m st | None \<Rightarrow> rtp_st (nat (out_fd gs)) m st)"

text \<open>The item that the program puts at the place.\<close>

fun slot_item :: "('c, 'x) env \<Rightarrow> ('c, 'x) gapk_state \<Rightarrow> slot \<Rightarrow> ('c, 'x) qitem \<Rightarrow> bool" where
  "slot_item E gs (Src fh m) item \<longleftrightarrow> item = file_source fh m"
| "slot_item E gs (El el) item \<longleftrightarrow> realises E el item"
| "slot_item E gs (Snk m) item \<longleftrightarrow> is_sink gs m item"

text \<open>
  A typed item: of the item the program queued only the private state and the output object
  have changed, and both have the type of the slot.
\<close>

definition typed :: "('c, 'x) env \<Rightarrow> ('c, 'x) gapk_state \<Rightarrow> slot \<Rightarrow> ('c, 'x) qitem \<Rightarrow> bool" where
  "typed E gs s item \<longleftrightarrow> (\<exists>item0. slot_item E gs s item0 \<and>
     item = item0\<lparr>it_state := it_state item, it_buf := it_buf item\<rparr>) \<and>
     slot_state E gs s (it_state item) \<and> slot_buf s (it_buf item)"

text \<open>The slots of a conversion, and the queues typed by them.\<close>

definition slots :: "nat \<Rightarrow> format_type \<Rightarrow> format_type \<Rightarrow> slot list" where
  "slots fh ti tt = Src fh (frame_len_of ti) # map El (plan ti tt) @ [Snk (frame_len_of tt)]"

definition queue_typed ::
    "('c, 'x) env \<Rightarrow> ('c, 'x) gapk_state \<Rightarrow> nat \<Rightarrow> format_type \<Rightarrow> format_type \<Rightarrow> ('c, 'x) queue \<Rightarrow> bool" where
  "queue_typed E gs fh ti tt pq \<longleftrightarrow> list_all2 (typed E gs) (slots fh ti tt) (pq_items pq)"

section \<open>A typed item steps to a typed item\<close>

fun fixed_slot :: "slot \<Rightarrow> bool" where
  "fixed_slot (El el) \<longleftrightarrow> fixed_elem el"
| "fixed_slot _ \<longleftrightarrow> True"

lemma slot_stage:
  fixes E :: "('c, 'x) env" and item :: "('c, 'x) qitem"
  assumes T: "good_tables (e_tables E)" and L: "libs_ok (e_libs E)"
    and s: "slot_item E gs s item" "fixed_slot s"
  shows "\<exists>p. it_proc item = Some p \<and> it_live item \<and> slot_state E gs s (it_state item) \<and>
    stage p (slot_state E gs s) (\<lambda>_. True) (slot_buf s) (slot_pre s) (slot_post s)"
proof (cases s)
  case (Src fh m)
  have e: "slot_state E gs s = file_st fh m" "slot_buf s = holds m" by (simp_all add: Src fun_eq_iff)
  show ?thesis
    using s Src file_input.stage_axioms [of fh m] unfolding e
    by (auto simp: file_source_def zero_item_def file_st_def)
next
  case (El el)
  have e: "slot_state E gs s = el_state E el" "slot_buf s = holds (el_out el)" by (simp_all add: El fun_eq_iff)
  have q: "\<forall>W \<in> {\<lambda>_ :: 'x world. True}. quiet W" by simp
  have r: "realises E el item" "fixed_elem el" using s El by simp_all
  show ?thesis
    using elem_stage [OF T L q r(2,1)] realises_live [OF r(1)] El unfolding e by simp
next
  case (Snk m)
  have b: "slot_buf s = (\<lambda>_. True)" by (simp add: Snk fun_eq_iff)
  have f: "frame m b n \<Longrightarrow> holds n b" for b n by (simp add: frame_def)
  show ?thesis
  proof (cases "out_fh gs")
    case None
    have e: "slot_state E gs s = rtp_st (nat (out_fd gs)) m" by (simp add: Snk None fun_eq_iff)
    have "stage pq_cb_rtp_output (rtp_st (nat (out_fd gs)) m :: 'c item_state option \<Rightarrow> bool)
        (\<lambda>_ :: 'x world. True) (\<lambda>_. True) (frame m) (\<lambda>_ n. n = 0)"
      by (rule rtp_output.weaken [OF f])
    then show ?thesis
      using s Snk None unfolding b e by (auto simp: is_sink_def rtp_sink_def zero_item_def rtp_st_def)
  next
    case (Some fh)
    have e: "slot_state E gs s = file_st fh m" by (simp add: Snk Some fun_eq_iff)
    have "stage pq_cb_file_output (file_st fh m :: 'c item_state option \<Rightarrow> bool)
        (\<lambda>_ :: 'x world. True) (\<lambda>_. True) (frame m) (\<lambda>_ n. n = 0)"
      by (rule file_output.weaken [OF f])
    then show ?thesis
      using s Snk Some unfolding b e by (auto simp: is_sink_def file_sink_def zero_item_def file_st_def)
  qed
qed

lemma typed_step:
  fixes E :: "('c, 'x) env" and item :: "('c, 'x) qitem"
  assumes T: "good_tables (e_tables E)" and L: "libs_ok (e_libs E)"
    and s: "typed E gs s item" "fixed_slot s" and pre: "slot_pre s b n"
  shows "\<exists>p rv st out w'. it_live item \<and> it_proc item = Some p \<and>
    p (it_state item) (it_buf item) b n w = Inr (rv, st, out, w') \<and>
    typed E gs s (item\<lparr>it_state := st, it_buf := out\<rparr>) \<and> (0 \<le> rv \<longrightarrow> slot_post s out (nat rv))"
proof -
  obtain i where i: "slot_item E gs s i" "item = i\<lparr>it_state := it_state item, it_buf := it_buf item\<rparr>"
      "slot_state E gs s (it_state item)" "slot_buf s (it_buf item)"
    using s(1) by (auto simp: typed_def)
  obtain p where p: "it_proc i = Some p" "it_live i"
      "stage p (slot_state E gs s) (\<lambda>_. True) (slot_buf s) (slot_pre s) (slot_post s)"
    using slot_stage [OF T L i(1) s(2)] by blast
  obtain rv st out w' where o: "p (it_state item) (it_buf item) b n w = Inr (rv, st, out, w')"
      "slot_state E gs s st" "slot_buf s out" "0 \<le> rv \<longrightarrow> slot_post s out (nat rv)"
    using stage.step [OF p(3) i(3) _ i(4) pre, of w] by auto
  have ip: "it_proc item = Some p" "it_live item"
    using arg_cong [OF i(2), of it_proc] arg_cong [OF i(2), of it_live] p(1,2) by simp_all
  have "item\<lparr>it_state := st, it_buf := out\<rparr> = i\<lparr>it_state := st, it_buf := out\<rparr>"
    using arg_cong [OF i(2), of "\<lambda>i. i\<lparr>it_state := st, it_buf := out\<rparr>"] by simp
  then have "typed E gs s (item\<lparr>it_state := st, it_buf := out\<rparr>)"
    unfolding typed_def using i(1) o(2,3) by auto
  then show ?thesis using o ip by blast
qed

section \<open>Executions keep the types\<close>

text \<open>Neighbours agree on the bytes between them.\<close>

fun slots_agree :: "slot list \<Rightarrow> bool" where
  "slots_agree (s # t # ss) \<longleftrightarrow> slot_post s = slot_pre t \<and> slots_agree (t # ss)"
| "slots_agree _ \<longleftrightarrow> True"

lemma exec_typed:
  fixes E :: "('c, 'x) env" and items :: "('c, 'x) qitem list"
  assumes T: "good_tables (e_tables E)" and L: "libs_ok (e_libs E)"
    and "list_all2 (typed E gs) ss items" and "list_all fixed_slot ss" and "slots_agree ss"
    and "ss \<noteq> [] \<Longrightarrow> slot_pre (hd ss) b n"
  shows "\<exists>rv items' w'. exec_items b n items w = Inr (rv, items', w') \<and> rv \<le> 0 \<and>
    list_all2 (typed E gs) ss items'"
  using assms(3-6)
proof (induction ss items arbitrary: b n w rule: list_all2_induct)
  case (Cons s ss item items)
  obtain p rv st out w' where p: "it_live item" "it_proc item = Some p"
      "p (it_state item) (it_buf item) b n w = Inr (rv, st, out, w')"
      "typed E gs s (item\<lparr>it_state := st, it_buf := out\<rparr>)" "0 \<le> rv \<longrightarrow> slot_post s out (nat rv)"
    using typed_step [OF T L Cons.hyps(1)] Cons.prems by fastforce
  show ?case
  proof (cases "rv < 0")
    case True
    then show ?thesis using p Cons.hyps by auto
  next
    case False
    then have "ss \<noteq> [] \<Longrightarrow> slot_pre (hd ss) out (nat rv)"
      using Cons.prems(2) p(5) by (cases ss) auto
    moreover have "slots_agree ss" using Cons.prems(2) by (cases ss) auto
    ultimately obtain rv' items' w'' where "exec_items out (nat rv) items w' = Inr (rv', items', w'')" "rv' \<le> 0"
        "list_all2 (typed E gs) ss items'"
      using Cons.IH [of out "nat rv" w'] Cons.prems(1) by auto
    then show ?thesis using False p by auto
  qed
qed simp

lemma slots_agree_plan:
  "lens_fit m els k \<Longrightarrow> slot_post s = frame m \<Longrightarrow> slots_agree (s # map El els @ [Snk k])"
  by (induction els arbitrary: m s) auto

lemma slots_fine:
  assumes "file_request E gs fh ti tt"
  shows "slots_agree (slots fh ti tt)" and "list_all fixed_slot (slots fh ti tt)"
proof -
  have f: "fixed_len ti" "fixed_len tt" "ti \<noteq> FMT_INVALID" "tt \<noteq> FMT_INVALID"
    using assms by (auto simp: file_request_def requested_def servable_def)
  show "slots_agree (slots fh ti tt)"
    using slots_agree_plan [OF plan_fits [OF f(3,4)]] by (simp add: slots_def)
  show "list_all fixed_slot (slots fh ti tt)"
    using plan_fixed [OF f(1,2)] by (simp add: slots_def list_all_iff)
qed

lemma queue_typed_execute:
  fixes E :: "('c, 'x) env" and pq :: "('c, 'x) queue"
  assumes rq: "file_request E gs fh ti tt" and t: "queue_typed E gs fh ti tt pq"
  shows "\<exists>rv pq' w'. pq_execute pq w = Inr (rv, pq', w') \<and> rv \<le> 0 \<and> queue_typed E gs fh ti tt pq'"
proof -
  have T: "good_tables (e_tables E)" and L: "libs_ok (e_libs E)" using rq by (simp_all add: file_request_def)
  obtain rv items' w' where "exec_items None 0 (pq_items pq) w = Inr (rv, items', w')" "rv \<le> 0"
      "list_all2 (typed E gs) (slots fh ti tt) items'"
    using exec_typed [OF T L t [unfolded queue_typed_def] slots_fine(2,1) [OF rq], of None 0 w]
    by (auto simp: slots_def)
  then show ?thesis by (auto simp: pq_execute_def queue_typed_def)
qed

section \<open>The queue in a world that others change\<close>

text \<open>
  What happens to a queue once it is prepared: it is executed, with or without an error, or
  the world changes behind its back (another process cuts the input short, a device fills
  up, memory is used by others).
\<close>

inductive queue_step :: "('c, 'x) queue \<times> 'x world \<Rightarrow> ('c, 'x) queue \<times> 'x world \<Rightarrow> bool" where
  Execute: "pq_execute pq w = Inr (rv, pq', w') \<Longrightarrow> queue_step (pq, w) (pq', w')"
| Outside: "queue_step (pq, w) (pq, w')"

inductive queue_steps :: "('c, 'x) queue \<times> 'x world \<Rightarrow> ('c, 'x) queue \<times> 'x world \<Rightarrow> bool" where
  steps_refl: "queue_steps s s"
| steps_step: "queue_steps s s' \<Longrightarrow> queue_step s' s'' \<Longrightarrow> queue_steps s s''"

inductive_cases queue_stepE: "queue_step (pq, w) s"

lemma queue_step_typed:
  fixes E :: "('c, 'x) env"
  assumes rq: "file_request E gs fh ti tt" and "queue_step s s'" and "queue_typed E gs fh ti tt (fst s)"
  shows "queue_typed E gs fh ti tt (fst s')"
  using assms(2,3)
proof cases
  case (Execute pq w rv pq' w')
  then show ?thesis using queue_typed_execute [OF rq, of pq w] assms(3) by auto
qed simp

lemma queue_steps_typed:
  fixes E :: "('c, 'x) env"
  assumes rq: "file_request E gs fh ti tt" and "queue_steps s s'" and "queue_typed E gs fh ti tt (fst s)"
  shows "queue_typed E gs fh ti tt (fst s')"
  using assms(2,3) by (induction rule: queue_steps.induct) (use queue_step_typed [OF rq] in blast)+

section \<open>The queue the program builds is typed\<close>

lemma typed_prepared:
  assumes "slot_item E gs s i" and "slot_state E gs s (it_state i)" and "prepared i j"
    and "slot_buf s (it_buf j)"
  shows "typed E gs s j"
proof -
  obtain b where "j = i\<lparr>it_buf := b\<rparr>" using assms(3) by (auto simp: prepared_def)
  then show ?thesis using assms unfolding typed_def by auto
qed

lemma prepared_typed:
  fixes E :: "('c, 'x) env" and i :: "('c, 'x) qitem"
  assumes T: "good_tables (e_tables E)" and L: "libs_ok (e_libs E)"
    and s: "slot_item E gs s i" "fixed_slot s" "prepared i j"
  shows "typed E gs s j"
proof (rule typed_prepared [OF s(1) _ s(3)])
  show "slot_state E gs s (it_state i)" using slot_stage [OF T L s(1,2)] by blast
  show "slot_buf s (it_buf j)"
  proof (cases s)
    case (Src fh m)
    then have "m \<le> buf_size i" "it_type i \<noteq> TYPE_SINK"
      using s(1) by (simp_all add: file_source_def zero_item_def buf_size_def)
    then show ?thesis using s(3) Src by (auto simp: prepared_def)
  next
    case (El el)
    then have r: "realises E el i" "fixed_elem el" using s by simp_all
    have "el_out el = buf_size i" using el_out_pos [OF r(2,1)] realises_lens [OF r(1)] by (simp add: buf_size_def)
    then show ?thesis using s(3) El realises_type [OF r(1)] by (auto simp: prepared_def)
  qed simp
qed

lemma list_all2_prepared_typed:
  fixes E :: "('c, 'x) env"
  assumes T: "good_tables (e_tables E)" and L: "libs_ok (e_libs E)"
    and "list_all2 (slot_item E gs) ss items" and "list_all fixed_slot ss" and "list_all2 prepared items its"
  shows "list_all2 (typed E gs) ss its"
  using assms(3-5)
proof (induction ss items arbitrary: its rule: list_all2_induct)
  case (Cons s ss i items)
  then show ?case using prepared_typed [OF T L Cons.hyps(1)] by (auto simp: list_all2_Cons1)
qed simp

lemma chain_slots:
  assumes "in_fh gs = Some fh" and "list_all2 (realises E) (plan ti tt) items" and "is_sink gs (frame_len_of tt) sink"
  shows "list_all2 (slot_item E gs) (slots fh ti tt) (source_item gs (frame_len_of ti) # items @ [sink])"
proof -
  have "list_all2 (slot_item E gs) (map El (plan ti tt)) items"
    using assms(2) by (simp add: list_all2_conv_all_nth)
  then show ?thesis using assms(1,3) by (auto simp: slots_def source_item_def intro: list_all2_appendI)
qed

lemma chain_typed:
  fixes E :: "('c, 'x) env"
  assumes rq: "file_request E gs fh ti tt" and pq: "gs_pq gs = Some (empty_pq name)" and mem: "w_mem w = []"
  shows "\<exists>pq w1 pq2 w2. make_processing_chain E gs w = Inr (0, gs\<lparr>gs_pq := Some pq\<rparr>, w1) \<and>
    pq_prepare pq w1 = Inr (0, pq2, w2) \<and> queue_typed E gs fh ti tt pq2"
proof -
  have r: "requested E gs ti tt" and f: "good_tables (e_tables E)" "libs_ok (e_libs E)" "in_fh gs = Some fh"
    using rq by (simp_all add: file_request_def)
  obtain pq items sink w1 its w2 where c: "make_processing_chain E gs w = Inr (0, gs\<lparr>gs_pq := Some pq\<rparr>, w1)"
      "pq_items pq = source_item gs (frame_len_of ti) # items @ [sink]"
      "list_all2 (realises E) (plan ti tt) items" "is_sink gs (frame_len_of tt) sink"
      and p: "pq_prepare pq w1 = Inr (0, pq\<lparr>pq_items := its\<rparr>, w2)" "list_all2 prepared (pq_items pq) its"
    using chain_prepares [OF r pq mem] by blast
  have "list_all2 (typed E gs) (slots fh ti tt) its"
    using list_all2_prepared_typed [OF f(1,2) chain_slots [OF f(3) c(3,4)] slots_fine(2) [OF rq]] p(2) c(2) by simp
  then show ?thesis using c(1) p(1) by (auto simp: queue_typed_def)
qed

end
