(* ===== verification/Gsmhr.thy ===== *)
theory Gsmhr
  imports World
begin

text \<open>
  The half-rate library wrapper (\<^verbatim>\<open>libgsmhr/libgsmhr.c\<close>). The 3GPP reference code keeps its
  state in static variables; the wrapper saves and restores that block of memory around
  every call, so that several instances can be used side by side.

  The reference code is fetched at build time and is the parameter \<open>R\<close>; \<open>'b\<close> is the contents
  of its static memory. Samples and parameter words are lists of \<^verbatim>\<open>int16_t\<close> as \<open>u16\<close>.
\<close>

record 'b ref_code =
  rc_resetDec :: "'b \<Rightarrow> 'b"
  rc_resetEnc :: "'b \<Rightarrow> 'b"
  rc_encoderHomingFrameTest :: "u16 list \<Rightarrow> bool"
  rc_decoderHomingFrameTest :: "u16 list \<Rightarrow> nat \<Rightarrow> bool"
  rc_speechEncoder :: "u16 list \<Rightarrow> 'b \<Rightarrow> u16 list \<times> 'b"
  rc_speechDecoder :: "u16 list \<Rightarrow> 'b \<Rightarrow> u16 list \<times> 'b"
  rc_EHF_MASK :: u16

record 'b gsmhr =
  dec_reset_flg :: bool
  bss_save :: 'b

definition F_LEN :: nat where [simp, code_unfold]: "F_LEN = 160"
definition WHOLE_FRAME :: nat where [simp, code_unfold]: "WHOLE_FRAME = 18"
definition TO_FIRST_SUBFRAME :: nat where [simp, code_unfold]: "TO_FIRST_SUBFRAME = 9"

text \<open>
  \<open>bss\<close> is the static memory, the argument and last result of every function; \<open>lib\<close> says
  whether \<^verbatim>\<open>dlopen\<close> finds the library. An instance takes two blocks: its own and the copy of
  the static memory.
\<close>

definition gsmhr_init :: "'b ref_code \<Rightarrow> bool \<Rightarrow> 'b \<Rightarrow> 'x world \<Rightarrow> 'b gsmhr option \<times> 'b \<times> 'x world" where
  "gsmhr_init R lib bss w =
     (if \<not> lib then (None, bss, w)
      else
        (case alloc w of
           (False, w) \<Rightarrow> (None, bss, w)
         | (True, w) \<Rightarrow>
             (case alloc w of
                (False, w) \<Rightarrow> (None, bss, release w)
              | (True, w) \<Rightarrow>
                  (let bss = rc_resetDec R bss; bss = rc_resetEnc R bss
                   in (Some \<lparr>dec_reset_flg = True, bss_save = bss\<rparr>, bss, w)))))"

definition gsmhr_exit :: "'b gsmhr option \<Rightarrow> 'x world \<Rightarrow> 'x world res" where
  "gsmhr_exit state w = bind_r (deref state) (\<lambda>_. Inr (release (release w)))"

definition gsmhr_encode ::
    "'b ref_code \<Rightarrow> 'b gsmhr \<Rightarrow> u16 list \<Rightarrow> 'b \<Rightarrow> (int \<times> u16 list \<times> 'b gsmhr \<times> 'b) res" where
  "gsmhr_encode R state pcm bss =
     (let bss = bss_save state
      in if length pcm < F_LEN then Inl Out_Of_Bounds
         else
           (let pcm_b = take F_LEN pcm;
                enc_reset_flg = rc_encoderHomingFrameTest R pcm_b;
                (hr_params, bss) = rc_speechEncoder R pcm_b bss;
                bss = (if enc_reset_flg then rc_resetEnc R bss else bss)
            in Inr (0, hr_params, state\<lparr>bss_save := bss\<rparr>, bss)))"

definition gsmhr_decode ::
    "'b ref_code \<Rightarrow> 'b gsmhr \<Rightarrow> u16 list \<Rightarrow> 'b \<Rightarrow> (int \<times> u16 list \<times> 'b gsmhr \<times> 'b) res" where
  "gsmhr_decode R state hr_params bss =
     (let bss = bss_save state
      in if length hr_params < 22 then Inl Out_Of_Bounds
         else
           (let hr_params_b = take 22 hr_params;
                flg = (if dec_reset_flg state then rc_decoderHomingFrameTest R hr_params_b TO_FIRST_SUBFRAME
                       else False);
                (pcm, bss) =
                  (if flg \<and> dec_reset_flg state then (replicate F_LEN (rc_EHF_MASK R), bss)
                   else rc_speechDecoder R hr_params_b bss);
                flg = (if \<not> dec_reset_flg state then rc_decoderHomingFrameTest R hr_params_b WHOLE_FRAME
                       else flg);
                bss = (if flg then rc_resetDec R bss else bss)
            in Inr (0, pcm, state\<lparr>dec_reset_flg := flg, bss_save := bss\<rparr>, bss)))"

section \<open>Instances do not see each other\<close>

text \<open>One call of the interface, and its result together with the new state of the instance.\<close>

datatype gsmhr_call = Encode "u16 list" | Decode "u16 list"

definition gsmhr_do ::
    "'b ref_code \<Rightarrow> gsmhr_call \<Rightarrow> 'b gsmhr \<Rightarrow> 'b \<Rightarrow> (int \<times> u16 list \<times> 'b gsmhr \<times> 'b) res" where
  "gsmhr_do R c s bss = (case c of Encode x \<Rightarrow> gsmhr_encode R s x bss | Decode x \<Rightarrow> gsmhr_decode R s x bss)"

text \<open>A call overwrites the static memory before it reads it.\<close>

lemma gsmhr_do_bss: "gsmhr_do R c s bss = gsmhr_do R c s bss2"
  by (cases c) (simp_all add: gsmhr_do_def gsmhr_encode_def gsmhr_decode_def)

text \<open>Calls on many instances over one static memory; results in the order of the calls.\<close>

fun run_calls ::
    "'b ref_code \<Rightarrow> (nat \<times> gsmhr_call) list \<Rightarrow> (nat \<Rightarrow> 'b gsmhr) \<Rightarrow> 'b \<Rightarrow>
     (nat \<times> int \<times> u16 list) list \<times> (nat \<Rightarrow> 'b gsmhr)" where
  "run_calls R [] m bss = ([], m)"
| "run_calls R ((i, c) # cs) m bss =
     (case gsmhr_do R c (m i) bss of
        Inl _ \<Rightarrow> run_calls R cs m bss
      | Inr (rc, out, s, bss) \<Rightarrow>
          (let (rs, m) = run_calls R cs (m(i := s)) bss in ((i, rc, out) # rs, m)))"

lemma run_calls_only:
  "filter (\<lambda>r. fst r = i) (fst (run_calls R cs m bss)) =
     fst (run_calls R (filter (\<lambda>c. fst c = i) cs) m2 bss2)
   \<and> snd (run_calls R cs m bss) i = snd (run_calls R (filter (\<lambda>c. fst c = i) cs) m2 bss2) i"
  if "m i = m2 i"
  using that
proof (induction cs arbitrary: m m2 bss bss2)
  case (Cons a cs)
  obtain j c where a: "a = (j, c)" by force
  show ?case
  proof (cases "gsmhr_do R c (m j) bss")
    case (Inl f)
    then have "gsmhr_do R c (m2 i) bss2 = Inl f" if "j = i"
      using that Inl Cons.prems gsmhr_do_bss [of R c "m i" bss bss2] by simp
    then show ?thesis using Cons.IH [of m m2 bss bss2] Cons.prems Inl by (cases "j = i") (auto simp: a)
  next
    case (Inr r)
    obtain rc out s b where r: "r = (rc, out, s, b)" by (metis prod_cases4)
    have e: "run_calls R (a # cs) m bss =
        ((j, rc, out) # fst (run_calls R cs (m(j := s)) b), snd (run_calls R cs (m(j := s)) b))"
      using Inr by (simp add: a r split: prod.splits)
    show ?thesis
    proof (cases "j = i")
      case True
      then have "gsmhr_do R c (m2 i) bss2 = Inr (rc, out, s, b)"
        using Inr r Cons.prems gsmhr_do_bss [of R c "m i" bss bss2] by simp
      moreover have "filter (\<lambda>r. fst r = i) (fst (run_calls R cs (m(j := s)) b)) =
          fst (run_calls R (filter (\<lambda>c. fst c = i) cs) (m2(i := s)) b) \<and>
          snd (run_calls R cs (m(j := s)) b) i =
          snd (run_calls R (filter (\<lambda>c. fst c = i) cs) (m2(i := s)) b) i"
        by (rule Cons.IH) (simp add: True)
      ultimately show ?thesis
        using True unfolding e by (simp add: a case_prod_beta)
    next
      case False
      have "filter (\<lambda>r. fst r = i) (fst (run_calls R cs (m(j := s)) b)) =
          fst (run_calls R (filter (\<lambda>c. fst c = i) cs) m2 bss2) \<and>
          snd (run_calls R cs (m(j := s)) b) i =
          snd (run_calls R (filter (\<lambda>c. fst c = i) cs) m2 bss2) i"
        by (rule Cons.IH) (use False Cons.prems in simp)
      then show ?thesis using False unfolding e by (simp add: a)
    qed
  qed
qed simp

section \<open>An instance gives back what it took\<close>

lemma gsmhr_init_cases:
  assumes "gsmhr_init R lib bss w = (h, bss', w')"
  shows "h = None \<and> bss' = bss \<and> w_live w' = w_live w \<or>
    lib \<and> bss' = rc_resetEnc R (rc_resetDec R bss) \<and> h = Some \<lparr>dec_reset_flg = True, bss_save = bss'\<rparr> \<and>
    w_live w' = w_live w + 2"
  using assms
  by (auto simp: gsmhr_init_def Let_def dest!: alloc_live split: if_splits prod.splits bool.splits)

lemma gsmhr_init_exit:
  assumes "gsmhr_init R lib bss w = (Some s, bss', w')" and "w_live v = w_live w'"
  shows "\<exists>v'. gsmhr_exit (Some s') v = Inr v' \<and> w_live v' = w_live w"
  using gsmhr_init_cases [OF assms(1)] assms(2) by (simp add: gsmhr_exit_def)

end
