(* ===== verification/Help.thy ===== *)
theory Help
  imports App
begin

text \<open>
  The usage text (\<^verbatim>\<open>src/app_osmo_gapk.c\<close>, \<^verbatim>\<open>print_help\<close>): what the program writes to its standard
  output when it is called with \<^verbatim>\<open>-h\<close>, with the tables of codecs and formats that it is built
  with. The text offers exactly the formats that \<^verbatim>\<open>-f\<close> and \<^verbatim>\<open>-g\<close> take.
\<close>

section \<open>Conversions of \<^verbatim>\<open>printf\<close>\<close>

definition pad_left :: "nat \<Rightarrow> string \<Rightarrow> string" where  \<comment> \<open>\<^verbatim>\<open>%4s\<close>\<close>
  "pad_left n s = replicate (n - length s) (CHR '' '') @ s"

definition pad_right :: "nat \<Rightarrow> string \<Rightarrow> string" where  \<comment> \<open>\<^verbatim>\<open>%-19s\<close>\<close>
  "pad_right n s = s @ replicate (n - length s) (CHR '' '')"

definition nl :: string where "nl = [CHR 0x0A]"
definition tab :: string where "tab = [CHR 0x09]"

section \<open>The text\<close>

definition help_options :: "bool \<Rightarrow> string" where
  "help_options alsa =
     ''Options:'' @ nl @
     ''  -i, --input-file=FILE'' @ tab @ tab @ ''Input file'' @ nl @
     ''  -I, --input-rtp=HOST/PORT'' @ tab @ ''Input RTP stream'' @ nl @
     ''  -o, --output-file=FILE'' @ tab @ ''Output file'' @ nl @
     ''  -O, --output-rtp=HOST/PORT'' @ tab @ ''Output RTP stream'' @ nl @
     (if alsa then
        ''  -a, --input-alsa=dev'' @ tab @ tab @ ''Input ALSA stream'' @ nl @
        ''  -A, --output-alsa=dev'' @ tab @ tab @ ''Output ALSA stream'' @ nl
      else []) @
     ''  -f, --input-format=FMT'' @ tab @ ''Input format (see below)'' @ nl @
     ''  -g, --output-format=FMT'' @ tab @ ''Output format (see below)'' @ nl @
     ''  -p  --rtp-pt-in=TYPE'' @ tab @ tab @ ''RTP payload type for incoming frames'' @ nl @
     ''  -P  --rtp-pt-out=TYPE'' @ tab @ tab @ ''RTP payload type for outgoing frames'' @ nl @
     ''  -b, --enable-benchmark'' @ tab @ ''Enable codec benchmarking'' @ nl @
     ''  -t, --throttle'' @ tab @ ''Enable throttling (one codec frame every 20ms)'' @ nl @
     ''  -v, --verbose'' @ tab @ tab @ tab @ ''Enable debug messages'' @ nl @
     nl"

definition codec_line :: "('c, 'x) codec_desc \<Rightarrow> string" where
  "codec_line codec =
     '' '' @ pad_left 4 (cd_name codec) @ ''  *   '' @
     (if cd_encode codec \<noteq> None then ''*'' else '' '') @ ''   '' @
     (if cd_decode codec \<noteq> None then ''*'' else '' '') @ ''  '' @ tab @ cd_description codec @ nl"

definition format_line :: "format_desc \<Rightarrow> string" where
  "format_line fmt = '' '' @ pad_right 19 (fd_name fmt) @ '' '' @ fd_description fmt @ nl"

text \<open>The codec with a number of the enumeration.\<close>

definition codec_with_num :: "nat \<Rightarrow> codec_type" where
  "codec_with_num i = [CODEC_INVALID, CODEC_PCM, CODEC_HR, CODEC_FR, CODEC_EFR, CODEC_AMR] ! i"

fun codec_lines :: "build_cfg \<Rightarrow> 'c codec_libs \<Rightarrow> nat list \<Rightarrow> string res" where
  "codec_lines C L [] = Inr []"
| "codec_lines C L (i # is) =
     bind_r (deref (codec_get_from_type C L (codec_with_num i) :: ('c, unit) codec_desc option)) (\<lambda>codec.
     bind_r (codec_lines C L is) (\<lambda>s. Inr (codec_line codec @ s)))"

fun format_lines :: "endian \<Rightarrow> bit_tables \<Rightarrow> nat list \<Rightarrow> string res" where
  "format_lines e T [] = Inr []"
| "format_lines e T (i # is) =
     bind_r (deref (fmt_get_from_type e T i)) (\<lambda>fmt.
     bind_r (format_lines e T is) (\<lambda>s. Inr (format_line fmt @ s)))"

definition print_help :: "('c, 'x) env \<Rightarrow> string \<Rightarrow> string res" where
  "print_help E progname =
     bind_r (codec_lines (e_cfg E) (e_libs E) [codec_num CODEC_INVALID + 1..<CODEC_MAX]) (\<lambda>codecs.
     bind_r (format_lines (e_endian E) (e_tables E) [fmt_num FMT_INVALID + 1..<FMT_MAX]) (\<lambda>formats.
     Inr (''Usage: '' @ progname @ '' [options]'' @ nl @ nl @ help_options (have_alsa (e_cfg E)) @
          ''Supported codecs:'' @ nl @ '' name'' @ tab @ ''fmt enc dec'' @ tab @ ''description'' @ nl @
          codecs @ nl @ ''Supported formats:'' @ nl @ formats @ nl)))"

section \<open>What it offers\<close>

lemma codec_with_num [simp]: "codec_with_num (codec_num c) = c"
  by (cases c) (simp_all add: codec_with_num_def)

lemma codec_lines_all: "\<forall>i \<in> set is. 0 < i \<and> i < CODEC_MAX \<Longrightarrow>
    codec_lines C L is =
      Inr (concat (map (\<lambda>i. codec_line (the (codec_get_from_type C L (codec_with_num i) :: ('c, unit) codec_desc option))) is))"
proof (induction "is")
  case (Cons i "is")
  then have "i \<in> {1, 2, 3, 4, 5}" by auto
  then obtain d where "(codec_get_from_type C L (codec_with_num i) :: ('c, unit) codec_desc option) = Some d"
    by (auto simp: codec_with_num_def eval_nat_numeral)
  with Cons show ?case by simp
qed simp

lemma format_lines_all: "\<forall>i \<in> set is. 0 < i \<and> i < FMT_MAX \<Longrightarrow>
    format_lines e T is = Inr (concat (map (\<lambda>i. format_line (the (fmt_get_from_type e T i))) is))"
proof (induction "is")
  case (Cons i "is")
  then obtain t where "fmt_num t = i" "t \<noteq> FMT_INVALID" using fmt_num_surj [of i] by fastforce
  then have "fmt_get_from_type e T i = Some (fmt_of e T t)" using fmt_get_from_type_of [of t] by simp
  with Cons show ?case by simp
qed simp

text \<open>The formats of the list, in its order.\<close>

definition help_formats :: "('c, 'x) env \<Rightarrow> format_desc list" where
  "help_formats E = map (\<lambda>i. the (fmt_get_from_type (e_endian E) (e_tables E) i)) [1..<FMT_MAX]"

lemma help_formats_types: "help_formats E = map (fmt_of (e_endian E) (e_tables E)) (tl all_formats)"
  by (simp add: help_formats_def all_formats_def fmt_get_from_type_def supported_formats_def upt_rec)

lemma set_tl_all_formats: "set (tl all_formats) = {t. t \<noteq> FMT_INVALID}"
proof
  show "{t. t \<noteq> FMT_INVALID} \<subseteq> set (tl all_formats)"
  proof
    fix t
    assume "t \<in> {t. t \<noteq> FMT_INVALID}"
    then show "t \<in> set (tl all_formats)" by (cases t) (simp_all add: all_formats_def)
  qed
qed (simp add: all_formats_def)

lemma help_formats_iff:
  "f \<in> set (help_formats E) \<longleftrightarrow> fmt_get_from_name (e_endian E) (e_tables E) (fd_name f) = Some f"
  using fd_name_fmt_of
  by (auto simp: help_formats_types set_tl_all_formats fmt_get_from_name_iff image_iff)

lemma help_formats_distinct: "distinct (map fd_name (help_formats E))"
  by (simp add: help_formats_types all_formats_def fmt_defs)

lemma print_help_total:
  "\<exists>pre. print_help E progname = Inr (pre @ concat (map format_line (help_formats E)) @ nl)"
proof -
  have c: "\<forall>i \<in> set [codec_num CODEC_INVALID + 1..<CODEC_MAX]. 0 < i \<and> i < CODEC_MAX" by auto
  have f: "\<forall>i \<in> set [fmt_num FMT_INVALID + 1..<FMT_MAX]. 0 < i \<and> i < FMT_MAX" by auto
  have m: "concat (map (\<lambda>i. format_line (the (fmt_get_from_type (e_endian E) (e_tables E) i)))
      [fmt_num FMT_INVALID + 1..<FMT_MAX]) = concat (map format_line (help_formats E))"
    by (simp add: help_formats_def comp_def del: upt_Suc)
  let ?pre = "''Usage: '' @ progname @ '' [options]'' @ nl @ nl @ help_options (have_alsa (e_cfg E)) @
      ''Supported codecs:'' @ nl @ '' name'' @ tab @ ''fmt enc dec'' @ tab @ ''description'' @ nl @
      concat (map (\<lambda>i. codec_line (the (codec_get_from_type (e_cfg E) (e_libs E) (codec_with_num i)
        :: ('a, unit) codec_desc option))) [codec_num CODEC_INVALID + 1..<CODEC_MAX]) @ nl @ ''Supported formats:'' @ nl"
  have "print_help E progname = Inr (?pre @ concat (map format_line (help_formats E)) @ nl)"
    unfolding print_help_def codec_lines_all [OF c] format_lines_all [OF f] m by simp
  then show ?thesis by blast
qed

end
