(* ===== verification/Examples.thy ===== *)
theory Examples
  imports Program Typing Gsmhr Help
begin

text \<open>
  A concrete environment: libraries that return silence, the identity tables, an input file
  with two half-rate frames and three bytes more, an empty output file. The theorems of the
  root theory are applied to it, which shows that their hypotheses can hold.
\<close>

definition demo_libs :: "unit codec_libs" where
  "demo_libs =
     \<lparr>lib_gsm_create = Some (), lib_gsm_encode = (\<lambda>h x. (h, replicate 33 0xd0)),
      lib_gsm_decode = (\<lambda>h x. (0, h, replicate 320 0)), lib_gsmhr_init = Some (),
      lib_gsmhr_encode = (\<lambda>h x. (0, h, replicate 40 0)), lib_gsmhr_decode = (\<lambda>h x. (0, h, replicate 320 0)),
      lib_amr_enc_init = (), lib_amr_dec_init = (),
      lib_amr_encode = (\<lambda>h x. (32, h, 0x3c # replicate 31 0)), lib_amr_decode = (\<lambda>h x. (h, replicate 320 0)),
      lib_ecu_zero = (), lib_ecu_backup = (\<lambda>h. replicate 33 0), lib_ecu_reset = (\<lambda>h x. h),
      lib_ecu_conceal = (\<lambda>h. (0, h, replicate 33 0))\<rparr>"

definition demo_cfg :: build_cfg where
  "demo_cfg = \<lparr>have_libgsm = True, have_libgsmhr = True, have_opencore = True, have_alsa = True\<rparr>"

definition demo_alsa :: "unit alsa_lib" where
  "demo_alsa =
     \<lparr>snd_pcm_open = (\<lambda>d c x. (0, 0, x)), snd_pcm_hw = (\<lambda>c h x. (0, x)), snd_pcm_hw_free = id,
      snd_pcm_close = (\<lambda>h x. x), snd_pcm_prepare = (\<lambda>h x. x),
      snd_pcm_readi = (\<lambda>h n x. (int n, replicate (2 * n) 0, x)), snd_pcm_writei = (\<lambda>h b x. (int (length b div 2), x)),
      snd_pcm_avail_update = (\<lambda>h x. (0, x))\<rparr>"

definition demo_input :: buf where
  "demo_input = replicate 14 1 @ replicate 14 2 @ [3, 3, 3]"

definition demo_file :: "buf \<Rightarrow> file_obj" where
  "demo_file d = \<lparr>fl_data = d, fl_pos = 0, fl_room = None\<rparr>"

definition demo_env :: "(unit, unit) env" where
  "demo_env =
     \<lparr>e_endian = Little, e_tables = identity_tables, e_cfg = demo_cfg, e_libs = demo_libs, e_alsa = demo_alsa,
      e_fopen = (\<lambda>name writing. if writing then Some (3, demo_file []) else Some (2, demo_file demo_input)),
      e_errno = 2, e_sock_init = (\<lambda>host port bind. 5)\<rparr>"

definition demo_world :: "unit world" where
  "demo_world =
     \<lparr>w_files = (\<lambda>h. if h = 2 then demo_file demo_input else demo_file []),
      w_socks = (\<lambda>_. \<lparr>so_rx = [], so_tx = [], so_wr = []\<rparr>), w_mem = [], w_allocs = 0, w_live = 0,
      w_junk = (\<lambda>_ _. 0), w_clock = [], w_rand = [], w_bench = (\<lambda>_. None), w_ext = ()\<rparr>"

text \<open>The state of the application once the streams are open.\<close>

definition demo_state :: "format_type \<Rightarrow> format_type \<Rightarrow> (unit, unit) gapk_state" where
  "demo_state ti tt = init_state
     \<lparr>opts := zero_options\<lparr>fname_in := Some ''in'', fname_out := Some ''out'',
        fmt_in := Some (fmt_of Little identity_tables ti), fmt_out := Some (fmt_of Little identity_tables tt)\<rparr>,
      gs_pq := Some (empty_pq (Some ''main'')), in_fh := Some 2, out_fh := Some 3\<rparr>"

lemma demo_libs_ok: "libs_ok demo_libs"
  by (simp add: libs_ok_def demo_libs_def)

lemma demo_codecs_ready: "c \<in> {CODEC_HR, CODEC_FR, CODEC_EFR, CODEC_AMR} \<Longrightarrow> codec_ready demo_cfg demo_libs c"
  by (auto simp: codec_ready_def demo_cfg_def demo_libs_def)

lemma demo_env_simps [simp]:
  "e_endian demo_env = Little" "e_tables demo_env = identity_tables" "e_cfg demo_env = demo_cfg"
  "e_libs demo_env = demo_libs"
  by (simp_all add: demo_env_def)

lemma demo_state_simps [simp]:
  "in_fh (demo_state ti tt) = Some 2" "out_fh (demo_state ti tt) = Some 3"
  "gs_pq (demo_state ti tt) = Some (empty_pq (Some ''main''))" "gs_exit (demo_state ti tt) = 0"
  "\<not> throttle (opts (demo_state ti tt))"
  "fmt_in (opts (demo_state ti tt)) = Some (fmt_of Little identity_tables ti)"
  "fmt_out (opts (demo_state ti tt)) = Some (fmt_of Little identity_tables tt)"
  by (simp_all add: demo_state_def init_state_def zero_options_def)

lemma demo_world_simps [simp]:
  "w_mem demo_world = []" "w_files demo_world 2 = demo_file demo_input" "w_files demo_world 3 = demo_file []"
  by (simp_all add: demo_world_def)

lemma demo_file_simps [simp]: "fl_room (demo_file d) = None" "fl_data (demo_file d) = d" "fl_pos (demo_file d) = 0"
  by (simp_all add: demo_file_def)

lemma demo_request:
  assumes "fixed_len ti" and "fixed_len tt" and "codec_of ti \<noteq> CODEC_AMR" and "codec_of tt \<noteq> CODEC_AMR"
  shows "file_request demo_env (demo_state ti tt) 2 ti tt"
  using assms codec_of_valid [of ti] codec_of_valid [of tt]
    demo_codecs_ready [of "codec_of ti"] demo_codecs_ready [of "codec_of tt"]
  by (cases "codec_of ti"; cases "codec_of tt")
     (simp_all add: file_request_def requested_def servable_def streams_open_def need_dec_def need_enc_def
       good_identity_tables demo_libs_ok fixed_len_def)

lemma demo_fopen: "e_fopen demo_env name False = Some (2, demo_file demo_input)"
    "e_fopen demo_env name True = Some (3, demo_file [])"
  by (simp_all add: demo_env_def)

lemma demo_fresh: "fresh_handles demo_env"
  by (auto simp: fresh_handles_def demo_env_def split: if_splits)

lemma demo_libs_created: "libs_created demo_libs"
  by (simp add: libs_created_def demo_libs_def)

lemma demo_bench: "w_bench demo_world = (\<lambda>_. None)" "w_live demo_world = 0"
  by (simp_all add: demo_world_def)

lemma demo_there:
  assumes "fixed_len ti" and "fixed_len tt" and "codec_of ti \<noteq> CODEC_AMR" and "codec_of tt \<noteq> CODEC_AMR"
  shows "files_there demo_env a b ti tt 2 (demo_file demo_input) 3 (demo_file [])"
proof -
  have "servable demo_env ti tt" using demo_request [OF assms] by (simp add: file_request_def requested_def)
  then show ?thesis
    using assms by (simp add: files_there_def demo_fopen demo_fresh demo_libs_ok demo_libs_created good_identity_tables)
qed

lemma demo_pending: "pending 14 (demo_file demo_input) = [replicate 14 1, replicate 14 2]"
  by (simp add: pending_def frames_step frames_nil demo_input_def)

text \<open>A prepared queue that copies full-rate frames from one file to the other.\<close>

definition demo_items :: "(unit, unit) qitem list" where
  "demo_items = [(file_source 2 33)\<lparr>it_buf := Some (replicate 33 0)\<rparr>, file_sink 3 33]"

lemma demo_file_queue: "file_queue 2 33 demo_items"
proof -
  have W: "indifferent (demo_state FMT_GSM FMT_GSM) W" if "W \<in> range (input_is 2)" for W :: "unit world \<Rightarrow> bool"
    using that by (auto simp: indifferent_def input_is_def)
  have s: "is_sink (demo_state FMT_GSM FMT_GSM) 33 (file_sink 3 33 :: (unit, unit) qitem)"
    by (simp add: is_sink_def)
  have "chain_ok will_have_room (range (input_is 2)) (frame 33) [file_sink 3 33 :: (unit, unit) qitem]"
    by (rule chain_sink [OF _ s]) (use W in blast)
  moreover have "list_all2 prepared [file_sink 3 33 :: (unit, unit) qitem] [file_sink 3 33]"
    by (auto simp: prepared_def file_sink_def zero_item_def)
  ultimately have "chain_ok has_room (range (input_is 2)) (frame 33) [file_sink 3 33 :: (unit, unit) qitem]"
    by (rule chain_prepared)
  then show ?thesis
    by (auto simp: file_queue_def demo_items_def file_sink_def zero_item_def intro!: exI [of _ "replicate 33 0"])
qed

definition demo_pq :: "(unit, unit) queue" where
  "demo_pq = \<lparr>pq_items = demo_items, pq_n_items = 2, pq_name = None\<rparr>"

definition demo_prepared :: "(unit, unit) gapk_state" where
  "demo_prepared = (demo_state FMT_GSM FMT_GSM)\<lparr>gs_pq := Some demo_pq\<rparr>"

lemma demo_prepared_queue: "gs_pq demo_prepared = Some demo_pq" "file_queue 2 33 (pq_items demo_pq)"
  using demo_file_queue by (simp_all add: demo_prepared_def demo_pq_def)

text \<open>A sender two packets before the wrap-around of its sequence number.\<close>

definition demo_sender :: pq_state_rtp where
  "demo_sender = \<lparr>pr_fd = 0, pr_blk_len = 4, pr_duration = 160, pr_payload_type = 3,
     pr_sequence = 0xffff, pr_timestamp = 0xffffffff, pr_ssrc = 7\<rparr>"

lemma demo_sender_fd: "pr_fd demo_sender = 0"
  by (simp add: demo_sender_def)

lemma demo_socket: "so_wr (w_socks demo_world (pr_fd demo_sender)) = []" "so_tx (w_socks demo_world (pr_fd demo_sender)) = []"
  by (simp_all add: demo_world_def)

lemma demo_sent: "\<exists>w'. send_all demo_sender [[1, 2], [3]] demo_world = Inr (advance demo_sender 2, w') \<and>
    so_tx (w_socks w' 0) = packets demo_sender [[1, 2], [3]]"
  using send_all_spec [OF demo_socket(1), of "[[1, 2], [3]]"] demo_socket(2)
  by (simp add: packets_map demo_sender_fd numeral_2_eq_2 del: send_all.simps packets.simps)

end
