(* ===== verification/Reference_Frames.thy ===== *)
theory Reference_Frames
  imports Formats
begin

text \<open>
  Frames recorded in the repository, \<^verbatim>\<open>tests/ref-files/hhgttg_part1_5.s16.*\<close>: the first two of each
  file (\<open>ref_frames\<close>), with their canonical frames (\<open>ref_canon\<close>). The bit order tables of
  libosmocodec are not in the repository; \<open>ref_tables\<close> holds what the files say of them. Every entry
  is the only position of the canonical frames whose bits agree with the coded position over the 250
  frames of a file; the entries that the files leave open (the skipped positions of TI EFR, the two
  mode bits of an unvoiced half-rate frame) complete each table to a permutation. So the tables
  satisfy \<open>good_tables\<close>, and every converter maps the recorded frames onto each other.
\<close>

section \<open>The tables\<close>

definition ref_tables :: bit_tables where
  "ref_tables =
     \<lparr>gsm610_bitorder =
      [0, 47, 103, 159, 215, 1, 6, 12, 2, 7, 13, 17, 36, 92, 148, 204, 48, 104, 160, 216, 8, 22, 26,
       37, 93, 149, 205, 38, 94, 150, 206, 39, 95, 151, 207, 40, 96, 152, 208, 49, 105, 161, 217, 3,
       18, 30, 41, 97, 153, 209, 23, 27, 43, 99, 155, 211, 42, 98, 154, 210, 45, 101, 157, 213, 4,
       9, 14, 33, 19, 24, 31, 44, 100, 156, 212, 50, 106, 162, 218, 53, 56, 59, 62, 65, 68, 71, 74,
       77, 80, 83, 86, 89, 109, 112, 115, 118, 121, 124, 127, 130, 133, 136, 139, 142, 145, 165,
       168, 171, 174, 177, 180, 183, 186, 189, 192, 195, 198, 201, 221, 224, 227, 230, 233, 236,
       239, 242, 245, 248, 251, 254, 257, 46, 102, 158, 214, 51, 107, 163, 219, 54, 57, 60, 63, 66,
       69, 72, 75, 78, 81, 84, 87, 90, 110, 113, 116, 119, 122, 125, 128, 131, 134, 137, 140, 143,
       146, 166, 169, 172, 175, 178, 181, 184, 187, 190, 193, 196, 199, 202, 222, 225, 228, 231,
       234, 237, 240, 243, 246, 249, 252, 255, 258, 5, 10, 15, 28, 32, 34, 35, 16, 20, 21, 25, 52,
       108, 164, 220, 55, 58, 61, 64, 67, 70, 73, 76, 79, 82, 85, 88, 91, 111, 114, 117, 120, 123,
       126, 129, 132, 135, 138, 141, 144, 147, 167, 170, 173, 176, 179, 182, 185, 188, 191, 194,
       197, 200, 203, 223, 226, 229, 232, 235, 238, 241, 244, 247, 250, 253, 256, 259, 11, 29],
      gsm620_unvoiced_bitorder =
      [3, 25, 52, 71, 90, 109, 15, 19, 20, 21, 22, 23, 26, 27, 28, 29, 30, 31, 61, 62, 63, 64, 65,
       66, 67, 68, 74, 75, 76, 77, 78, 79, 80, 81, 82, 83, 84, 32, 4, 33, 60, 59, 58, 57, 56, 55,
       49, 48, 47, 46, 45, 44, 43, 42, 41, 40, 39, 38, 37, 36, 111, 92, 73, 54, 24, 110, 91, 72, 53,
       14, 13, 12, 11, 10, 108, 89, 70, 51, 16, 17, 18, 107, 88, 69, 50, 9, 8, 7, 6, 2, 5, 1, 0, 35,
       34, 106, 105, 104, 103, 102, 101, 100, 99, 98, 97, 96, 95, 94, 93, 87, 86, 85],
      gsm620_voiced_bitorder =
      [13, 14, 18, 19, 20, 53, 71, 89, 107, 54, 72, 90, 108, 55, 73, 91, 109, 44, 45, 46, 47, 48,
       49, 50, 51, 52, 62, 63, 64, 65, 68, 69, 70, 80, 66, 67, 56, 74, 92, 110, 57, 75, 93, 111, 33,
       24, 32, 97, 31, 23, 96, 79, 61, 43, 95, 78, 60, 42, 30, 29, 28, 22, 27, 26, 21, 4, 25, 15,
       94, 77, 59, 41, 3, 76, 58, 40, 39, 17, 16, 12, 11, 10, 9, 2, 38, 37, 36, 8, 7, 6, 5, 1, 0,
       35, 34, 106, 105, 104, 103, 102, 101, 100, 99, 98, 88, 87, 86, 85, 84, 83, 82, 81],
      gsm660_bitorder =
      [38, 39, 40, 41, 42, 43, 145, 146, 147, 148, 149, 150, 93, 94, 200, 201, 47, 88, 99, 140, 44,
       151, 95, 202, 1, 2, 7, 9, 17, 18, 23, 45, 46, 152, 153, 96, 203, 3, 4, 10, 11, 15, 8, 5, 6,
       12, 16, 19, 97, 204, 0, 13, 14, 20, 24, 25, 27, 154, 206, 195, 247, 89, 141, 196, 248, 252,
       253, 254, 255, 256, 257, 258, 259, 48, 100, 155, 207, 21, 22, 26, 28, 51, 55, 59, 63, 67,
       103, 107, 111, 115, 119, 158, 162, 166, 170, 174, 210, 214, 218, 222, 226, 90, 142, 197, 249,
       49, 101, 156, 208, 29, 30, 31, 32, 33, 34, 35, 98, 205, 52, 56, 60, 64, 68, 104, 108, 112,
       116, 120, 159, 163, 167, 171, 175, 211, 215, 219, 223, 227, 53, 57, 61, 65, 105, 109, 113,
       117, 160, 164, 168, 172, 212, 220, 224, 91, 143, 198, 250, 50, 102, 157, 209, 92, 144, 199,
       251, 54, 58, 62, 66, 106, 110, 114, 118, 161, 165, 169, 173, 213, 221, 225, 36, 37, 69, 71,
       72, 121, 123, 124, 176, 178, 179, 228, 230, 231, 216, 217, 70, 122, 177, 229, 73, 76, 79, 82,
       85, 125, 128, 131, 134, 137, 180, 183, 186, 189, 192, 232, 235, 238, 241, 244, 74, 77, 80,
       83, 86, 126, 129, 132, 135, 138, 181, 184, 187, 190, 193, 233, 236, 239, 242, 245, 75, 78,
       81, 84, 87, 127, 130, 133, 136, 139, 182, 185, 188, 191, 194, 234, 237, 240, 243, 246],
      gsm690_12_2_bitorder =
      [0, 1, 2, 3, 4, 5, 6, 7, 8, 9, 10, 11, 12, 13, 14, 23, 15, 16, 17, 18, 19, 20, 21, 22, 24, 25,
       26, 27, 28, 38, 141, 39, 142, 40, 143, 41, 144, 42, 145, 43, 146, 44, 147, 45, 148, 46, 149,
       47, 97, 150, 200, 48, 98, 151, 201, 49, 99, 152, 202, 86, 136, 189, 239, 87, 137, 190, 240,
       88, 138, 191, 241, 91, 194, 92, 195, 93, 196, 94, 197, 95, 198, 29, 30, 31, 32, 33, 34, 35,
       50, 100, 153, 203, 89, 139, 192, 242, 51, 101, 154, 204, 55, 105, 158, 208, 90, 140, 193,
       243, 59, 109, 162, 212, 63, 113, 166, 216, 67, 117, 170, 220, 36, 37, 54, 53, 52, 58, 57, 56,
       62, 61, 60, 66, 65, 64, 70, 69, 68, 104, 103, 102, 108, 107, 106, 112, 111, 110, 116, 115,
       114, 120, 119, 118, 157, 156, 155, 161, 160, 159, 165, 164, 163, 169, 168, 167, 173, 172,
       171, 207, 206, 205, 211, 210, 209, 215, 214, 213, 219, 218, 217, 223, 222, 221, 73, 72, 71,
       76, 75, 74, 79, 78, 77, 82, 81, 80, 85, 84, 83, 123, 122, 121, 126, 125, 124, 129, 128, 127,
       132, 131, 130, 135, 134, 133, 176, 175, 174, 179, 178, 177, 182, 181, 180, 185, 184, 183,
       188, 187, 186, 226, 225, 224, 229, 228, 227, 232, 231, 230, 235, 234, 233, 238, 237, 236, 96,
       199]\<rparr>"

section \<open>Evaluation\<close>

text \<open>
  The lists below are evaluated in two steps: the bits of the bytes with the simplification
  rules of words, then the selections by index with the few rules \<open>select_rules\<close>, which keeps
  lists of some hundred elements fast.
\<close>

definition select :: "'a list \<Rightarrow> nat list \<Rightarrow> 'a list" where
  "select xs ks = map (nth xs) ks"

definition select_opt :: "bool list \<Rightarrow> nat option list \<Rightarrow> bool list" where
  "select_opt xs ks = map (case_option False (nth xs)) ks"

lemma replicate_numeral: "replicate (numeral k) x = x # replicate (pred_numeral k) x"
  by (simp add: numeral_eq_Suc)

lemma take_numeral: "take (numeral k) (x # xs) = x # take (pred_numeral k) xs"
  by (simp add: numeral_eq_Suc)

lemma drop_numeral: "drop (numeral k) (x # xs) = drop (pred_numeral k) xs"
  by (simp add: numeral_eq_Suc)

lemma upt_from_0: "[0..<numeral k] = (if (1::nat) < numeral k then 0 # 1 # [2..<numeral k] else [0])"
  using upt_rec [of 0 "numeral k"] upt_rec [of 1 "numeral k"] by (simp add: numeral_2_eq_2)

lemma nth_numeral: "(x # xs) ! numeral k = xs ! pred_numeral k"
  by (simp add: numeral_eq_Suc)

lemmas select_rules = select_def select_opt_def list.map option.case nth_Cons_0 nth_numeral nth_Cons_Suc
  One_nat_def pred_numeral_simps Num.BitM.simps append.simps replicate_numeral replicate.simps(1)
  take_numeral take_0 drop_numeral drop_0

definition msb_byte :: "byte \<Rightarrow> bool list" where
  "msb_byte b = [bit b 7, bit b 6, bit b 5, bit b 4, bit b 3, bit b 2, bit b 1, bit b 0]"

definition lsb_byte :: "byte \<Rightarrow> bool list" where
  "lsb_byte b = [bit b 0, bit b 1, bit b 2, bit b 3, bit b 4, bit b 5, bit b 6, bit b 7]"

lemma bits_by_Cons: "bits_by p (b # bs) = map (\<lambda>k. bit b (p k)) [0..<8] @ bits_by p bs"
proof -
  have "bits_by p [b] = map (\<lambda>k. bit b (p k)) [0..<8]" by (simp add: bits_by_def)
  then show ?thesis using bits_by_append [of p "[b]" bs] by simp
qed

lemma msb_bits_Cons: "msb_bits (b # bs) = msb_byte b @ msb_bits bs"
  by (simp add: msb_bits_def bits_by_Cons msb_byte_def msb_pos_def upt_from_0 upt_rec_numeral)

lemma lsb_bits_Cons: "lsb_bits (b # bs) = lsb_byte b @ lsb_bits bs"
  by (simp add: lsb_bits_def bits_by_Cons lsb_byte_def lsb_pos_def upt_from_0 upt_rec_numeral)

lemma bits_Nil: "msb_bits [] = []" "lsb_bits [] = []"
  by (simp_all add: msb_bits_def lsb_bits_def bits_by_def)

lemmas bit_lists = msb_bits_Cons lsb_bits_Cons bits_Nil msb_byte_def lsb_byte_def

text \<open>A list is a permutation of the numbers below \<open>n\<close> when a list of indexes selects them in order.\<close>

lemma perm_by_inverse:
  assumes "length t = n" and "select t u = [0..<n]" and "list_all (\<lambda>i. i < n) u"
  shows "is_perm n t"
proof -
  have "{..<n} = set (select t u)" using assms(2) by auto
  also have "\<dots> \<subseteq> set t" using assms(1,3) by (auto simp: select_def list_all_iff)
  finally have sub: "{..<n} \<subseteq> set t" .
  have "card (set t) \<le> card {..<n}" using assms(1) card_length [of t] by simp
  then have "{..<n} = set t" by (intro card_seteq [OF _ sub]) simp_all
  then have "set t = {..<n}" by simp
  with assms(1) show ?thesis by (simp add: is_perm_def card_distinct)
qed

lemma ref_610: "is_perm 260 (gsm610_bitorder ref_tables)"
proof (rule perm_by_inverse)
  show "select (gsm610_bitorder ref_tables)
     [0, 5, 8, 43, 64, 191, 6, 9, 20, 65, 192, 258, 7, 10, 66, 193, 198, 11, 44, 68, 199, 200, 21,
      50, 69, 201, 22, 51, 194, 259, 45, 70, 195, 67, 196, 197, 12, 23, 27, 31, 35, 46, 56, 52, 71,
      60, 131, 1, 16, 39, 75, 135, 202, 79, 139, 206, 80, 140, 207, 81, 141, 208, 82, 142, 209, 83,
      143, 210, 84, 144, 211, 85, 145, 212, 86, 146, 213, 87, 147, 214, 88, 148, 215, 89, 149, 216,
      90, 150, 217, 91, 151, 218, 13, 24, 28, 32, 36, 47, 57, 53, 72, 61, 132, 2, 17, 40, 76, 136,
      203, 92, 152, 219, 93, 153, 220, 94, 154, 221, 95, 155, 222, 96, 156, 223, 97, 157, 224, 98,
      158, 225, 99, 159, 226, 100, 160, 227, 101, 161, 228, 102, 162, 229, 103, 163, 230, 104, 164,
      231, 14, 25, 29, 33, 37, 48, 58, 54, 73, 62, 133, 3, 18, 41, 77, 137, 204, 105, 165, 232, 106,
      166, 233, 107, 167, 234, 108, 168, 235, 109, 169, 236, 110, 170, 237, 111, 171, 238, 112, 172,
      239, 113, 173, 240, 114, 174, 241, 115, 175, 242, 116, 176, 243, 117, 177, 244, 15, 26, 30,
      34, 38, 49, 59, 55, 74, 63, 134, 4, 19, 42, 78, 138, 205, 118, 178, 245, 119, 179, 246, 120,
      180, 247, 121, 181, 248, 122, 182, 249, 123, 183, 250, 124, 184, 251, 125, 185, 252, 126, 186,
      253, 127, 187, 254, 128, 188, 255, 129, 189, 256, 130, 190, 257] = [0..<260]"
    by (simp only: select_rules ref_tables_def bit_tables.simps) (simp add: upt_from_0 upt_rec_numeral)
qed (simp_all add: ref_tables_def)

lemma ref_620u: "is_perm 112 (gsm620_unvoiced_bitorder ref_tables)"
proof (rule perm_by_inverse)
  show "select (gsm620_unvoiced_bitorder ref_tables)
     [92, 91, 89, 0, 38, 90, 88, 87, 86, 85, 73, 72, 71, 70, 69, 6, 78, 79, 80, 7, 8, 9, 10, 11, 64,
      1, 12, 13, 14, 15, 16, 17, 37, 39, 94, 93, 59, 58, 57, 56, 55, 54, 53, 52, 51, 50, 49, 48, 47,
      46, 84, 77, 2, 68, 63, 45, 44, 43, 42, 41, 40, 18, 19, 20, 21, 22, 23, 24, 25, 83, 76, 3, 67,
      62, 26, 27, 28, 29, 30, 31, 32, 33, 34, 35, 36, 111, 110, 109, 82, 75, 4, 66, 61, 108, 107,
      106, 105, 104, 103, 102, 101, 100, 99, 98, 97, 96, 95, 81, 74, 5, 65, 60] = [0..<112]"
    by (simp only: select_rules ref_tables_def bit_tables.simps) (simp add: upt_from_0 upt_rec_numeral)
qed (simp_all add: ref_tables_def)

lemma ref_620v: "is_perm 112 (gsm620_voiced_bitorder ref_tables)"
proof (rule perm_by_inverse)
  show "select (gsm620_voiced_bitorder ref_tables)
     [92, 91, 83, 72, 65, 90, 89, 88, 87, 82, 81, 80, 79, 0, 1, 67, 78, 77, 2, 3, 4, 64, 61, 49, 45,
      66, 63, 62, 60, 59, 58, 48, 46, 44, 94, 93, 86, 85, 84, 76, 75, 71, 57, 53, 17, 18, 19, 20,
      21, 22, 23, 24, 25, 5, 9, 13, 36, 40, 74, 70, 56, 52, 26, 27, 28, 29, 34, 35, 30, 31, 32, 6,
      10, 14, 37, 41, 73, 69, 55, 51, 33, 111, 110, 109, 108, 107, 106, 105, 104, 7, 11, 15, 38, 42,
      68, 54, 50, 47, 103, 102, 101, 100, 99, 98, 97, 96, 95, 8, 12, 16, 39, 43] = [0..<112]"
    by (simp only: select_rules ref_tables_def bit_tables.simps) (simp add: upt_from_0 upt_rec_numeral)
qed (simp_all add: ref_tables_def)

lemma ref_660: "is_perm 260 (gsm660_bitorder ref_tables)"
proof (rule perm_by_inverse)
  show "select (gsm660_bitorder ref_tables)
     [50, 24, 25, 37, 38, 43, 44, 26, 42, 27, 39, 40, 45, 51, 52, 41, 46, 28, 29, 47, 53, 77, 78,
      30, 54, 55, 79, 56, 80, 109, 110, 111, 112, 113, 114, 115, 180, 181, 0, 1, 2, 3, 4, 5, 20, 31,
      32, 16, 73, 105, 157, 81, 118, 138, 165, 82, 119, 139, 166, 83, 120, 140, 167, 84, 121, 141,
      168, 85, 122, 182, 196, 183, 184, 200, 220, 240, 201, 221, 241, 202, 222, 242, 203, 223, 243,
      204, 224, 244, 17, 61, 101, 153, 161, 12, 13, 22, 35, 48, 116, 18, 74, 106, 158, 86, 123, 142,
      169, 87, 124, 143, 170, 88, 125, 144, 171, 89, 126, 145, 172, 90, 127, 185, 197, 186, 187,
      205, 225, 245, 206, 226, 246, 207, 227, 247, 208, 228, 248, 209, 229, 249, 19, 62, 102, 154,
      162, 6, 7, 8, 9, 10, 11, 21, 33, 34, 57, 75, 107, 159, 91, 128, 146, 173, 92, 129, 147, 174,
      93, 130, 148, 175, 94, 131, 149, 176, 95, 132, 188, 198, 189, 190, 210, 230, 250, 211, 231,
      251, 212, 232, 252, 213, 233, 253, 214, 234, 254, 59, 63, 103, 155, 163, 14, 15, 23, 36, 49,
      117, 58, 76, 108, 160, 96, 133, 150, 177, 97, 134, 194, 195, 98, 135, 151, 178, 99, 136, 152,
      179, 100, 137, 191, 199, 192, 193, 215, 235, 255, 216, 236, 256, 217, 237, 257, 218, 238, 258,
      219, 239, 259, 60, 64, 104, 156, 164, 65, 66, 67, 68, 69, 70, 71, 72] = [0..<260]"
    by (simp only: select_rules ref_tables_def bit_tables.simps) (simp add: upt_from_0 upt_rec_numeral)
qed (simp_all add: ref_tables_def)

lemma ref_690: "is_perm 244 (gsm690_12_2_bitorder ref_tables)"
proof (rule perm_by_inverse)
  show "select (gsm690_12_2_bitorder ref_tables)
     [0, 1, 2, 3, 4, 5, 6, 7, 8, 9, 10, 11, 12, 13, 14, 16, 17, 18, 19, 20, 21, 22, 23, 15, 24, 25,
      26, 27, 28, 81, 82, 83, 84, 85, 86, 87, 120, 121, 29, 31, 33, 35, 37, 39, 41, 43, 45, 47, 51,
      55, 88, 96, 124, 123, 122, 100, 127, 126, 125, 108, 130, 129, 128, 112, 133, 132, 131, 116,
      136, 135, 134, 184, 183, 182, 187, 186, 185, 190, 189, 188, 193, 192, 191, 196, 195, 194, 59,
      63, 67, 92, 104, 71, 73, 75, 77, 79, 242, 48, 52, 56, 89, 97, 139, 138, 137, 101, 142, 141,
      140, 109, 145, 144, 143, 113, 148, 147, 146, 117, 151, 150, 149, 199, 198, 197, 202, 201, 200,
      205, 204, 203, 208, 207, 206, 211, 210, 209, 60, 64, 68, 93, 105, 30, 32, 34, 36, 38, 40, 42,
      44, 46, 49, 53, 57, 90, 98, 154, 153, 152, 102, 157, 156, 155, 110, 160, 159, 158, 114, 163,
      162, 161, 118, 166, 165, 164, 214, 213, 212, 217, 216, 215, 220, 219, 218, 223, 222, 221, 226,
      225, 224, 61, 65, 69, 94, 106, 72, 74, 76, 78, 80, 243, 50, 54, 58, 91, 99, 169, 168, 167,
      103, 172, 171, 170, 111, 175, 174, 173, 115, 178, 177, 176, 119, 181, 180, 179, 229, 228, 227,
      232, 231, 230, 235, 234, 233, 238, 237, 236, 241, 240, 239, 62, 66, 70, 95, 107] = [0..<244]"
    by (simp only: select_rules ref_tables_def bit_tables.simps) (simp add: upt_from_0 upt_rec_numeral)
qed (simp_all add: ref_tables_def)

lemma good_ref_tables: "good_tables ref_tables"
  by (simp add: good_tables_def ref_610 ref_660 ref_690 ref_620u ref_620v)
     (simp add: mode_bits_def ref_tables_def)

section \<open>Frames\<close>

fun ref_canon :: "codec_type \<Rightarrow> buf list" where
  "ref_canon CODEC_FR =
     [[0xa6, 0x6b, 0xbd, 0xd6, 0x25, 0, 3, 0x71, 0xb9, 0x24, 0x8e, 0x35, 0x64, 3, 0x6e, 0x49, 0x24,
       0x92, 0x37, 0xa0, 4, 0x92, 0x46, 0xe4, 0x6d, 0xc7, 0xcc, 3, 0x6d, 0xb6, 0xdb, 0x8d, 0xb0],
      [0x9a, 0x4d, 0x2d, 0xd1, 0x8a, 0xa4, 3, 0x72, 0x49, 0x24, 0x92, 0x3a, 0xc4, 4, 0x92, 0x49,
       0x1b, 0x8e, 0x3c, 0xe0, 3, 0x8d, 0xb7, 0x1c, 0x6d, 0xc7, 0x60, 3, 0x92, 0x37, 0x1c, 0x6d,
       0xb0]]"
| "ref_canon CODEC_EFR =
     [[0x55, 0x17, 0x32, 0xce, 0xf8, 0xfd, 0x60, 0, 0, 0, 0, 0x1b, 0x5e, 0x98, 0xdc, 0x64, 0x39,
       0x5e, 0x7a, 0xc4, 0xc4, 0x7d, 0x96, 0x38, 0xf7, 6, 0x4a, 0x6c, 0xbd, 0x2a, 0x30],
      [0x4e, 0xec, 0x51, 0x7d, 0xb6, 0x28, 0x9c, 0x1e, 0x8d, 0xa7, 0xc0, 0x78, 0x11, 8, 0x78, 0x5f,
       0x7d, 0x18, 0x30, 0x53, 0x1f, 0xa2, 0xd9, 0xc1, 0x1e, 0x46, 0x42, 0x22, 0xbf, 0x3a, 0x80]]"
| "ref_canon CODEC_HR =
     [[0, 0xd8, 0xbf, 0x68, 0x8c, 0x98, 0xc1, 0xf6, 1, 0x73, 0x55, 0x28, 0xb6, 0x85],
      [0, 0xd8, 0xb9, 0x65, 0x9b, 0xe2, 0x40, 0x22, 0xc8, 7, 0x43, 1, 0x7f, 0x60]]"
| "ref_canon _ = []"

fun ref_frames :: "format_type \<Rightarrow> buf list" where
  "ref_frames FMT_GSM =
     [[0xda, 0x66, 0xbb, 0xdd, 0x62, 0x50, 0, 0x37, 0x1b, 0x92, 0x48, 0xe3, 0x56, 0x40, 0x36, 0xe4,
       0x92, 0x49, 0x23, 0x7a, 0, 0x49, 0x24, 0x6e, 0x46, 0xdc, 0x7c, 0xc0, 0x36, 0xdb, 0x6d, 0xb8,
       0xdb],
      [0xd9, 0xa4, 0xd2, 0xdd, 0x18, 0xaa, 0x40, 0x37, 0x24, 0x92, 0x49, 0x23, 0xac, 0x40, 0x49,
       0x24, 0x91, 0xb8, 0xe3, 0xce, 0, 0x38, 0xdb, 0x71, 0xc6, 0xdc, 0x76, 0, 0x39, 0x23, 0x71,
       0xc6, 0xdb]]"
| "ref_frames FMT_RACAL_FR =
     [[0xc1, 1, 0x80, 0xe7, 0x67, 0xb0, 0x0e, 0xa6, 0x36, 4, 0xf2, 0x85, 0xff, 0x3e, 0x23, 0x80, 0,
       0xd8, 0xa0, 7, 0x10, 0xcc, 0xfd, 0xf7, 0xd3, 0xc3, 6, 0x3d, 0x80, 0x60, 0xee, 0xbf, 0x0b],
      [0xc1, 0x74, 0, 0x5e, 0x3c, 0x98, 0x0f, 0x3d, 0x63, 0, 0xfe, 0xf7, 0xa7, 0x84, 0xa2, 0x53, 0,
       0x18, 0x80, 0x80, 0xb5, 0xd7, 0xc5, 0x7a, 0x8a, 0xc3, 0, 4, 0xac, 0xbd, 0x2e, 0xd6, 3]]"
| "ref_frames FMT_TI_FR =
     [[0x83, 0x80, 1, 0xe7, 0xe6, 0x0d, 0x70, 0x65, 0x6c, 0x20, 0x4f, 0xa1, 0xff, 0x7c, 0xc4, 1, 0,
       0x1b, 5, 0xe0, 8, 0x33, 0xbc, 0x3e, 0xfc, 0xbc, 0x36, 0x0b, 0xc0, 0x10, 0x67, 0x7f, 0xdd],
      [0x83, 0x2e, 0, 0x7a, 0x3c, 0x19, 0xf0, 0xbc, 0xc6, 0, 0x7f, 0xef, 0xe5, 0x21, 0x45, 0xca, 0,
       0x18, 1, 1, 0xad, 0xeb, 0xa0, 0x35, 0xe5, 0x1c, 0x30, 2, 3, 0x5b, 0xd7, 0x46, 0xbc]]"
| "ref_frames FMT_AMR_EFR =
     [[0x3c, 0x55, 0x16, 0x99, 0xca, 0xd7, 0xf9, 0xc1, 0xc0, 0x81, 0xe7, 0xef, 0xe7, 0x40, 0x71,
       0x47, 0x80, 0, 0x5d, 0x30, 0x9a, 0x4e, 0xca, 0x64, 0, 3, 0x43, 0xcd, 0x30, 0xf7, 0xa5, 0x50],
      [0x3c, 0x4e, 0xed, 0x28, 0x7c, 4, 0xe0, 0x12, 0x80, 0x25, 0x6a, 0xdb, 0x2c, 0x82, 0xc8, 0x62,
       0x58, 0xe5, 0xa8, 0x38, 0x27, 0xb0, 0xca, 0x49, 0x9e, 0xc5, 0xf7, 0xdb, 0x4f, 0x17, 0xbd,
       0x40]]"
| "ref_frames FMT_RACAL_EFR =
     [[0xaa, 0xe8, 0x4c, 0x73, 0x1f, 0xbf, 6, 0, 0, 0, 0, 0xd8, 0x7a, 0x19, 0x3b, 0x26, 0x9c, 0x7a,
       0x5e, 0x23, 0x23, 0xbe, 0x69, 0x1c, 0xef, 0x60, 0x52, 0x36, 0xbd, 0x54, 0x0c],
      [0x72, 0x37, 0x8a, 0xbe, 0x6d, 0x14, 0x39, 0x78, 0xb1, 0xe5, 3, 0x1e, 0x88, 0x10, 0x1e, 0xfa,
       0xbe, 0x18, 0x0c, 0xca, 0xf8, 0x45, 0x9b, 0x83, 0x78, 0x62, 0x42, 0x44, 0xfd, 0x5c, 1]]"
| "ref_frames FMT_RTP_EFR =
     [[0xc5, 0x51, 0x73, 0x2c, 0xef, 0x8f, 0xd6, 0, 0, 0, 0, 1, 0xb5, 0xe9, 0x8d, 0xc6, 0x43, 0x95,
       0xe7, 0xac, 0x4c, 0x47, 0xd9, 0x63, 0x8f, 0x70, 0x64, 0xa6, 0xcb, 0xd2, 0xa3],
      [0xc4, 0xee, 0xc5, 0x17, 0xdb, 0x62, 0x89, 0xc1, 0xe8, 0xda, 0x7c, 7, 0x81, 0x10, 0x87, 0x85,
       0xf7, 0xd1, 0x83, 5, 0x31, 0xfa, 0x2d, 0x9c, 0x11, 0xe4, 0x64, 0x22, 0x2b, 0xf3, 0xa8]]"
| "ref_frames FMT_TI_EFR =
     [[0x3f, 0x3f, 0xac, 0xa5, 0x5c, 0xd1, 0xdb, 0x42, 0, 2, 0x82, 0x61, 0x28, 0x76, 0xf4, 0x10,
       0x0e, 0xc1, 0x53, 0xbf, 0x38, 0x7f, 0x88, 0, 0x80, 0x20, 0x48, 0x39, 6, 0xaa, 0xe0, 0, 0],
      [0x88, 0x1d, 0x0d, 0x9a, 0x0b, 0x3d, 0x51, 0x80, 0x80, 0x49, 0xd0, 0x4b, 1, 0x25, 0xb2, 0xe2,
       0xf6, 0x2a, 0x4f, 0xe1, 0x61, 0x29, 4, 0x20, 0x10, 0x0f, 0x7f, 0xdd, 0xb2, 0x84, 0xe2, 0, 0]]"
| "ref_frames FMT_RACAL_HR =
     [[0xba, 0x5f, 0x0c, 0xcc, 0x2a, 0xfe, 0x98, 0x7c, 0x80, 0x41, 0x61, 0, 0xda, 0xa2],
      [0x1c, 0, 0x48, 0x74, 0, 0xc0, 0xcb, 0x8a, 0xa4, 0xdc, 0xd5, 0xa0, 0xfd, 0x86]]"
| "ref_frames FMT_TI_HR =
     [[0x5d, 0xfa, 0x30, 0x33, 0x54, 0x7f, 0x19, 0x3e, 1, 0x82, 0x86, 0, 5, 0xb4, 0x50, 0, 0, 0, 0,
       0, 0, 0, 0, 0, 0, 0, 0, 0, 0, 0, 0, 0, 0],
      [0x38, 0, 0x12, 0x2e, 0, 3, 0xd3, 0x51, 0x25, 0x3b, 0xab, 4, 0x1b, 0xf6, 0x10, 0, 0, 0, 0, 0,
       0, 0, 0, 0, 0, 0, 0, 0, 0, 0, 0, 0, 0]]"
| "ref_frames FMT_RTP_HR_ETSI =
     [[0, 0xd8, 0xbf, 0x68, 0x8c, 0x98, 0xc1, 0xf6, 1, 0x73, 0x55, 0x28, 0xb6, 0x85],
      [0, 0xd8, 0xb9, 0x65, 0x9b, 0xe2, 0x40, 0x22, 0xc8, 7, 0x43, 1, 0x7f, 0x60]]"
| "ref_frames FMT_RTP_HR_IETF =
     [[0, 0, 0xd8, 0xbf, 0x68, 0x8c, 0x98, 0xc1, 0xf6, 1, 0x73, 0x55, 0x28, 0xb6, 0x85],
      [0, 0, 0xd8, 0xb9, 0x65, 0x9b, 0xe2, 0x40, 0x22, 0xc8, 7, 0x43, 1, 0x7f, 0x60]]"
| "ref_frames _ = []"

section \<open>Reordered frames\<close>

definition picked :: "buf \<Rightarrow> (nat \<Rightarrow> nat option) \<Rightarrow> nat \<Rightarrow> bool" where
  "picked c h i = (case h i of None \<Rightarrow> False | Some s \<Rightarrow> msb_bits c ! s)"

text \<open>
  A frame is the reordered canonical frame \<open>c\<close> when its bits are, in their order, the bits that
  the map picks, with zeros in the gaps.
\<close>

lemma reordered_picked:
  assumes d: "\<And>i j. d i = d j \<longleftrightarrow> i = (j :: nat)" and l: "length fr = l"
    and at: "\<And>i. i < n \<Longrightarrow> d i < 8 * l \<and> bits_by p fr ! d i = picked c h i"
    and gap: "\<And>k. k < 8 * l \<Longrightarrow> (\<forall>i<n. d i \<noteq> k) \<Longrightarrow> \<not> bits_by p fr ! k"
  shows "reordered l (\<lambda>i. map_option (\<lambda>s. (d i, s)) (h i)) n (msb_bits c) = bits_by p fr"
proof (rule list_eqI)
  let ?r = "reordered l (\<lambda>i. map_option (\<lambda>s. (d i, s)) (h i)) n (msb_bits c)"
  show "length ?r = length (bits_by p fr)" using l by simp
  fix k assume "k < length (bits_by p fr)"
  then have k: "k < 8 * l" using l by simp
  show "?r ! k = bits_by p fr ! k"
  proof (cases "\<exists>i<n. d i = k \<and> h i \<noteq> None")
    case True
    then obtain i s where i: "i < n" "d i = k" "h i = Some s" by auto
    then have "?r ! k = msb_bits c ! s"
      using k d by (intro reordered_bit [of _ _ i]) (auto simp: dest_inj_def)
    with at [OF i(1)] i show ?thesis by (simp add: picked_def)
  next
    case False
    then have "\<not> ?r ! k" using k by (intro reordered_gap) auto
    moreover have "\<not> bits_by p fr ! k"
      using False gap [OF k] at by (cases "\<exists>i<n. d i = k") (auto simp: picked_def)
    ultimately show ?thesis by simp
  qed
qed

lemma lsb_frame:
  assumes t: "is_perm n t" and n: "n \<le> 8 * l" and l: "length fr = l"
    and X: "lsb_bits fr = select (msb_bits c) t @ replicate (8 * l - n) False"
  shows "lsb_bytes (reordered l (\<lambda>i. Some (i, t ! i)) n (msb_bits c)) = fr"
proof -
  have len: "length t = n" by (rule is_perm_length [OF t])
  have "reordered l (\<lambda>i. map_option (\<lambda>s. (i, s)) (Some (t ! i))) n (msb_bits c) = bits_by lsb_pos fr"
  proof (rule reordered_picked [where h = "\<lambda>i. Some (t ! i)"])
    show "i < 8 * l \<and> bits_by lsb_pos fr ! i = picked c (\<lambda>i. Some (t ! i)) i" if "i < n" for i
      using that n len X by (simp add: select_def nth_append picked_def lsb_bits_def)
    show "\<not> bits_by lsb_pos fr ! k" if "k < 8 * l" "\<forall>i<n. i \<noteq> k" for k
      using that len X by (cases "k < n") (auto simp: select_def nth_append lsb_bits_def)
  qed (use l in simp_all)
  then show ?thesis by (simp flip: lsb_bits_def)
qed

lemma msb_frame:
  assumes g: "g \<le> n" "n + 4 \<le> 8 * l" and l: "length fr = l"
    and es: "es = map (picked c h) [0..<n]"
    and X: "msb_bits fr = take g es @ replicate 4 False @ drop g es @ replicate (8 * l - (n + 4)) False"
  shows "msb_bytes (reordered l (\<lambda>i. map_option (\<lambda>s. (ti_pos g i, s)) (h i)) n (msb_bits c)) = fr"
proof -
  have len: "length es = n" by (simp add: es)
  have "reordered l (\<lambda>i. map_option (\<lambda>s. (ti_pos g i, s)) (h i)) n (msb_bits c) = bits_by msb_pos fr"
  proof (rule reordered_picked [OF ti_pos_inj l])
    fix i assume i: "i < n"
    have "msb_bits fr ! ti_pos g i = es ! i"
      using i g len by (auto simp: X ti_pos_def nth_append min_def)
    then show "ti_pos g i < 8 * l \<and> bits_by msb_pos fr ! ti_pos g i = picked c h i"
      using i g by (auto simp: es ti_pos_def msb_bits_def)
  next
    fix k assume k: "k < 8 * l" "\<forall>i<n. ti_pos g i \<noteq> k"
    have "\<not> msb_bits fr ! k"
    proof (cases "k < n + 4")
      case True
      then show ?thesis using ti_pos_gap [OF k(2)] g len by (auto simp: X nth_append min_def)
    next
      case False
      then show ?thesis using k(1) g len by (auto simp: X nth_append min_def)
    qed
    then show "\<not> bits_by msb_pos fr ! k" by (simp add: msb_bits_def)
  qed
  then show ?thesis by (simp flip: msb_bits_def)
qed

lemma msb_table_frame:
  assumes t: "is_perm n t" and g: "g \<le> n" "n + 4 \<le> 8 * l" and l: "length fr = l"
    and X: "msb_bits fr = take g (select (msb_bits c) t) @ replicate 4 False @
      drop g (select (msb_bits c) t) @ replicate (8 * l - (n + 4)) False"
  shows "msb_bytes (reordered l (\<lambda>i. Some (ti_pos g i, t ! i)) n (msb_bits c)) = fr"
proof -
  have "select (msb_bits c) t = map (picked c (\<lambda>i. Some (t ! i))) [0..<n]"
    using is_perm_length [OF t] by (intro nth_equalityI) (simp_all add: picked_def select_def)
  from msb_frame [OF g l this X] show ?thesis by simp
qed

lemma ref_efr_index: "map efr_index (take 244 (gsm660_bitorder ref_tables)) =
     [Some 38, Some 39, Some 40, Some 41, Some 42, Some 43, Some 141, Some 142, Some 143, Some 144,
      Some 145, Some 146, Some 91, Some 92, Some 194, Some 195, Some 47, Some 86, Some 97, Some 136,
      Some 44, Some 147, Some 93, Some 196, Some 1, Some 2, Some 7, Some 9, Some 17, Some 18, Some
      23, Some 45, Some 46, Some 148, Some 149, Some 94, Some 197, Some 3, Some 4, Some 10, Some 11,
      Some 15, Some 8, Some 5, Some 6, Some 12, Some 16, Some 19, Some 95, Some 198, Some 0, Some
      13, Some 14, Some 20, Some 24, Some 25, Some 27, Some 150, Some 200, Some 189, Some 239, Some
      87, Some 137, Some 190, Some 240, None, None, None, None, None, None, None, None, Some 48,
      Some 98, Some 151, Some 201, Some 21, Some 22, Some 26, Some 28, Some 51, Some 55, Some 59,
      Some 63, Some 67, Some 101, Some 105, Some 109, Some 113, Some 117, Some 154, Some 158, Some
      162, Some 166, Some 170, Some 204, Some 208, Some 212, Some 216, Some 220, Some 88, Some 138,
      Some 191, Some 241, Some 49, Some 99, Some 152, Some 202, Some 29, Some 30, Some 31, Some 32,
      Some 33, Some 34, Some 35, Some 96, Some 199, Some 52, Some 56, Some 60, Some 64, Some 68,
      Some 102, Some 106, Some 110, Some 114, Some 118, Some 155, Some 159, Some 163, Some 167, Some
      171, Some 205, Some 209, Some 213, Some 217, Some 221, Some 53, Some 57, Some 61, Some 65,
      Some 103, Some 107, Some 111, Some 115, Some 156, Some 160, Some 164, Some 168, Some 206, Some
      214, Some 218, Some 89, Some 139, Some 192, Some 242, Some 50, Some 100, Some 153, Some 203,
      Some 90, Some 140, Some 193, Some 243, Some 54, Some 58, Some 62, Some 66, Some 104, Some 108,
      Some 112, Some 116, Some 157, Some 161, Some 165, Some 169, Some 207, Some 215, Some 219, Some
      36, Some 37, Some 69, None, None, Some 119, None, None, Some 172, None, None, Some 222, None,
      None, Some 210, Some 211, Some 70, Some 120, Some 173, Some 223, Some 71, Some 74, Some 77,
      Some 80, Some 83, Some 121, Some 124, Some 127, Some 130, Some 133, Some 174, Some 177, Some
      180, Some 183, Some 186, Some 224, Some 227, Some 230, Some 233, Some 236, Some 72, Some 75,
      Some 78, Some 81, Some 84, Some 122, Some 125, Some 128, Some 131, Some 134, Some 175, Some
      178, Some 181, Some 184, Some 187, Some 225, Some 228, Some 231, Some 234, Some 237, Some 73,
      Some 76, Some 79, Some 82]"
  by (simp add: efr_index_def ref_tables_def)

section \<open>Every format writes its reference file\<close>

lemma racal_fr_frames: "map (racal_fr_enc ref_tables) (ref_canon CODEC_FR) = ref_frames FMT_RACAL_FR"
  unfolding racal_fr_enc_def racal_fr_map_def [abs_def] ref_canon.simps ref_frames.simps list.map
  by (intro arg_cong2 [where f = Cons] refl lsb_frame [OF ref_610])
     (simp_all add: bit_lists, simp_all only: select_rules ref_tables_def bit_tables.simps)

lemma ti_fr_frames: "map (ti_fr_enc ref_tables) (ref_canon CODEC_FR) = ref_frames FMT_TI_FR"
  unfolding ti_fr_enc_def ti_fr_map_def [abs_def] ref_canon.simps ref_frames.simps list.map
  by (intro arg_cong2 [where f = Cons] refl msb_table_frame [OF ref_610])
     (simp_all add: bit_lists, simp_all only: select_rules ref_tables_def bit_tables.simps)

lemma racal_efr_frames: "map racal_efr_enc (ref_canon CODEC_EFR) = ref_frames FMT_RACAL_EFR"
proof -
  have "racal_efr_enc c = lsb_bytes (reordered 31 (\<lambda>i. Some (i, [0..<244] ! i)) 244 (msb_bits c))" for c
    unfolding racal_efr_enc_def by (rule arg_cong [where f = lsb_bytes], rule reordered_map_cong) (simp add: same_map_table)
  then show ?thesis
    unfolding ref_canon.simps ref_frames.simps list.map
    by (simp only:, intro arg_cong2 [where f = Cons] refl lsb_frame [OF is_perm_upt])
       (simp_all add: bit_lists upt_from_0 upt_rec_numeral, simp_all only: select_rules)
qed

lemma amr_efr_frames: "map (amr_efr_enc ref_tables) (ref_canon CODEC_EFR) = ref_frames FMT_AMR_EFR"
proof -
  let ?t = "gsm690_12_2_bitorder ref_tables"
  have "amr_efr_enc ref_tables c =
      0x3c # msb_bytes (reordered 31 (\<lambda>i. Some (ti_pos 244 i, ?t ! i)) 244 (msb_bits c))" for c
    unfolding amr_efr_enc_def
    by (rule arg_cong [where f = "\<lambda>b. 0x3c # msb_bytes b"], rule reordered_map_cong)
       (simp add: amr_efr_map_def ti_pos_def)
  then show ?thesis
    unfolding ref_canon.simps ref_frames.simps list.map
    by (simp only:, intro arg_cong2 [where f = Cons] refl msb_table_frame [OF ref_690])
       (simp_all add: bit_lists, simp_all only: select_rules ref_tables_def bit_tables.simps)
qed

lemma ti_efr_frames: "map (ti_efr_enc ref_tables) (ref_canon CODEC_EFR) = ref_frames FMT_TI_EFR"
proof -
  let ?t = "gsm660_bitorder ref_tables"
  have es: "select_opt (msb_bits c) (map efr_index (take 244 ?t)) = map (picked c (\<lambda>i. efr_index (?t ! i))) [0..<244]" for c
    using is_perm_length [OF ref_660]
    by (intro nth_equalityI) (simp_all add: select_opt_def picked_def split: option.split)
  show ?thesis
    unfolding ref_canon.simps ref_frames.simps list.map ti_efr_enc_def ti_efr_map_def [abs_def]
    by (intro arg_cong2 [where f = Cons] refl msb_frame [OF _ _ _ es])
       (simp_all add: bit_lists ref_efr_index, simp_all only: select_rules)
qed

lemma racal_hr_frames: "map (racal_hr_enc ref_tables) (ref_canon CODEC_HR) = ref_frames FMT_RACAL_HR"
  unfolding racal_hr_enc_def racal_hr_map_def [abs_def] ref_canon.simps ref_frames.simps list.map
  by (intro arg_cong2 [where f = Cons] refl lsb_frame [OF bit_mapping_perm [OF good_ref_tables]])
     (simp_all add: bit_lists bit_mapping_def hr_voiced_def, simp_all only: select_rules ref_tables_def bit_tables.simps)

lemma ti_hr_frames: "map (ti_hr_enc ref_tables) (ref_canon CODEC_HR) = ref_frames FMT_TI_HR"
  unfolding ti_hr_enc_def ti_hr_map_def [abs_def] ref_canon.simps ref_frames.simps list.map
  by (intro arg_cong2 [where f = Cons] refl msb_table_frame [OF bit_mapping_perm [OF good_ref_tables]])
     (simp_all add: bit_lists bit_mapping_def hr_voiced_def, simp_all only: select_rules ref_tables_def bit_tables.simps)

lemma nibble_frame:
  "msb_bits fr = nibble m @ take (8 * length c - 4) (msb_bits c) \<Longrightarrow> add_nibble m c = fr"
  by (metis add_nibble_def msb_bytes_msb_bits)

lemma gsm_frames: "map (add_nibble GSM_MAGIC) (ref_canon CODEC_FR) = ref_frames FMT_GSM"
  unfolding ref_canon.simps ref_frames.simps list.map
  by (intro arg_cong2 [where f = Cons] refl nibble_frame) (simp_all add: bit_lists nibble_def)

lemma rtp_efr_frames: "map (add_nibble EFR_MAGIC) (ref_canon CODEC_EFR) = ref_frames FMT_RTP_EFR"
  unfolding ref_canon.simps ref_frames.simps list.map
  by (intro arg_cong2 [where f = Cons] refl nibble_frame) (simp_all add: bit_lists nibble_def)

end
