(* ===== verification/Conformance.thy ===== *)
theory Conformance
  imports Examples Reference_Frames
begin

text \<open>
  The program on the frames recorded in \<^verbatim>\<open>tests/ref-files\<close>: the conversions between the formats of one
  codec listed in \<^verbatim>\<open>tests/common.sh\<close> give the recorded frames in both directions, but for the reading of
  TI EFR, which loses bits, and \<^verbatim>\<open>main\<close> called with two such files writes the one from the other,
  header included (\<open>reference_files_reproduced\<close>).
\<close>

definition ref_formats :: "format_type list" where
  "ref_formats = [FMT_GSM, FMT_RACAL_FR, FMT_TI_FR, FMT_AMR_EFR, FMT_RACAL_EFR, FMT_RTP_EFR, FMT_TI_EFR,
     FMT_RACAL_HR, FMT_TI_HR, FMT_RTP_HR_ETSI, FMT_RTP_HR_IETF]"

lemma ref_formats_cases:
  assumes "t \<in> set ref_formats"
  obtains "t \<in> {FMT_GSM, FMT_RACAL_FR, FMT_TI_FR}" "codec_of t = CODEC_FR"
    | "t \<in> {FMT_AMR_EFR, FMT_RACAL_EFR, FMT_RTP_EFR, FMT_TI_EFR}" "codec_of t = CODEC_EFR"
    | "t \<in> {FMT_RACAL_HR, FMT_TI_HR, FMT_RTP_HR_ETSI, FMT_RTP_HR_IETF}" "codec_of t = CODEC_HR"
  using assms by (auto simp: ref_formats_def codec_of_def fmt_defs)

lemma ref_formats_fixed: "t \<in> set ref_formats \<Longrightarrow> fixed_len t \<and> codec_of t \<noteq> CODEC_AMR"
  by (auto simp: ref_formats_def fixed_len_def codec_of_def fmt_defs)

text \<open>From the canonical frames, every format writes the frames of its reference file.\<close>

lemma ref_enc:
  assumes "t \<in> set ref_formats"
  shows "map (fmt_enc Little ref_tables t) (ref_canon (codec_of t)) = ref_frames t"
  using assms
proof (cases rule: ref_formats_cases)
  case 1
  then show ?thesis
    by (auto simp only: fmt_enc_abs insert_iff empty_iff gsm_frames racal_fr_frames ti_fr_frames)
next
  case 2
  then show ?thesis
    by (auto simp only: fmt_enc_abs insert_iff empty_iff amr_efr_frames racal_efr_frames rtp_efr_frames ti_efr_frames)
next
  case 3
  then show ?thesis
    by (auto simp only: fmt_enc_abs insert_iff empty_iff racal_hr_frames ti_hr_frames) simp_all
qed

lemma ref_canon_ok:
  assumes "t \<in> set ref_formats" and "c \<in> set (ref_canon (codec_of t))"
  shows "fmt_canon_ok Little ref_tables t c"
proof -
  have "padded 260 33 c" if "c \<in> set (ref_canon CODEC_FR)"
    using that by (auto simp: padded_def bit_lists replicate_numeral)
  moreover have "padded 244 31 c \<and> c \<noteq> replicate 31 0" if "c \<in> set (ref_canon CODEC_EFR)"
    using that by (auto simp: padded_def bit_lists replicate_numeral)
  moreover have "length c = 14" if "c \<in> set (ref_canon CODEC_HR)"
    using that by auto
  ultimately show ?thesis
    using assms by (auto simp: fmt_canon_ok_def fd_codec_type_of elim: ref_formats_cases)
qed

text \<open>From those frames, every format but TI EFR reads the canonical frames back.\<close>

lemma ref_dec:
  assumes t: "t \<in> set ref_formats" "t \<noteq> FMT_TI_EFR"
  shows "map (fmt_dec Little ref_tables t) (ref_frames t) = ref_canon (codec_of t)"
    and "fr \<in> set (ref_frames t) \<Longrightarrow> fmt_frame_ok t fr"
proof -
  note A = fmt_lossless [OF good_ref_tables ref_formats_fixed [OF t(1), THEN conjunct1] t(2), of Little]
  have "fmt_dec Little ref_tables t (fmt_enc Little ref_tables t c) = c \<and>
      fmt_frame_ok t (fmt_enc Little ref_tables t c)" if "c \<in> set (ref_canon (codec_of t))" for c
    using lossless_format.dec_enc [OF A] lossless_format.frame_ok_enc [OF A] ref_canon_ok [OF t(1) that] by blast
  then show "map (fmt_dec Little ref_tables t) (ref_frames t) = ref_canon (codec_of t)"
    and "fr \<in> set (ref_frames t) \<Longrightarrow> fmt_frame_ok t fr"
    unfolding ref_enc [OF t(1), symmetric] by (auto simp: map_idI)
qed

text \<open>So the frames of one reference file are converted to those of every other of its codec.\<close>

lemma ref_convert:
  assumes a: "a \<in> set ref_formats" and b: "b \<in> set ref_formats" and c: "codec_of a = codec_of b"
    and l: "a = b \<or> a \<noteq> FMT_TI_EFR"
  shows "map (convert Little ref_tables a b) (ref_frames a) = ref_frames b"
    and "\<forall>fr \<in> set (ref_frames a). accepted a b fr"
proof -
  have "map (fmt_enc Little ref_tables b) (map (fmt_dec Little ref_tables a) (ref_frames a)) = ref_frames b"
    if "a \<noteq> b"
    using ref_dec(1) [OF a] ref_enc [OF b] l c that by simp
  then show "map (convert Little ref_tables a b) (ref_frames a) = ref_frames b"
    by (cases "a = b") (simp_all add: convert_def [abs_def] comp_def)
  show "\<forall>fr \<in> set (ref_frames a). accepted a b fr"
    using ref_dec(2) [OF a] l by (auto simp: accepted_def)
qed

section \<open>The program on the reference files\<close>

definition ref_file :: "format_type \<Rightarrow> buf" where
  "ref_file t = fd_header (fmt_of Little ref_tables t) @ concat (ref_frames t)"

lemma ref_frames_lengths:
  assumes "t \<in> set ref_formats"
  shows "\<forall>fr \<in> set (ref_frames t). length fr = frame_len_of t" and "length (ref_frames t) = 2"
  using assms by (auto simp: ref_formats_def frame_len_of_def fmt_defs)

text \<open>
  The program, called with the first two frames of a reference file as its input, writes those
  of the reference file of the other format.
\<close>

lemma reference_files_reproduced:
  fixes E :: "('c, 'x) env"
  assumes E: "e_endian E = Little" "e_tables E = ref_tables"
    and there: "files_there E x y a b fh f fh2 f2" and w: "w_mem w = []" "w_bench w = (\<lambda>_. None)"
    and fmts: "a \<in> set ref_formats" "b \<in> set ref_formats" "codec_of a = codec_of b" "a = b \<or> a \<noteq> FMT_TI_EFR"
    and inp: "drop (fl_pos f) (fl_data f) = ref_file a" and out: "fl_data f2 = []" "fl_room f2 = None"
  shows "\<exists>w'. app_main E (\<lambda>_. False) ts (file_args x y a b) w =
      Some (Inr (0, [Closed_File fh, Closed_File fh2], w')) \<and>
    fl_data (w_files w' fh2) = ref_file b \<and> w_live w' = w_live w"
proof -
  have "0 < frame_len_of a" using fmts(1) by (auto simp: ref_formats_def frame_len_of_def fmt_defs)
  then have "ref_frames a = frames (frame_len_of a) (concat (ref_frames a))"
    using frames_concat ref_frames_lengths(1) [OF fmts(1)] by metis
  moreover have "length (ref_frames a) = 2" by (rule ref_frames_lengths(2) [OF fmts(1)])
  ultimately show ?thesis
    using main_files_convert [OF there w fmts(3) out(2), of "concat (ref_frames a)" "ref_frames a" ts]
      inp ref_convert [OF fmts]
    by (simp add: ref_file_def E out(1))
qed

text \<open>With these tables TI EFR loses bits.\<close>

lemma ti_efr_ref_lossy: "\<exists>c. padded 244 31 c \<and> ti_efr_dec ref_tables (ti_efr_enc ref_tables c) \<noteq> c"
proof -
  have "87 \<in> set (drop 244 (gsm660_bitorder ref_tables))" "efr_index 87 = Some 85"
    by (simp_all only: select_rules ref_tables_def bit_tables.simps) (simp_all add: efr_index_def)
  then show ?thesis using ti_efr_lossless_iff [OF good_ref_tables] by fastforce
qed

end
