(* ===== verification/Queue_Test.thy ===== *)
theory Queue_Test
  imports Startup Help
begin

text \<open>
  The test program of the queue, \<^verbatim>\<open>tests/procqueue/pq_test.c\<close>, over the model: the operations of
  \<^theory_text>\<open>Procqueue\<close> in the order of its \<^verbatim>\<open>main\<close>, its assertions as faults, and its standard output
  as the component \<open>w_ext\<close> of the world. The listings that talloc prints of its chunks are left
  out, and the comparisons of item pointers, which have no counterpart here; that nothing stays
  allocated is stated with the count of live allocations. The program passes and prints the lines
  that \<^verbatim>\<open>tests/procqueue/pq_test.ok\<close> expects of it.
\<close>

type_synonym test_world = "string world"
type_synonym test_queue = "(string, test_world) pq"

definition say :: "string \<Rightarrow> test_world \<Rightarrow> test_world" where
  "say s w = w\<lparr>w_ext := w_ext w @ s\<rparr>"

definition headline :: "string \<Rightarrow> test_world \<Rightarrow> test_world" where
  "headline s w = say (s @ nl) w"

section \<open>The callbacks\<close>

definition q3_i0_proc :: "(string, test_world) proc" where
  "q3_i0_proc st out inp in_len w =
     bind_r (deref out) (\<lambda>d.
     bind_r (for_loop [0..<10] (\<lambda>i (d, w).
               bind_r (wr d i (of_nat i)) (\<lambda>d. Inr (d, say (decimal i @ '' '') w)))
             (d, say ''Incoming data: '' w)) (\<lambda>(d, w).
     Inr (0, st, Some d, say nl w)))"

definition q3_i1_proc :: "(string, test_world) proc" where
  "q3_i1_proc st out inp in_len w =
     bind_r (deref out) (\<lambda>d. bind_r (deref inp) (\<lambda>s.
     bind_r (for_loop [0..<10] (\<lambda>i d. bind_r (rd s i) (\<lambda>x. wr d i (x mod 2))) d) (\<lambda>d.
     Inr (0, st, Some d, w))))"

definition q3_i2_proc :: "(string, test_world) proc" where
  "q3_i2_proc st out inp in_len w =
     bind_r (deref inp) (\<lambda>s.
     bind_r (for_loop [0..<10] (\<lambda>i w. bind_r (rd s i) (\<lambda>x. Inr (say (decimal (unat x) @ '' '') w)))
             (say ''Outgoing data: '' w)) (\<lambda>w.
     Inr (0, st, out, say nl w)))"

text \<open>The state of an item is the item itself; the callback prints its two names.\<close>

definition q3_exit :: "string option \<Rightarrow> test_world \<Rightarrow> test_world res" where
  "q3_exit st w =
     bind_r (assert_c (st \<noteq> None)) (\<lambda>_. bind_r (deref st) (\<lambda>names.
     Inr (say (''Calling exit callback for '' @ [CHR 0x27] @ names @ [CHR 0x27] @ nl) w)))"

section \<open>The stages of the test\<close>

fun add_items :: "nat \<Rightarrow> test_queue \<Rightarrow> test_world \<Rightarrow> (test_queue \<times> test_world) res" where
  "add_items 0 pq w = Inr (pq, w)"
| "add_items (Suc n) pq w =
     bind_r (pq_add_item pq w) (\<lambda>(ok, pq, w). bind_r (assert_c ok) (\<lambda>_. add_items n pq w))"

definition upd_item :: "nat \<Rightarrow> ((string, test_world) item \<Rightarrow> (string, test_world) item) \<Rightarrow> test_queue \<Rightarrow> test_queue" where
  "upd_item k f pq = pq\<lparr>pq_items := (pq_items pq)[k := f (pq_items pq ! k)]\<rparr>"

definition set_lens :: "nat \<Rightarrow> nat \<Rightarrow> nat \<Rightarrow> test_queue \<Rightarrow> test_queue" where
  "set_lens k li lo = upd_item k (\<lambda>item. item\<lparr>it_len_in := li, it_len_out := lo\<rparr>)"

definition set_type :: "nat \<Rightarrow> item_type \<Rightarrow> test_queue \<Rightarrow> test_queue" where
  "set_type k t = upd_item k (\<lambda>item. item\<lparr>it_type := t\<rparr>)"

definition set_names :: "nat \<Rightarrow> string \<Rightarrow> string \<Rightarrow> test_queue \<Rightarrow> test_queue" where
  "set_names k c s = upd_item k (\<lambda>item. item\<lparr>it_cat_name := Some c, it_sub_name := Some s\<rparr>)"

definition set_proc :: "nat \<Rightarrow> (string, test_world) proc \<Rightarrow> test_queue \<Rightarrow> test_queue" where
  "set_proc k p = upd_item k (\<lambda>item. item\<lparr>it_proc := Some p\<rparr>)"

definition set_exit :: "nat \<Rightarrow> test_queue \<Rightarrow> test_queue" where
  "set_exit k = upd_item k (\<lambda>item. item\<lparr>it_state := Some (cstr (it_cat_name item) @ ''/'' @ cstr (it_sub_name item)),
     it_exit := Some q3_exit\<rparr>)"

definition expect_check :: "(int \<Rightarrow> bool) \<Rightarrow> bool \<Rightarrow> test_queue \<Rightarrow> unit res" where
  "expect_check P strict pq = bind_r (pq_check pq strict) (\<lambda>rc. assert_c (P rc))"

definition check_stage :: "test_queue \<Rightarrow> test_queue res" where
  "check_stage q3 =
     (let q3 = set_lens 2 30 10 (set_lens 1 20 30 (set_lens 0 10 20 q3))
      in bind_r (expect_check (\<lambda>rc. rc = 0) False q3) (\<lambda>_.
         bind_r (expect_check (\<lambda>rc. rc \<noteq> 0) False (set_lens 0 10 10 q3)) (\<lambda>_.
         let q3 = set_type 2 TYPE_SINK (set_type 1 TYPE_PROC (set_type 0 TYPE_SOURCE q3))
         in bind_r (expect_check (\<lambda>rc. rc = 0) True q3) (\<lambda>_.
            bind_r (expect_check (\<lambda>rc. rc \<noteq> 0) True (set_type 0 TYPE_PROC q3)) (\<lambda>_.
            Inr q3)))))"

definition prepare_stage :: "test_queue \<Rightarrow> test_world \<Rightarrow> (test_queue \<times> test_world) res" where
  "prepare_stage q3 w =
     bind_r (pq_prepare q3 w) (\<lambda>(rc, q3, w).
     bind_r (assert_c (rc = 0)) (\<lambda>_.
     bind_r (assert_c (map (map_option length) (map it_buf (pq_items q3)) = [Some 20, Some 30, None])) (\<lambda>_.
     Inr (q3, w))))"

definition describe_one :: "string \<Rightarrow> test_queue \<Rightarrow> test_world \<Rightarrow> test_world res" where
  "describe_one name pq w =
     bind_r (pq_describe pq w) (\<lambda>(desc, w).
     bind_r (deref desc) (\<lambda>d.
     Inr (release (say (''Queue '' @ name @ '' description: '' @ d @ nl) w))))"

definition describe_stage ::
    "test_queue \<Rightarrow> test_queue \<Rightarrow> test_queue \<Rightarrow> test_queue \<Rightarrow> test_world \<Rightarrow>
     (test_queue \<times> test_queue \<times> test_queue \<times> test_world) res" where
  "describe_stage q0 q1 q2 q3 w =
     bind_r (pq_describe q0 w) (\<lambda>(desc, w).
     bind_r (assert_c (desc = None)) (\<lambda>_.
     let q3 = set_names 2 ''sink'' ''alsa'' (set_names 1 ''proc'' ''dummy'' (set_names 0 ''source'' ''file'' q3));
         q2 = set_names 1 ''sink'' ''dummy'' (set_names 0 ''source'' ''dummy'' q2);
         q1 = set_names 0 ''dummy'' ''dummy'' q1
     in bind_r (describe_one ''q3'' q3 w) (\<lambda>w. bind_r (describe_one ''q2'' q2 w) (\<lambda>w.
        bind_r (describe_one ''q1'' q1 w) (\<lambda>w. Inr (q1, q2, q3, w))))))"

definition execute_stage :: "test_queue \<Rightarrow> test_world \<Rightarrow> (test_queue \<times> test_world) res" where
  "execute_stage q3 w =
     bind_r (assert_c (list_all (\<lambda>item. it_proc item = None \<and> it_wait item = None \<and> it_exit item = None) (pq_items q3))) (\<lambda>_.
     bind_r (pq_execute (set_proc 2 q3_i2_proc (set_proc 1 q3_i1_proc (set_proc 0 q3_i0_proc q3))) w) (\<lambda>(rc, q3, w).
     bind_r (assert_c (rc = 0)) (\<lambda>_. Inr (q3, w))))"

definition pq_test :: "test_world \<Rightarrow> test_world res" where
  "pq_test w =
     (let w = headline ''Processing queue allocation test:'' w;
          (q0, w) = pq_create None w; (q1, w) = pq_create (Some ''q1'') w;
          (q2, w) = pq_create (Some ''q2'') w; (q3, w) = pq_create (Some ''q3'') w
      in bind_r (deref q0) (\<lambda>q0. bind_r (deref q1) (\<lambda>q1. bind_r (deref q2) (\<lambda>q2. bind_r (deref q3) (\<lambda>q3.
         let w = headline ''Item allocation test:'' (say nl w)
         in bind_r (assert_c (map pq_n_items [q0, q1, q2, q3] = [0, 0, 0, 0])) (\<lambda>_.
         bind_r (add_items 3 q3 w) (\<lambda>(q3, w). bind_r (add_items 2 q2 w) (\<lambda>(q2, w). bind_r (add_items 1 q1 w) (\<lambda>(q1, w).
         bind_r (assert_c (map pq_n_items [q0, q1, q2, q3] = [0, 1, 2, 3])) (\<lambda>_.
         let w = say nl w
         in bind_r (assert_c (map (\<lambda>q. pq_items q = []) [q0, q1, q2, q3] = [True, False, False, False])) (\<lambda>_.
         bind_r (check_stage q3) (\<lambda>q3.
         bind_r (prepare_stage q3 (headline ''Queue preparation test:'' w)) (\<lambda>(q3, w).
         bind_r (describe_stage q0 q1 q2 q3 (headline ''Queue description test:'' (say nl w))) (\<lambda>(q1, q2, q3, w).
         bind_r (execute_stage q3 (headline ''Processing queue execution test:'' (say nl w))) (\<lambda>(q3, w).
         let w = headline ''Processing queue exit callback test:'' (say nl w);
             q3 = set_exit 2 (set_exit 1 (set_exit 0 q3))
         in bind_r (pq_destroy (Some q0) w) (\<lambda>w. bind_r (pq_destroy (Some q1) w) (\<lambda>w.
            bind_r (pq_destroy (Some q2) w) (\<lambda>w. bind_r (pq_destroy (Some q3) w) (\<lambda>w.
            Inr (headline ''Processing queue deallocation test:'' (say nl w)))))))))))))))))))))"

section \<open>The test passes\<close>

definition blank_item :: "nat \<Rightarrow> nat \<Rightarrow> item_type \<Rightarrow> (string, test_world) item" where
  "blank_item li lo t = zero_item\<lparr>it_len_in := li, it_len_out := lo, it_type := t\<rparr>"

lemma decimal_digit: "n < 10 \<Longrightarrow> decimal n = [char_of (48 + n)]"
  by (simp add: decimal.simps)

lemma say_simps [simp]:
  "w_mem (say s w) = w_mem w" "w_live (say s w) = w_live w" "w_ext (say s w) = w_ext w @ s"
  "say t (say s w) = say (s @ t) w"
  by (simp_all add: say_def)

lemma decimals:
  "decimal 0 = ''0''" "decimal (Suc 0) = ''1''" "decimal 2 = ''2''" "decimal 3 = ''3''" "decimal 4 = ''4''"
  "decimal 5 = ''5''" "decimal 6 = ''6''" "decimal 7 = ''7''" "decimal 8 = ''8''" "decimal 9 = ''9''"
  by (simp_all add: decimal_digit char_of_eq_iff)

lemma first_ten: "[0..<10] = [0, 1, 2, 3, 4, 5, 6, 7, 8, 9 :: nat]"
  by (simp add: upt_rec)

lemma add_items_ok:
  assumes "w_mem w = []" and "all_live (pq_items pq)"
  shows "\<exists>w'. add_items n pq w =
     Inr (pq\<lparr>pq_items := pq_items pq @ replicate n zero_item, pq_n_items := pq_n_items pq + n\<rparr>, w') \<and>
     w_mem w' = [] \<and> w_ext w' = w_ext w \<and> w_live w' = w_live w + int n"
  using assms
proof (induction n arbitrary: pq w)
  case (Suc n)
  have "pq_add_item pq w = Inr (True, pq\<lparr>pq_items := pq_items pq @ [zero_item], pq_n_items := pq_n_items pq + 1\<rparr>,
      w\<lparr>w_allocs := w_allocs w + 1, w_live := w_live w + 1\<rparr>)"
    using pq_add_item_ok [OF Suc.prems] Suc.prems(1) by simp
  with Suc.IH [of "w\<lparr>w_allocs := w_allocs w + 1, w_live := w_live w + 1\<rparr>"
      "pq\<lparr>pq_items := pq_items pq @ [zero_item], pq_n_items := pq_n_items pq + 1\<rparr>"] Suc.prems
  show ?case by (auto simp: mem_simps all_live_def zero_item_def)
qed simp

lemma describe_items_frame:
  "w_mem w = [] \<Longrightarrow> describe_items n i items result w = Inr (r, w') \<Longrightarrow>
     w_ext w' = w_ext w \<and> w_live w' = w_live w + of_bool (result = None \<and> items \<noteq> [])"
  by (induction n i items result w rule: describe_items.induct)
     (auto simp: Let_def split: if_splits)

lemma check_stage_ok:
  assumes "pq_items q3 = replicate 3 zero_item"
  shows "check_stage q3 =
    Inr (q3\<lparr>pq_items := [blank_item 10 20 TYPE_SOURCE, blank_item 20 30 TYPE_PROC, blank_item 30 10 TYPE_SINK]\<rparr>)"
  using assms
  by (simp add: check_stage_def set_lens_def set_type_def upd_item_def expect_check_def pq_check_def blank_item_def
      zero_item_def assert_c_def numeral_3_eq_3 numeral_2_eq_2)

lemma prepare_stage_ok:
  assumes "pq_items q3 = [blank_item 10 20 TYPE_SOURCE, blank_item 20 30 TYPE_PROC, blank_item 30 10 TYPE_SINK]"
    and "w_mem w = []"
  shows "\<exists>d0 d1 w'. prepare_stage q3 w = Inr (q3\<lparr>pq_items :=
      [(blank_item 10 20 TYPE_SOURCE)\<lparr>it_buf := Some d0\<rparr>, (blank_item 20 30 TYPE_PROC)\<lparr>it_buf := Some d1\<rparr>,
       blank_item 30 10 TYPE_SINK]\<rparr>, w') \<and> length d0 = 20 \<and> length d1 = 30 \<and>
    w_mem w' = [] \<and> w_ext w' = w_ext w \<and> w_live w' = w_live w + 2"
  using assms
  by (simp add: prepare_stage_def pq_prepare_def blank_item_def zero_item_def assert_c_def Let_def)
     (intro exI conjI, rule refl, simp_all)

definition items_ready :: "buf \<Rightarrow> buf \<Rightarrow> (string, test_world) item list" where
  "items_ready d0 d1 =
     [(blank_item 10 20 TYPE_SOURCE)\<lparr>it_buf := Some d0, it_cat_name := Some ''source'', it_sub_name := Some ''file''\<rparr>,
      (blank_item 20 30 TYPE_PROC)\<lparr>it_buf := Some d1, it_cat_name := Some ''proc'', it_sub_name := Some ''dummy''\<rparr>,
      (blank_item 30 10 TYPE_SINK)\<lparr>it_cat_name := Some ''sink'', it_sub_name := Some ''alsa''\<rparr>]"

definition test_descriptions :: string where
  "test_descriptions =
     ''Queue q3 description: source/file -> proc/dummy -> sink/alsa'' @ nl @
     ''Queue q2 description: source/dummy -> sink/dummy'' @ nl @
     ''Queue q1 description: dummy/dummy'' @ nl"

lemma describe_one_ok:
  assumes "pq_items pq \<noteq> []" and "all_live (pq_items pq)" and "pq_n_items pq = length (pq_items pq)" and "w_mem w = []"
  shows "\<exists>w'. describe_one name pq w = Inr w' \<and> w_mem w' = [] \<and> w_live w' = w_live w \<and>
    w_ext w' = w_ext w @ ''Queue '' @ name @ '' description: '' @
      join '' -> '' (map label (pq_items pq)) @ nl"
proof -
  obtain w' where d: "describe_items (pq_n_items pq) 0 (pq_items pq) None w =
      Inr (Some (join '' -> '' (map label (pq_items pq))), w')" "w_mem w' = []"
    using describe_items_spec [OF assms(4,2), of 0 "pq_n_items pq" None] assms(1,3) by auto
  have "w_live w' = w_live w + 1" "w_ext w' = w_ext w"
    using describe_items_frame [OF assms(4) d(1)] assms(1) by simp_all
  then show ?thesis
    using d assms(1,3) by (auto simp: describe_one_def pq_describe_def)
qed

lemma loop_0_ok:
  assumes "10 \<le> length d"
  shows "q3_i0_proc st (Some d) inp n w = Inr (0, st, Some ([0, 1, 2, 3, 4, 5, 6, 7, 8, 9] @ drop 10 d),
     say (''Incoming data: 0 1 2 3 4 5 6 7 8 9 '' @ nl) w)"
proof -
  let ?w0 = "say ''Incoming data: '' w"
  let ?P = "\<lambda>k (d', w'). d' = map of_nat [0..<k] @ drop k d \<and>
    w' = say (concat (map (\<lambda>i. decimal i @ '' '') [0..<k])) ?w0"
  have "\<exists>s. for_loop [0..<10] (\<lambda>i (d, w). bind_r (wr d i (of_nat i)) (\<lambda>d. Inr (d, say (decimal i @ '' '') w)))
      (d, ?w0) = Inr s \<and> ?P 10 s"
  proof (rule for_loop_upt)
    show "?P 0 (d, ?w0)" by (simp add: say_def)
    show "\<exists>s'. (\<lambda>(d, w). bind_r (wr d i (of_nat i)) (\<lambda>d. Inr (d, say (decimal i @ '' '') w))) s = Inr s' \<and>
        ?P (Suc i) s'" if "i < 10" "?P i s" for i s
      using that assms by (cases s) (simp add: wr_def list_update_append Cons_nth_drop_Suc [symmetric])
  qed
  then show ?thesis
    by (auto simp: q3_i0_proc_def first_ten decimals simp del: for_loop.simps)
qed

lemma loop_1_ok:
  assumes "10 \<le> length d"
  shows "q3_i1_proc st (Some d) (Some ([0, 1, 2, 3, 4, 5, 6, 7, 8, 9] @ s)) n w =
     Inr (0, st, Some ([0, 1, 0, 1, 0, 1, 0, 1, 0, 1] @ drop 10 d), w)"
proof -
  let ?s = "[0, 1, 2, 3, 4, 5, 6, 7, 8, 9] @ s :: buf"
  have "for_loop [0..<10] (\<lambda>i d. bind_r (rd ?s i) (\<lambda>x. wr d i (x mod 2))) d =
      Inr (take 0 d @ map (\<lambda>i. ?s ! i mod 2) [0..<10] @ drop 10 d)"
    using assms by (intro for_loop_fill) (auto simp: mem_simps)
  also have "map (\<lambda>i. ?s ! i mod 2) [0..<10] = [0, 1, 0, 1, 0, 1, 0, 1, 0, 1]"
    by (simp add: first_ten)
  finally show ?thesis by (simp add: q3_i1_proc_def del: for_loop.simps)
qed

lemma loop_2_ok:
  "q3_i2_proc st out (Some ([0, 1, 0, 1, 0, 1, 0, 1, 0, 1] @ s)) n w =
     Inr (0, st, out, say (''Outgoing data: 0 1 0 1 0 1 0 1 0 1 '' @ nl) w)"
  by (simp add: q3_i2_proc_def first_ten mem_simps decimals)

lemma describe_stage_ok:
  assumes "pq_items q0 = []" "pq_n_items q0 = 0"
    and "pq_items q1 = [zero_item]" "pq_n_items q1 = 1"
    and "pq_items q2 = [zero_item, zero_item]" "pq_n_items q2 = 2"
    and "pq_items q3 = [(blank_item 10 20 TYPE_SOURCE)\<lparr>it_buf := Some d0\<rparr>,
      (blank_item 20 30 TYPE_PROC)\<lparr>it_buf := Some d1\<rparr>, blank_item 30 10 TYPE_SINK]" "pq_n_items q3 = 3"
    and "w_mem w = []"
  shows "\<exists>i1 i2 w'. describe_stage q0 q1 q2 q3 w =
      Inr (q1\<lparr>pq_items := i1\<rparr>, q2\<lparr>pq_items := i2\<rparr>, q3\<lparr>pq_items := items_ready d0 d1\<rparr>, w') \<and>
    list_all (\<lambda>item. it_live item \<and> it_exit item = None \<and> it_buf item = None) (i1 @ i2) \<and>
    length i1 = 1 \<and> length i2 = 2 \<and>
    w_mem w' = [] \<and> w_live w' = w_live w \<and> w_ext w' = w_ext w @ test_descriptions"
proof -
  define a3 where "a3 = set_names 2 ''sink'' ''alsa'' (set_names 1 ''proc'' ''dummy'' (set_names 0 ''source'' ''file'' q3))"
  define a2 where "a2 = set_names 1 ''sink'' ''dummy'' (set_names 0 ''source'' ''dummy'' q2)"
  define a1 where "a1 = set_names 0 ''dummy'' ''dummy'' q1"
  have a3: "a3 = q3\<lparr>pq_items := items_ready d0 d1\<rparr>"
    using assms(7) by (simp add: a3_def set_names_def upd_item_def items_ready_def numeral_2_eq_2)
  have a2: "a2 = q2\<lparr>pq_items := [zero_item\<lparr>it_cat_name := Some ''source'', it_sub_name := Some ''dummy''\<rparr>,
      zero_item\<lparr>it_cat_name := Some ''sink'', it_sub_name := Some ''dummy''\<rparr>]\<rparr>"
    using assms(5) by (simp add: a2_def set_names_def upd_item_def)
  have a1: "a1 = q1\<lparr>pq_items := [zero_item\<lparr>it_cat_name := Some ''dummy'', it_sub_name := Some ''dummy''\<rparr>]\<rparr>"
    using assms(3) by (simp add: a1_def set_names_def upd_item_def)
  obtain w3 where w3: "describe_one ''q3'' a3 w = Inr w3" "w_mem w3 = []" "w_live w3 = w_live w"
      "w_ext w3 = w_ext w @ ''Queue '' @ ''q3'' @ '' description: '' @ join '' -> '' (map label (pq_items a3)) @ nl"
    using describe_one_ok [of a3 w "''q3''"] assms(8,9)
    by (auto simp: a3 items_ready_def blank_item_def zero_item_def)
  obtain w2 where w2: "describe_one ''q2'' a2 w3 = Inr w2" "w_mem w2 = []" "w_live w2 = w_live w3"
      "w_ext w2 = w_ext w3 @ ''Queue '' @ ''q2'' @ '' description: '' @ join '' -> '' (map label (pq_items a2)) @ nl"
    using describe_one_ok [of a2 w3 "''q2''"] assms(6) w3(2) by (auto simp: a2 zero_item_def)
  obtain w1 where w1: "describe_one ''q1'' a1 w2 = Inr w1" "w_mem w1 = []" "w_live w1 = w_live w2"
      "w_ext w1 = w_ext w2 @ ''Queue '' @ ''q1'' @ '' description: '' @ join '' -> '' (map label (pq_items a1)) @ nl"
    using describe_one_ok [of a1 w2 "''q1''"] assms(4) w2(2) by (auto simp: a1 zero_item_def)
  have "describe_stage q0 q1 q2 q3 w = Inr (a1, a2, a3, w1)"
    using assms(2) w3(1) w2(1) w1(1)
    by (simp add: describe_stage_def pq_describe_def assert_c_def a1_def a2_def a3_def Let_def)
  moreover have "w_ext w1 = w_ext w @ test_descriptions"
    by (simp add: w1(4) w2(4) w3(4) a1 a2 a3 items_ready_def test_descriptions_def label_def cstr_def)
  moreover have "list_all (\<lambda>item. it_live item \<and> it_exit item = None \<and> it_buf item = None)
      (pq_items a1 @ pq_items a2)" "length (pq_items a1) = 1" "length (pq_items a2) = 2"
    by (simp_all add: a1 a2 zero_item_def)
  moreover have "a1 = q1\<lparr>pq_items := pq_items a1\<rparr>" "a2 = q2\<lparr>pq_items := pq_items a2\<rparr>"
    by (simp_all add: a1 a2)
  ultimately show ?thesis using w1(2,3) w2(3) w3(3) a3 by (intro exI conjI) (assumption | simp)+
qed

definition test_data :: string where
  "test_data = ''Incoming data: 0 1 2 3 4 5 6 7 8 9 '' @ nl @ ''Outgoing data: 0 1 0 1 0 1 0 1 0 1 '' @ nl"

definition items_run :: "buf \<Rightarrow> buf \<Rightarrow> (string, test_world) item list" where
  "items_run b0 b1 =
     [(blank_item 10 20 TYPE_SOURCE)\<lparr>it_buf := Some b0, it_proc := Some q3_i0_proc,
        it_cat_name := Some ''source'', it_sub_name := Some ''file''\<rparr>,
      (blank_item 20 30 TYPE_PROC)\<lparr>it_buf := Some b1, it_proc := Some q3_i1_proc,
        it_cat_name := Some ''proc'', it_sub_name := Some ''dummy''\<rparr>,
      (blank_item 30 10 TYPE_SINK)\<lparr>it_proc := Some q3_i2_proc,
        it_cat_name := Some ''sink'', it_sub_name := Some ''alsa''\<rparr>]"

lemma execute_stage_ok:
  assumes "pq_items q3 = items_ready d0 d1" "length d0 = 20" "length d1 = 30"
  shows "\<exists>b0 b1. execute_stage q3 w = Inr (q3\<lparr>pq_items := items_run b0 b1\<rparr>, say test_data w)"
proof -
  have "set_proc 2 q3_i2_proc (set_proc 1 q3_i1_proc (set_proc 0 q3_i0_proc q3)) =
      q3\<lparr>pq_items := items_run d0 d1\<rparr>"
    using assms(1)
    by (simp add: set_proc_def upd_item_def items_ready_def items_run_def blank_item_def zero_item_def numeral_2_eq_2)
  moreover have "exec_items None 0 (items_run d0 d1) w =
      Inr (0, items_run ([0, 1, 2, 3, 4, 5, 6, 7, 8, 9] @ drop 10 d0) ([0, 1, 0, 1, 0, 1, 0, 1, 0, 1] @ drop 10 d1),
        say test_data w)"
    using assms(2,3) loop_1_ok [of d1] loop_2_ok
    by (simp add: items_run_def blank_item_def zero_item_def test_data_def loop_0_ok)
  ultimately show ?thesis
    using assms(1)
    by (auto simp: execute_stage_def pq_execute_def assert_c_def items_ready_def blank_item_def zero_item_def)
qed

lemma destroy_plain:
  "list_all (\<lambda>item. it_live item \<and> it_exit item = None \<and> it_buf item = None) items \<Longrightarrow>
     \<exists>w'. destroy_items items w = Inr w' \<and> w_mem w' = w_mem w \<and> w_ext w' = w_ext w \<and>
       w_live w' = w_live w - int (length items)"
proof (induction items arbitrary: w)
  case (Cons item items)
  obtain w' where "destroy_items items (release w) = Inr w'" "w_mem w' = w_mem w" "w_ext w' = w_ext w"
      "w_live w' = w_live w - 1 - int (length items)"
    using Cons.IH [of "release w"] Cons.prems by auto
  then show ?case using Cons.prems by (simp add: Let_def)
qed simp

definition test_exits :: string where
  "test_exits =
     ''Calling exit callback for '' @ [CHR 0x27] @ ''source/file'' @ [CHR 0x27] @ nl @
     ''Calling exit callback for '' @ [CHR 0x27] @ ''proc/dummy'' @ [CHR 0x27] @ nl @
     ''Calling exit callback for '' @ [CHR 0x27] @ ''sink/alsa'' @ [CHR 0x27] @ nl"

lemma destroy_run:
  assumes "pq_items q3 = items_run b0 b1"
  shows "\<exists>w'. pq_destroy (Some (set_exit 2 (set_exit 1 (set_exit 0 q3)))) w = Inr w' \<and>
    w_ext w' = w_ext w @ test_exits \<and> w_live w' = w_live w - 6"
  using assms
  by (simp add: pq_destroy_def set_exit_def upd_item_def items_run_def blank_item_def zero_item_def numeral_2_eq_2
      q3_exit_def assert_c_def cstr_def test_exits_def Let_def)

text \<open>What the test prints, without the listings of talloc.\<close>

definition test_output :: string where
  "test_output =
     ''Processing queue allocation test:'' @ nl @ nl @
     ''Item allocation test:'' @ nl @ nl @
     ''Queue preparation test:'' @ nl @ nl @
     ''Queue description test:'' @ nl @ test_descriptions @ nl @
     ''Processing queue execution test:'' @ nl @ test_data @ nl @
     ''Processing queue exit callback test:'' @ nl @ test_exits @ nl @
     ''Processing queue deallocation test:'' @ nl"

lemma headline_simps [simp]:
  "w_mem (headline s w) = w_mem w" "w_live (headline s w) = w_live w" "w_ext (headline s w) = w_ext w @ s @ nl"
  by (simp_all add: headline_def)

text \<open>The whole test: no assertion fails, the output is the expected one, nothing stays allocated.\<close>

lemma pq_test_passes:
  assumes "w_mem w = []"
  shows "\<exists>w'. pq_test w = Inr w' \<and> w_live w' = w_live w \<and>
    w_ext w' = w_ext w @ test_output"
proof -
  let ?new = "\<lambda>n. \<lparr>pq_items = [], pq_n_items = 0, pq_name = n\<rparr> :: test_queue"
  let ?full = "\<lambda>n k. \<lparr>pq_items = replicate k zero_item, pq_n_items = k, pq_name = n\<rparr> :: test_queue"
  define w0 where "w0 = headline ''Processing queue allocation test:'' w"
  define u where "u = w0\<lparr>w_allocs := w_allocs w0 + 4, w_live := w_live w0 + 4\<rparr>"
  define v where "v = headline ''Item allocation test:'' (say nl u)"
  have w0: "w_mem w0 = []" using assms by (simp add: w0_def)
  have v: "w_mem v = []" "w_live v = w_live w + 4"
      "w_ext v = w_ext w @ ''Processing queue allocation test:'' @ nl @ nl @ ''Item allocation test:'' @ nl"
    using assms by (simp_all add: v_def u_def w0_def)
  obtain w3 where w3: "add_items 3 (?new (Some ''q3'')) v = Inr (?full (Some ''q3'') 3, w3)" "w_mem w3 = []"
      "w_live w3 = w_live w + 7" "w_ext w3 = w_ext v"
    using add_items_ok [OF v(1), of "?new (Some ''q3'')" 3] v by auto
  obtain w2 where w2: "add_items 2 (?new (Some ''q2'')) w3 = Inr (?full (Some ''q2'') 2, w2)" "w_mem w2 = []"
      "w_live w2 = w_live w + 9" "w_ext w2 = w_ext v"
    using add_items_ok [OF w3(2), of "?new (Some ''q2'')" 2] w3 by auto
  obtain w1 where w1: "add_items 1 (?new (Some ''q1'')) w2 = Inr (?full (Some ''q1'') 1, w1)" "w_mem w1 = []"
      "w_live w1 = w_live w + 10" "w_ext w1 = w_ext v"
    using add_items_ok [OF w2(2), of "?new (Some ''q1'')" 1] w2 by auto
  define q3 where "q3 = (?full (Some ''q3'') 3)\<lparr>pq_items :=
      [blank_item 10 20 TYPE_SOURCE, blank_item 20 30 TYPE_PROC, blank_item 30 10 TYPE_SINK]\<rparr>"
  have chk: "check_stage (?full (Some ''q3'') 3) = Inr q3"
    unfolding q3_def by (rule check_stage_ok) simp
  define y1 where "y1 = headline ''Queue preparation test:'' (say nl w1)"
  have y1: "w_mem y1 = []" "w_live y1 = w_live w + 10" "w_ext y1 = w_ext v @ nl @ ''Queue preparation test:'' @ nl"
    using w1 by (simp_all add: y1_def)
  obtain d0 d1 w4 where w4: "prepare_stage q3 y1 = Inr (q3\<lparr>pq_items :=
      [(blank_item 10 20 TYPE_SOURCE)\<lparr>it_buf := Some d0\<rparr>, (blank_item 20 30 TYPE_PROC)\<lparr>it_buf := Some d1\<rparr>,
       blank_item 30 10 TYPE_SINK]\<rparr>, w4)" "length d0 = 20" "length d1 = 30" "w_mem w4 = []"
      "w_ext w4 = w_ext y1" "w_live w4 = w_live w + 12"
    using prepare_stage_ok [of q3 y1] y1 by (auto simp: q3_def)
  define p3 where "p3 = q3\<lparr>pq_items :=
      [(blank_item 10 20 TYPE_SOURCE)\<lparr>it_buf := Some d0\<rparr>, (blank_item 20 30 TYPE_PROC)\<lparr>it_buf := Some d1\<rparr>,
       blank_item 30 10 TYPE_SINK]\<rparr>"
  define y4 where "y4 = headline ''Queue description test:'' (say nl w4)"
  have y4: "w_mem y4 = []" "w_live y4 = w_live w + 12" "w_ext y4 = w_ext y1 @ nl @ ''Queue description test:'' @ nl"
    using w4 by (simp_all add: y4_def)
  obtain i1 i2 w5 where w5: "describe_stage (?new None) (?full (Some ''q1'') 1) (?full (Some ''q2'') 2) p3 y4 =
      Inr ((?full (Some ''q1'') 1)\<lparr>pq_items := i1\<rparr>, (?full (Some ''q2'') 2)\<lparr>pq_items := i2\<rparr>,
        p3\<lparr>pq_items := items_ready d0 d1\<rparr>, w5)"
      "list_all (\<lambda>item. it_live item \<and> it_exit item = None \<and> it_buf item = None) i1"
      "list_all (\<lambda>item. it_live item \<and> it_exit item = None \<and> it_buf item = None) i2"
      "length i1 = 1" "length i2 = 2" "w_mem w5 = []" "w_live w5 = w_live w + 12"
      "w_ext w5 = w_ext y4 @ test_descriptions"
    using describe_stage_ok [of "?new None" "?full (Some ''q1'') 1" "?full (Some ''q2'') 2" p3 d0 d1 y4] y4
    by (auto simp: p3_def q3_def numeral_2_eq_2)
  define y5 where "y5 = headline ''Processing queue execution test:'' (say nl w5)"
  obtain b0 b1 where ex: "execute_stage (p3\<lparr>pq_items := items_ready d0 d1\<rparr>) y5 =
      Inr (p3\<lparr>pq_items := items_run b0 b1\<rparr>, say test_data y5)"
    using execute_stage_ok [of "p3\<lparr>pq_items := items_ready d0 d1\<rparr>" d0 d1 y5] w4(2,3) by auto
  define y6 where "y6 = headline ''Processing queue exit callback test:'' (say nl (say test_data y5))"
  define w6 where "w6 = release y6"
  obtain w7 where w7: "destroy_items i1 w6 = Inr w7" "w_ext w7 = w_ext w6" "w_live w7 = w_live w6 - 1"
    using destroy_plain [OF w5(2), of w6] w5(4) by auto
  obtain w8 where w8: "destroy_items i2 (release w7) = Inr w8" "w_ext w8 = w_ext w7" "w_live w8 = w_live w7 - 3"
    using destroy_plain [OF w5(3), of "release w7"] w5(5) by auto
  obtain w9 where w9: "pq_destroy (Some (set_exit 2 (set_exit 1 (set_exit 0 (p3\<lparr>pq_items := items_run b0 b1\<rparr>)))))
      (release w8) = Inr w9" "w_ext w9 = w_ext w8 @ test_exits" "w_live w9 = w_live w8 - 7"
    using destroy_run [of "p3\<lparr>pq_items := items_run b0 b1\<rparr>" b0 b1 "release w8"] by auto
  have "pq_create n u = (Some (?new n), u\<lparr>w_allocs := w_allocs u + 1, w_live := w_live u + 1\<rparr>)"
    if "w_mem u = []" for n and u :: test_world
    using that by (simp add: pq_create_def)
  then have create: "\<exists>u1 u2 u3. pq_create None w0 = (Some (?new None), u1) \<and>
      pq_create (Some ''q1'') u1 = (Some (?new (Some ''q1'')), u2) \<and>
      pq_create (Some ''q2'') u2 = (Some (?new (Some ''q2'')), u3) \<and>
      pq_create (Some ''q3'') u3 = (Some (?new (Some ''q3'')), u)"
    using w0 by (simp add: u_def add.assoc)
  have stage: "prepare_stage q3 y1 = Inr (p3, w4)" using w4(1) by (simp only: p3_def)
  have destroyed: "pq_destroy (Some (?new None)) y6 = Inr w6"
      "pq_destroy (Some ((?full (Some ''q1'') 1)\<lparr>pq_items := i1\<rparr>)) w6 = Inr (release w7)"
      "pq_destroy (Some ((?full (Some ''q2'') 2)\<lparr>pq_items := i2\<rparr>)) (release w7) = Inr (release w8)"
    using w7(1) w8(1) by (simp_all add: pq_destroy_def w6_def)
  from create obtain u1 u2 u3 where us: "pq_create None w0 = (Some (?new None), u1)"
      "pq_create (Some ''q1'') u1 = (Some (?new (Some ''q1'')), u2)"
      "pq_create (Some ''q2'') u2 = (Some (?new (Some ''q2'')), u3)"
      "pq_create (Some ''q3'') u3 = (Some (?new (Some ''q3'')), u)" by blast
  have counts: "assert_c (map pq_n_items [?new None, ?full (Some ''q1'') 1, ?full (Some ''q2'') 2, ?full (Some ''q3'') 3] =
      [0, 1, 2, 3]) = Inr ()"
    "assert_c (map pq_n_items [?new None, ?new (Some ''q1''), ?new (Some ''q2''), ?new (Some ''q3'')] = [0, 0, 0, 0]) = Inr ()"
    "assert_c (map (\<lambda>q. pq_items q = []) [?new None, ?full (Some ''q1'') 1, ?full (Some ''q2'') 2, ?full (Some ''q3'') 3] =
      [True, False, False, False]) = Inr ()"
    by (simp_all add: assert_c_def)
  have "pq_test w = Inr (headline ''Processing queue deallocation test:'' (say nl w9))"
    by (simp only: pq_test_def w0_def [symmetric] us v_def [symmetric] y1_def [symmetric] y4_def [symmetric]
      y5_def [symmetric] y6_def [symmetric] Let_def prod.case deref_Some bind_r.simps w3(1) w2(1) w1(1) counts chk
      stage w5(1) ex destroyed w9(1))
  moreover have "w_live w9 = w_live w"
    using w9(3) w8(3) w7(3) w5(7) y4(2) by (simp add: w6_def y6_def y5_def)
  moreover have "w_ext (headline ''Processing queue deallocation test:'' (say nl w9)) = w_ext w @ test_output"
    using w9(2) w8(2) w7(2) w5(8) y4(3) y1(3) v(3)
    by (simp only: w6_def y6_def y5_def say_simps headline_simps release_simps test_output_def append_assoc)
  ultimately show ?thesis by auto
qed

end
