(* ===== verification/Spec2Isabelle.thy ===== *)
theory Spec2Isabelle
  imports Conformance Queue_Test
begin

text \<open>
  gapk, the GSM audio pocket knife, converts speech frames of the GSM codecs between file and
  RTP formats, decodes and encodes them, and plays or records them. This development models the
  program under \<^verbatim>\<open>src/\<close>, \<^verbatim>\<open>include/\<close> and \<^verbatim>\<open>libgsmhr/\<close> and proves it correct as far as the sources
  go. Everything outside the repository (libosmocodec, libgsm, opencore-amr, the ETSI half-rate
  reference code, ALSA, the sockets and files of the system) is a parameter or part of an
  explicit state.

  How the program works. \<^verbatim>\<open>main\<close> parses and checks the options, opens the streams, handles the
  file headers and builds a queue: a source, a converter to the canonical frame of the codec or
  the format of the decoder, a decoder to PCM, an encoder, a converter to the output format, and
  a sink. Each item has a callback, a private state, an output object and fixed or variable
  lengths. The processing loop runs the items one after the other, the output object of each
  being the input of the next, until one of them fails, an interrupt arrives, or the timer of the
  throttled mode has run the queue for the last time.

  Foundations
  \<^item> \<^theory_text>\<open>Prelude\<close>: bytes, objects as byte lists, faults of C (reading or writing out of bounds, null
    dereference, failed assertion, use after free, division by zero) as the left side of a sum, counted loops.
  \<^item> \<^theory_text>\<open>World\<close>: files with contents, position and room, datagram sockets, failing allocations and
    the count of live ones, cycle counter, random numbers, benchmark counters.
  \<^item> \<^theory_text>\<open>Item_State\<close>: the private states of the queue items as one data type.

  Formats (pure functions over objects)
  \<^item> \<^theory_text>\<open>Bits\<close> (\<^verbatim>\<open>utils.h\<close>): the bit accessors; both orders are an interpretation of one locale of
    bit buffers, and a locale of bit movers turns the loops of the formats into permutations.
  \<^item> \<^theory_text>\<open>Conv\<close> (\<^verbatim>\<open>codecs.h\<close>, \<^verbatim>\<open>formats.h\<close>): the contract of a converter as locales: \<open>fixed_conv\<close> (a
    converter computes a function on frames and keeps the rest of the object), \<open>strict_conv\<close> (it
    asserts its input length), \<open>lossless_format\<close>, \<open>lossless_var_format\<close>, \<open>transcoder\<close>.
  \<^item> \<^theory_text>\<open>Bit_Tables\<close>: the bit order tables of libosmocodec as the record \<open>bit_tables\<close>; \<open>good_tables\<close>
    says that each is a permutation of the right length. \<open>Fmt_Ti\<close>, \<open>Fmt_Racal\<close>, \<open>Fmt_Amr\<close>,
    \<open>Fmt_Hr\<close>, \<open>Fmt_Nibble\<close>, \<open>Fmt_Plain\<close> hold the converters of \<^verbatim>\<open>fmt_*.c\<close>, each with a reference
    function on frames, the proof that the loops compute it, and the round trip. \<open>Host_Words\<close> is
    the host byte order of \<^verbatim>\<open>uint16_t\<close> arrays behind byte pointers.
  \<^item> \<^theory_text>\<open>Formats\<close> (\<^verbatim>\<open>formats.c\<close>): descriptions, table and lookups; the facts on all formats.

  Queue
  \<^item> \<^theory_text>\<open>Procqueue\<close> (\<^verbatim>\<open>procqueue.c\<close>): the operations of the queue; the locale \<open>stage\<close> is the contract
    of an item (with its state invariant, enough input and a large enough output object it does
    not fault, and its result is an error or the number of bytes it has filled), and a queue of
    stages whose lengths fit runs without a fault.
  \<^item> \<^theory_text>\<open>Pq_File\<close>, \<^theory_text>\<open>Pq_Rtp\<close>, \<^theory_text>\<open>Pq_Alsa\<close>, \<^theory_text>\<open>Pq_Format\<close>, \<^theory_text>\<open>Pq_Codec\<close> (\<^verbatim>\<open>pq_file.c\<close>, \<^verbatim>\<open>pq_rtp.c\<close>,
    \<^verbatim>\<open>pq_alsa.c\<close>, \<^verbatim>\<open>pq_format.c\<close>, \<^verbatim>\<open>pq_codec.c\<close>, \<^verbatim>\<open>pq_ecu.c\<close>): callbacks and constructors, and
    the proof that each item meets the contract \<open>stage\<close>.
  \<^item> \<^theory_text>\<open>Codecs\<close> (\<^verbatim>\<open>codec_*.c\<close>, \<^verbatim>\<open>codecs.c\<close>, \<^verbatim>\<open>ecu_fr.c\<close>): the wrappers around the libraries in the
    record \<open>codec_libs\<close>; \<open>libs_ok\<close> says that a library fills the frame its interface promises.
  \<^item> \<^theory_text>\<open>Bench\<close> (\<^verbatim>\<open>benchmark.c\<close>, \<^verbatim>\<open>bench.h\<close>): the rings of cycle counts.
  \<^item> \<^theory_text>\<open>Gsmhr\<close> (\<^verbatim>\<open>libgsmhr.c\<close>): the wrapper that saves and restores the globals of the reference
    code around every call, with the two blocks that an instance takes and gives back.

  Program
  \<^item> \<^theory_text>\<open>App\<close> (\<^verbatim>\<open>app_osmo_gapk.c\<close>): options, streams, headers, construction of the queue, both
    processing loops, the wait for the sink, benchmark dump, shutdown, the signal handler and
    \<^verbatim>\<open>main\<close>. The reading and the writing half of \<^verbatim>\<open>handle_headers\<close> are \<open>read_header\<close> and
    \<open>write_header\<close>. \<^theory_text>\<open>Help\<close> is the usage text.
  \<^item> \<^theory_text>\<open>Startup\<close>: what is accepted by the option parser and by the checks, what opening, headers and
    closing do.
  \<^item> \<^theory_text>\<open>Chain\<close>: an abstract plan of conversions from the two formats alone, and the proof that the
    built queue realises it. \<^theory_text>\<open>Safety\<close>: such a queue never faults, and with a file source the loops
    end. \<^theory_text>\<open>Transcode\<close>: for formats of one codec, the exact contents of the output file.
  \<^item> \<^theory_text>\<open>Typing\<close>: a type for every place of a queue; executions keep the types and do not fault, also
    when the world changes between them (\<open>queue_step\<close>, an inductive step relation).
  \<^item> \<^theory_text>\<open>Ownership\<close>: which item has to give back which allocation. \<open>tidy item k\<close> says that processing
    allocates nothing and that the exit callback releases the \<open>k\<close> blocks of the state; \<open>held\<close> is the
    account of a queue, which holds from its construction to the end of the run.
    \<^theory_text>\<open>Construction\<close>: the account while the queue is built, under every failure (\<open>keeps\<close> for each
    function that queues an item, \<open>chain_kept\<close> for the whole).
  \<^item> \<^theory_text>\<open>Program\<close>: from the command line to the exit. A run that returns has closed what it opened and
    given back what it took, but for the state of an ALSA device that did not open
    (\<open>main_balanced\<close>); with two files the program always returns
    (\<open>main_files_return\<close>), and for formats of one codec with exactly the converted frames in the
    output (\<open>main_files_convert\<close>).
  \<^item> \<^theory_text>\<open>Examples\<close>: a concrete environment that meets the hypotheses.

  Validation against the tests of the repository
  \<^item> \<^theory_text>\<open>Reference_Frames\<close>: the first frames of every file of \<^verbatim>\<open>tests/ref-files\<close>, and bit order tables
    read off these files, which satisfy \<open>good_tables\<close>; each converter maps the recorded frames onto
    each other. \<^theory_text>\<open>Conformance\<close>: \<^verbatim>\<open>main\<close> reproduces the recorded files from one another
    (\<open>reference_files_reproduced\<close>).
  \<^item> \<^theory_text>\<open>Queue_Test\<close>: \<^verbatim>\<open>tests/procqueue/pq_test.c\<close> run on the model of the queue: its assertions hold, it
    prints the expected lines and leaves nothing allocated (\<open>pq_test_passes\<close>).

  Loops and bounds. Counted loops are \<open>for_loop\<close>. The plain processing loop and the wait for the
  sink, which nothing bounds in the code, are partial functions whose value \<open>None\<close> is a run that
  never ends; that they end is proved for file sources. The throttled loop is driven by a list of
  events, and \<open>None\<close> says that it waits for the next one.

  Interrupts. In the plain loop they arrive between two frames; the first one sets the flag that
  ends the loop. The handler itself (\<open>signal_handler\<close>) also models the second one, which shuts the
  program down at once; between two frames this gives everything back (\<open>second_interrupt\<close>). An
  interrupt in the middle of a callback or of the shutdown is not modelled.

  Not modelled. Log messages, the tree of talloc contexts and its report (only the count of live
  allocations is kept, so the state of a device that ALSA cannot open, which the code leaves to
  its parent context, stays counted); the assembly of \<^verbatim>\<open>get_cycles.h\<close>, whose counts are an
  input; \<^verbatim>\<open>common.c\<close>, two setters of log and allocation contexts; the tests of the file, RTP and
  concealment items, the shell scripts and build files; the sources that the build downloads.
\<close>

section \<open>The program from its command line to its exit\<close>







section \<open>The program on files\<close>



text \<open>
  C5: for a file as source and any two formats of fixed frame length, through decoder and
  encoder where the codecs differ, construction succeeds, and the processing loop ends without
  a fault, whatever the bytes of the file, whenever an interrupt arrives, after at most as
  many frames as the file holds.
\<close>

theorem processing_ends:
  fixes E :: "('c, 'x) env"
  assumes "file_request E gs fh ti tt" and "gs_pq gs = Some (empty_pq name)"
    and "w_mem w = []" and "\<not> throttle (opts gs)"
  shows "\<exists>n gs1 w1 rv gs2 w2. make_processing_chain E gs w = Inr (0, gs1, w1) \<and>
    run intr ts gs1 w1 = Some (Inr (rv, gs2, w2)) \<and> num_frames gs2 = of_nat n \<and>
    n \<le> (length (fl_data (w_files w fh)) - fl_pos (w_files w fh)) div frame_len_of ti"
  by (rule run_ends [OF assms])

theorem processing_ends_witness:
  "\<exists>n gs1 w1 rv gs2 w2.
     make_processing_chain demo_env (demo_state FMT_RACAL_HR FMT_RTP_EFR) demo_world = Inr (0, gs1, w1) \<and>
     run (\<lambda>i. i = 5) [] gs1 w1 = Some (Inr (rv, gs2, w2)) \<and> num_frames gs2 = of_nat n \<and> n \<le> 2"
  using processing_ends [OF demo_request [of FMT_RACAL_HR FMT_RTP_EFR], of "Some ''main''" demo_world
      "\<lambda>i. i = 5" "[]"]
  by (simp add: fixed_len_def codec_of_def frame_len_of_def fmt_defs demo_input_def)

text \<open>
  C6: for every request that the environment can serve (any formats, variable lengths included;
  files or sockets at the ends), the queue that \<^verbatim>\<open>make_processing_chain\<close> builds is the source,
  one item per element of the abstract plan of the two formats, and the sink; the lengths fit,
  so the strict check accepts it, and the item counter is right.
\<close>

theorem chain_realises_plan:
  fixes E :: "('c, 'x) env"
  assumes "requested E gs ti tt" and "gs_pq gs = Some (empty_pq name)" and "w_mem w = []"
  shows "\<exists>pq items sink w'. make_processing_chain E gs w = Inr (0, gs\<lparr>gs_pq := Some pq\<rparr>, w') \<and>
    pq_items pq = source_item gs (frame_len_of ti) # items @ [sink] \<and>
    list_all2 (realises E) (plan ti tt) items \<and> is_sink gs (frame_len_of tt) sink \<and>
    pq_wf pq \<and> w_files w' = w_files w \<and> w_socks w' = w_socks w"
  using chain_built [OF assms] by blast

theorem chain_realises_plan_witness:
  "\<exists>pq items sink w'.
    make_processing_chain demo_env (demo_state FMT_TI_FR FMT_RTP_EFR) demo_world =
      Inr (0, (demo_state FMT_TI_FR FMT_RTP_EFR)\<lparr>gs_pq := Some pq\<rparr>, w') \<and>
    pq_items pq = source_item (demo_state FMT_TI_FR FMT_RTP_EFR) 33 # items @ [sink] \<and>
    list_all2 (realises demo_env)
      [El_Conv FMT_TI_FR False, El_Conv FMT_GSM True, El_Codec CODEC_FR False,
       El_Codec CODEC_EFR True, El_Conv FMT_AMR_EFR False, El_Conv FMT_RTP_EFR True] items"
  using chain_realises_plan [of demo_env "demo_state FMT_TI_FR FMT_RTP_EFR" FMT_TI_FR FMT_RTP_EFR "Some ''main''" demo_world]
    demo_request [of FMT_TI_FR FMT_RTP_EFR]
  by (fastforce simp: file_request_def fixed_len_def codec_of_def frame_len_of_def fmt_defs plan_def plan_dec_def
      plan_enc_def need_dec_def need_enc_def Let_def)

text \<open>
  C7: the queue of a conversion from a file, built and prepared, is typed: at each place is the
  item of the program for this place, its private state and its output object are of the
  type of the place. It stays typed, and its next execution does not fault, after any
  sequence of executions, failing ones included, and of arbitrary changes of the world from
  outside: files cut short or grown, devices full, memory exhausted, sockets closed.
\<close>

theorem queue_stays_typed:
  fixes E :: "('c, 'x) env"
  assumes "file_request E gs fh ti tt" and "gs_pq gs = Some (empty_pq name)" and "w_mem w = []"
    and "make_processing_chain E gs w = Inr (0, gs1, w1)" and "gs_pq gs1 = Some pq1"
    and "pq_prepare pq1 w1 = Inr (rv1, pq2, w2)" and "queue_steps (pq2, w2) (pq, w3)"
  shows "rv1 = 0 \<and> queue_typed E gs fh ti tt pq \<and>
    (\<exists>rv pq' w'. pq_execute pq w3 = Inr (rv, pq', w') \<and> rv \<le> 0 \<and> queue_typed E gs fh ti tt pq')"
proof -
  have "rv1 = 0 \<and> queue_typed E gs fh ti tt pq2" using chain_typed [OF assms(1-3)] assms(4-6) by auto
  moreover from this have "queue_typed E gs fh ti tt pq" using queue_steps_typed [OF assms(1,7)] by simp
  ultimately show ?thesis using queue_typed_execute [OF assms(1)] by blast
qed

theorem queue_stays_typed_witness:
  "\<exists>pq rv pq' w'. queue_typed demo_env (demo_state FMT_TI_FR FMT_RTP_EFR) 2 FMT_TI_FR FMT_RTP_EFR pq \<and>
     pq_execute pq (demo_world\<lparr>w_files := (\<lambda>_. demo_file []), w_mem := [False]\<rparr>) = Inr (rv, pq', w')"
proof -
  have rq: "file_request demo_env (demo_state FMT_TI_FR FMT_RTP_EFR) 2 FMT_TI_FR FMT_RTP_EFR"
    by (rule demo_request) (simp_all add: fixed_len_def codec_of_def fmt_defs)
  obtain pq w1 pq2 w2 where c: "make_processing_chain demo_env (demo_state FMT_TI_FR FMT_RTP_EFR) demo_world =
      Inr (0, (demo_state FMT_TI_FR FMT_RTP_EFR)\<lparr>gs_pq := Some pq\<rparr>, w1)" "pq_prepare pq w1 = Inr (0, pq2, w2)"
    using chain_typed [OF rq demo_state_simps(3), of demo_world] by auto
  have "queue_steps (pq2, w2) (pq2, demo_world\<lparr>w_files := (\<lambda>_. demo_file []), w_mem := [False]\<rparr>)"
    by (rule steps_step [OF steps_refl Outside])
  from queue_stays_typed [OF rq demo_state_simps(3) demo_world_simps(1) c(1) _ c(2) this] show ?thesis by auto
qed





section \<open>Formats and codecs\<close>



text \<open>
  C11: the bit and byte loops of every fixed-length converter compute the reference function of
  the format on whole frames, into any object that is large enough, whatever it held before.
\<close>

theorem converters_equal_reference:
  assumes "good_tables T" and "fixed_len t" and "frame_len_of t \<le> length fr" and "canon_len (codec_of t) \<le> length c"
    and "frame_len_of t \<le> length dst" and "canon_len (codec_of t) \<le> length dst2"
    and "fmt_frame_ok t (take (frame_len_of t) fr)"
  shows "fd_conv_from_canon (fmt_of e T t) dst c (canon_len (codec_of t)) =
      Inr (fmt_enc e T t (take (canon_len (codec_of t)) c) @ drop (frame_len_of t) dst, int (frame_len_of t)) \<and>
    fd_conv_to_canon (fmt_of e T t) dst2 fr (frame_len_of t) =
      Inr (fmt_dec e T t (take (frame_len_of t) fr) @ drop (canon_len (codec_of t)) dst2, int (canon_len (codec_of t)))"
  using fixed_conv.conv [OF fmt_fixed_conv(1) [OF assms(1,2), of e], of c dst]
    fixed_conv.conv [OF fmt_fixed_conv(2) [OF assms(1,2), of e], of fr dst2] assms(3-7)
  by (simp add: fd_codec_type_of fd_frame_len_of)

theorem converters_equal_reference_witness:
  "gsm_from_canon (replicate 33 9) (replicate 33 0) 33 = Inr (add_nibble 0xd (replicate 33 0), 33) \<and>
   gsm_to_canon (replicate 33 8) (0xd1 # replicate 32 0) 33 = Inr (drop_nibble (0xd1 # replicate 32 0), 33)"
  using converters_equal_reference [OF good_identity_tables, of FMT_GSM "0xd1 # replicate 32 0" "replicate 33 0"
      "replicate 33 9" "replicate 33 8" Little]
  by (simp add: fixed_len_def codec_of_def frame_len_of_def fmt_defs)

text \<open>
  C12: no converter of a fixed-length format faults on a source of its length, whatever the
  bytes: it returns its output length or an error, and never writes outside the object.
\<close>

theorem converters_in_bounds:
  assumes "good_tables T" and "fixed_len t"
    and "(if to then frame_len_of t else canon_len (codec_of t)) = m"
    and "(if to then canon_len (codec_of t) else frame_len_of t) = k"
    and "m \<le> length src" and "k \<le> length dst"
  shows "\<exists>d rv. (if to then fd_conv_to_canon (fmt_of e T t) else fd_conv_from_canon (fmt_of e T t)) dst src m =
      Inr (d, rv) \<and> length d = length dst \<and> (rv = int k \<or> rv < 0)"
  using fmt_conv_safe [OF assms(1,2), of e] assms(3-6)
  by (cases to) (auto simp: conv_safe_def fd_codec_type_of fd_frame_len_of)

theorem converters_in_bounds_witness:
  "\<exists>d rv. amr_efr_to_canon identity_tables (replicate 31 0) (replicate 32 7) 32 = Inr (d, rv) \<and>
     length d = 31 \<and> (rv = 31 \<or> rv < 0)"
  using converters_in_bounds [OF good_identity_tables, of FMT_AMR_EFR True 32 31 "replicate 32 7" "replicate 31 0" Little]
  by (simp add: fixed_len_def codec_of_def frame_len_of_def fmt_defs)


text \<open>
  C14: the TI EFR loops stop after 244 of the 260 entries of the bit order table; the format
  loses nothing exactly when none of the 16 entries they leave out is a speech bit.
\<close>

theorem ti_efr_lossless_exactly:
  assumes "good_tables T"
  shows "(\<forall>c. padded 244 31 c \<longrightarrow>
      bind_r (ti_efr_from_canon T (replicate 33 0) c 31)
        (\<lambda>(fr, n). ti_efr_to_canon T (replicate 31 0) fr (nat n)) = Inr (c, 31)) =
    (\<forall>t \<in> set (drop 244 (gsm660_bitorder T)). efr_index t = None)"
proof -
  have "bind_r (ti_efr_from_canon T (replicate 33 0) c 31)
        (\<lambda>(fr, n). ti_efr_to_canon T (replicate 31 0) fr (nat n)) = Inr (ti_efr_dec T (ti_efr_enc T c), 31)"
    if "padded 244 31 c" for c
    using padded_length [OF that] fixed_conv.conv [OF ti_efr_fixed(1) [OF assms], of c "replicate 33 0"]
      fixed_conv.conv [OF ti_efr_fixed(2) [OF assms], of "ti_efr_enc T c" "replicate 31 0"]
      fixed_conv.length_g [OF ti_efr_fixed(1) [OF assms], of c] by simp
  then show ?thesis using ti_efr_lossless_iff [OF assms] by auto
qed

theorem ti_efr_lossless_exactly_witness:
  "(\<forall>c. padded 244 31 c \<longrightarrow>
      bind_r (ti_efr_from_canon identity_tables (replicate 33 0) c 31)
        (\<lambda>(fr, n). ti_efr_to_canon identity_tables (replicate 31 0) fr (nat n)) = Inr (c, 31)) =
    (\<forall>t \<in> set (drop 244 (gsm660_bitorder identity_tables)). efr_index t = None)"
  by (rule ti_efr_lossless_exactly [OF good_identity_tables])

text \<open>
  C15: a payload of any length but 15 makes the IETF half-rate converter clear 15 bytes; into an
  object of the canonical 14 bytes this writes out of bounds.
\<close>

theorem ietf_hr_bad_length:
  assumes "n \<noteq> 15"
  shows "rtp_hr_ietf_to_canon dst src n =
    (if 15 \<le> length dst then Inr (replicate 15 0 @ drop 15 dst, 14) else Inl Out_Of_Bounds)"
  by (rule rtp_hr_ietf_to_canon_short [OF assms])

theorem ietf_hr_bad_length_witness:
  "rtp_hr_ietf_to_canon (replicate 14 1) (replicate 15 0) 14 = Inl Out_Of_Bounds"
  using ietf_hr_bad_length [of 14 "replicate 14 1" "replicate 15 0"] by simp

text \<open>
  C16: the RTP EFR converter replaces the damaged-packet pattern by the silence frame, drops the
  magic nibble of any other frame, and clears the canonical frame for a payload of another length.
\<close>

theorem rtp_efr_all_payloads:
  assumes "31 \<le> length dst" and "n = 31 \<longrightarrow> 31 \<le> length src"
  shows "rtp_efr_to_canon dst src n =
    Inr ((if n \<noteq> 31 then replicate 31 0
          else if take 31 src = DAMAGED_PACKET then drop_nibble SILENCE
          else drop_nibble (take 31 src)) @ drop 31 dst, 31)"
  using assms by (simp add: rtp_efr_to_canon_short rtp_efr_to_canon_eq rtp_efr_dec_def)

theorem rtp_efr_all_payloads_witness:
  "rtp_efr_to_canon (replicate 31 7) DAMAGED_PACKET 31 = Inr (drop_nibble SILENCE, 31)"
  using rtp_efr_all_payloads [of "replicate 31 7" 31 DAMAGED_PACKET]
  by (simp add: DAMAGED_PACKET_def)





text \<open>
  C19: the encoder and the decoder of every codec with frames of fixed length: on an input of
  their length and an output object of theirs they do not fault, keep the state of the codec,
  and report an error or exactly the length of the frame they have written.
\<close>

theorem codec_wrappers_safe:
  fixes L :: "'c codec_libs" and codec :: "('c, 'x) codec_desc" and w :: "'x world"
  assumes L: "libs_ok L" and c: "codec_ready C L c" "c \<noteq> CODEC_AMR" "codec_get_from_type C L c = Some codec"
    and st: "codec_state_ok c st" and i: "length inp = (if enc then 320 else codec_frame c False)"
    and o: "length out = (if enc then codec_frame c True else 320)"
  shows "\<exists>p rv st' out' w'. (if enc then cd_encode codec else cd_decode codec) = Some p \<and>
    p st (Some out) (Some inp) (length inp) w = Inr (rv, st', Some out', w') \<and> codec_state_ok c st' \<and>
    length out \<le> length out' \<and> (rv < 0 \<or> rv = int (length out))"
proof -
  have "\<exists>p. (if enc then cd_encode codec else cd_decode codec) = Some p \<and>
      stage p (codec_state_ok c) (\<lambda>_. True) (holds (length out)) (frame (length inp)) (frame (length out))"
    using codec_encode_stage [OF L quiet_True c] codec_decode_stage [OF L quiet_True c] i o by (cases enc) simp_all
  then obtain p where p: "(if enc then cd_encode codec else cd_decode codec) = Some p"
      "stage p (codec_state_ok c) (\<lambda>_. True) (holds (length out)) (frame (length inp)) (frame (length out))"
    by blast
  obtain rv st' out' w' where "p st (Some out) (Some inp) (length inp) w = Inr (rv, st', out', w')" "codec_state_ok c st'"
      "holds (length out) out'" "0 \<le> rv \<longrightarrow> frame (length out) out' (nat rv)"
    using stage.step [OF p(2) st, where w = w and out = "Some out" and inp = "Some inp" and n = "length inp"] by (auto simp: frame_def)
  then show ?thesis using p(1) by (auto simp: holds_def frame_def)
qed

theorem codec_wrappers_safe_witness:
  "\<exists>p rv st' out' w'. cd_encode (codec_efr_desc demo_cfg demo_libs) = Some p \<and>
    p (Some (St_Codec (Enc_Dec_State () ()))) (Some (replicate 32 0)) (Some (replicate 320 1)) 320 demo_world =
      Inr (rv, st', Some out', w') \<and> codec_state_ok CODEC_EFR st' \<and> 32 \<le> length out' \<and> (rv < 0 \<or> rv = 32)"
  using codec_wrappers_safe [OF demo_libs_ok demo_codecs_ready [of CODEC_EFR], of "codec_efr_desc demo_cfg demo_libs"
      "Some (St_Codec (Enc_Dec_State () ()))" "replicate 320 1" True "replicate 32 0" demo_world]
  by (simp add: codec_state_ok_def enc_dec_st_def)

section \<open>The processing queue\<close>





text \<open>
  C22: destroying a queue whose exit callbacks give back the states of their items does not fault
  and releases exactly the states, the items, the output objects and the queue itself.
\<close>

theorem queue_destroyed_without_leak:
  fixes pq :: "('s, 'x world) pq"
  assumes "list_all2 owns (pq_items pq) ks" and "all_live (pq_items pq)"
  shows "\<exists>w'. pq_destroy (Some pq) w = Inr w' \<and>
    w_live w' = w_live w - int (1 + length (pq_items pq) +
      length (filter (\<lambda>item. it_buf item \<noteq> None) (pq_items pq)) + sum_list ks)"
proof -
  have "sum_list (map footprint items) = length items + length (filter (\<lambda>item. it_buf item \<noteq> None) items)"
    for items :: "('s, 'x world) item list"
    by (induction items) (auto simp: footprint_def)
  then show ?thesis
    using destroy_items_live [OF assms, of w] by (auto simp: pq_destroy_def)
qed

theorem queue_destroyed_without_leak_witness:
  "\<exists>w'. pq_destroy (Some demo_pq) demo_world = Inr w' \<and> w_live w' = -6"
proof -
  have "list_all2 owns (pq_items demo_pq) [1, 1]"
    by (auto simp: demo_pq_def demo_items_def file_source_def file_sink_def zero_item_def owns_def pq_cb_file_exit_def)
  moreover have "all_live (pq_items demo_pq)"
    by (simp add: demo_pq_def demo_items_def file_source_def file_sink_def zero_item_def)
  ultimately show ?thesis
    using queue_destroyed_without_leak [of demo_pq "[1, 1]" demo_world]
    by (simp add: demo_pq_def demo_items_def file_source_def file_sink_def zero_item_def demo_world_def)
qed

text \<open>
  C23: with memory to be had, the description of a queue is the labels of its items, category and
  name, joined by arrows, and an empty queue has none.
\<close>

theorem queue_described:
  assumes "pq_wf pq" and "all_live (pq_items pq)" and "w_mem w = []"
  shows "\<exists>w'. pq_describe pq w =
    Inr (if pq_items pq = [] then None else Some (join '' -> '' (map label (pq_items pq))), w')"
  using describe_items_spec [OF assms(3,2), of 0 "pq_n_items pq" None] assms(1)
  by (auto simp: pq_describe_def pq_wf_def)

theorem queue_described_witness:
  "\<exists>w'. pq_describe demo_pq demo_world = Inr (Some ''source/file -> sink/file'', w')"
  using queue_described [of demo_pq demo_world]
  by (simp add: pq_wf_def demo_pq_def demo_items_def file_source_def file_sink_def zero_item_def label_def cstr_def)

section \<open>RTP\<close>



text \<open>
  C25: whatever a datagram holds, the RTP parser reads only bytes that were received, and a
  payload it reports lies inside the datagram, behind the fixed header.
\<close>

theorem rtp_parser_in_bounds:
  "case rtp_parse b (int (length b)) of
     Inl f \<Rightarrow> False
   | Inr None \<Rightarrow> True
   | Inr (Some (off, n)) \<Rightarrow> 12 \<le> off \<and> 0 \<le> n \<and> int off + n \<le> int (length b)"
  using rtp_parse_safe [of b] by (auto split: option.splits)

text \<open>
  C26: nothing compares the payload of a datagram with the output object: a well-formed packet
  with a payload longer than the block is copied out of bounds, while one that fits arrives whole.
\<close>

theorem rtp_payload_unchecked:
  fixes w :: "'x world" and r :: pq_state_rtp
  assumes "so_rx (w_socks w (pr_fd r)) = Some (rtp_packet s p) # ds"
    and "length d = pr_blk_len r" and "length p \<le> pr_blk_len r + 244"
  shows "pq_cb_rtp_input (Some (St_Rtp r) :: 'c item_state option) (Some d) inp k w =
    (if pr_blk_len r < length p then Inl Out_Of_Bounds
     else Inr (int (length p), Some (St_Rtp (r\<lparr>pr_ssrc := pr_ssrc s, pr_timestamp := pr_timestamp s,
                                            pr_sequence := pr_sequence s\<rparr>)),
               Some (p @ drop (length p) d),
               w\<lparr>w_socks := (w_socks w)(pr_fd r := (w_socks w (pr_fd r))\<lparr>so_rx := ds\<rparr>)\<rparr>))"
  using rtp_input_overflow [OF assms(1) _ assms(3), of d inp k] rtp_input_packet [OF assms(1) _ assms(3), of d inp k] assms(2)
  by (auto simp: not_less)

theorem rtp_payload_unchecked_witness:
  "pq_cb_rtp_input (Some (St_Rtp (demo_sender\<lparr>pr_blk_len := 33\<rparr>)) :: unit item_state option) (Some (replicate 33 0)) None 0
     (demo_world\<lparr>w_socks := (\<lambda>_. \<lparr>so_rx = [Some (rtp_packet demo_sender (replicate 34 1))], so_tx = [], so_wr = []\<rparr>)\<rparr>) =
   Inl Out_Of_Bounds"
  using rtp_payload_unchecked [of "demo_world\<lparr>w_socks := (\<lambda>_. \<lparr>so_rx = [Some (rtp_packet demo_sender (replicate 34 1))],
      so_tx = [], so_wr = []\<rparr>)\<rparr>" "demo_sender\<lparr>pr_blk_len := 33\<rparr>" demo_sender "replicate 34 1" "[]" "replicate 33 0" None 0]
  by (simp add: demo_sender_def)

text \<open>
  C27: an RTP source in front of the full-rate converter: one datagram with a payload shorter than
  a frame makes the converter fail its assertion, which ends the program.
\<close>

theorem short_rtp_payload_aborts:
  fixes rest :: "('c, 'x) qitem list"
  assumes "so_rx (w_socks w fd) = Some (rtp_packet s p) # ds" and "length p < 33" and "length d = 33"
  shows "exec_items None 0 ((rtp_source fd 33 pt)\<lparr>it_buf := Some d\<rparr> #
    (conv_item fmt_gsm False)\<lparr>it_buf := Some d2\<rparr> # rest) w = Inl Assert_Failed"
  by (rule rtp_short_payload [OF assms])

theorem short_rtp_payload_aborts_witness:
  "exec_items None 0 [(rtp_source 0 33 3)\<lparr>it_buf := Some (replicate 33 0)\<rparr>,
      (conv_item fmt_gsm False :: (unit, unit) qitem)\<lparr>it_buf := Some (replicate 33 0)\<rparr>]
     (demo_world\<lparr>w_socks := (\<lambda>_. \<lparr>so_rx = [Some (rtp_packet demo_sender [])], so_tx = [], so_wr = []\<rparr>)\<rparr>) = Inl Assert_Failed"
  by (rule short_rtp_payload_aborts [where s = demo_sender and p = "[]" and ds = "[]"]) simp_all

section \<open>Options, streams, headers\<close>

text \<open>
  C28: whatever the command line, and also when parsing ends with an error, the options that
  result hold only formats of the table, ports of 16 bits, and no ALSA device in a build
  without ALSA.
\<close>

theorem options_well_formed:
  fixes E :: "('c, 'x) env"
  assumes "parse_options E args gs w = (rv, gs', w')"
  shows "(\<exists>t. fmt_in (opts gs') = None \<or> t \<noteq> FMT_INVALID \<and> fmt_in (opts gs') = Some (fmt_of (e_endian E) (e_tables E) t)) \<and>
    (\<exists>t. fmt_out (opts gs') = None \<or> t \<noteq> FMT_INVALID \<and> fmt_out (opts gs') = Some (fmt_of (e_endian E) (e_tables E) t)) \<and>
    rtp_in_port (opts gs') \<le> 65535 \<and> rtp_out_port (opts gs') \<le> 65535 \<and>
    (have_alsa (e_cfg E) \<or> alsa_in (opts gs') = None \<and> alsa_out (opts gs') = None)"
  using parse_options_ok [OF assms] by (auto simp: opts_ok_def from_table_def split: option.splits)

theorem options_well_formed_witness:
  "\<exists>gs' w'. parse_options demo_env [(CHR ''a'', ''hw''), (CHR ''?'', '''')] init_state demo_world =
      (- EINVAL, gs', w') \<and> rtp_in_port (opts gs') \<le> 65535"
proof -
  obtain rv gs' w' where p: "parse_options demo_env [(CHR ''a'', ''hw''), (CHR ''?'', '''')]
      init_state demo_world = (rv, gs', w')" by (metis prod_cases3)
  moreover have "fst (parse_options demo_env [(CHR ''a'', ''hw''), (CHR ''?'', '''')]
      init_state demo_world) = - EINVAL"
    by (simp add: parse_options_def parse_option_def demo_cfg_def)
  ultimately show ?thesis using options_well_formed [OF p] by auto
qed



text \<open>
  C30: whatever the program is built with, the usage text is printed without a fault, and it ends
  with a list of formats, one line each, in which no name appears twice and which holds
  exactly the formats that \<^verbatim>\<open>-f\<close> and \<^verbatim>\<open>-g\<close> find by their name.
\<close>

theorem help_lists_formats:
  "\<exists>pre fs. print_help E progname = Inr (pre @ concat (map format_line fs) @ nl) \<and>
     distinct (map fd_name fs) \<and>
     (\<forall>f. f \<in> set fs \<longleftrightarrow> fmt_get_from_name (e_endian E) (e_tables E) (fd_name f) = Some f)"
  using print_help_total [of E progname] help_formats_distinct [of E] help_formats_iff [of _ E] by blast

text \<open>
  C31: with two formats of the table and libraries that can create their states, the check of the
  options refuses a request whose conversions the build has no codec for, refuses more than one
  source or sink, and accepts every other.
\<close>

theorem request_checked:
  fixes E :: "('c, 'x) env"
  assumes "libs_created (e_libs E)" and "fmt_in (opts gs) = Some (fmt_of (e_endian E) (e_tables E) ti)"
    and "fmt_out (opts gs) = Some (fmt_of (e_endian E) (e_tables E) tt)" and "ti \<noteq> FMT_INVALID" and "tt \<noteq> FMT_INVALID"
  shows "check_options E gs =
    (if \<not> servable E ti tt then - ENOTSUP
     else if sources (opts gs) > 1 \<or> sinks (opts gs) > 1 then - EINVAL else 0)"
  by (rule check_options_spec [OF assms])

theorem request_checked_witness:
  "check_options (demo_env\<lparr>e_cfg := demo_cfg\<lparr>have_libgsm := False\<rparr>\<rparr>) (demo_state FMT_GSM FMT_RAWPCM_S16LE) = - ENOTSUP"
  using request_checked [of "demo_env\<lparr>e_cfg := demo_cfg\<lparr>have_libgsm := False\<rparr>\<rparr>" "demo_state FMT_GSM FMT_RAWPCM_S16LE"
      FMT_GSM FMT_RAWPCM_S16LE]
  by (simp add: libs_created_def demo_libs_def servable_def need_dec_def codec_of_def fmt_defs codec_ready_def)

text \<open>
  C32: with files at both ends, the header of the input format is read and compared; after a match
  the position is behind it and the header of the output format is at the end of the output,
  otherwise the request is refused and the output untouched; no memory is lost on any path.
\<close>

theorem headers_handled:
  fixes w :: "'x world"
  assumes "fmt_in (opts gs) = Some fi" and "fmt_out (opts gs) = Some fo"
    and "in_fh gs = Some fh" and "out_fh gs = Some fh2" and "fh \<noteq> fh2"
    and "w_mem w = []" and "fl_room (w_files w fh2) = None"
  shows "\<exists>rv w'. handle_headers gs w = Inr (rv, w') \<and> w_live w' = w_live w \<and>
    (if take (fd_header_len fi) (drop (fl_pos (w_files w fh)) (fl_data (w_files w fh))) = fd_header fi
     then rv = 0 \<and> fl_pos (w_files w' fh) = fl_pos (w_files w fh) + fd_header_len fi \<and>
          fl_data (w_files w' fh) = fl_data (w_files w fh) \<and>
          fl_data (w_files w' fh2) = fl_data (w_files w fh2) @ fd_header fo
     else rv = - EINVAL \<and> w_files w' fh2 = w_files w fh2)"
  by (rule handle_headers_spec [OF assms])

theorem headers_handled_witness:
  "\<exists>w'. handle_headers (demo_state FMT_AMR_EFR FMT_RTP_EFR) demo_world = Inr (- EINVAL, w') \<and>
     w_live w' = 0 \<and> fl_data (w_files w' 3) = []"
proof -
  have h: "fd_header (fmt_of Little identity_tables FMT_AMR_EFR) = [35, 33, 65, 77, 82, 10]" by (simp add: fmt_defs)
  have "take (length [35, 33, 65, 77, 82, 10 :: byte]) demo_input \<noteq> [35, 33, 65, 77, 82, 10]"
    by code_simp
  moreover have "w_live demo_world = 0" by (simp add: demo_world_def)
  ultimately show ?thesis
    using headers_handled [of "demo_state FMT_AMR_EFR FMT_RTP_EFR" "fmt_of Little identity_tables FMT_AMR_EFR"
        "fmt_of Little identity_tables FMT_RTP_EFR" 2 3 demo_world, unfolded h]
    by auto
qed

text \<open>
  C33: whatever opening the streams returns, closing closes exactly the files and sockets that
  were opened, source before sink, never the standard streams, and the sink is not opened after
  a failing source.
\<close>

theorem streams_closed:
  fixes E :: "('c, 'x) env"
  assumes "fresh_handles E" and "no_streams gs" and "files_open E gs w = (rv, gs', w')"
  shows "files_close gs' = source_opened E (opts gs) @
      (if source_failed E (opts gs) then [] else sink_opened E (opts gs))"
  by (rule files_open_close(1) [OF assms])

theorem streams_closed_witness:
  "\<exists>rv gs' w'. files_open demo_env (init_state\<lparr>opts := zero_options\<lparr>fname_in := Some ''a'', rtp_out_port := 7\<rparr>\<rparr>) demo_world =
      (rv, gs', w') \<and> files_close gs' = [Closed_File 2, Closed_Fd 5]"
proof -
  let ?gs = "init_state\<lparr>opts := zero_options\<lparr>fname_in := Some ''a'', rtp_out_port := 7\<rparr>\<rparr> :: (unit, unit) gapk_state"
  obtain rv gs' w' where o: "files_open demo_env ?gs demo_world = (rv, gs', w')" by (metis prod_cases3)
  have "fresh_handles demo_env" "no_streams ?gs"
    by (auto simp: fresh_handles_def demo_env_def no_streams_def init_state_def split: if_splits)
  then show ?thesis
    using streams_closed [OF _ _ o] o
    by (simp add: source_opened_def sink_opened_def source_failed_def demo_env_def zero_options_def)
qed

text \<open>
  C34: the file source delivers the next block of the file and advances behind it; when less than
  a block is left it reports an error, and other files are not touched.
\<close>

theorem file_source_blocks:
  fixes w :: "'x world" and st :: "'c item_state option"
  assumes "file_st fh m st" and "0 < m" and "length d = m"
  shows "if fl_pos (w_files w fh) + m \<le> length (fl_data (w_files w fh))
    then pq_cb_file_input st (Some d) inp n w =
      Inr (int m, st, Some (take m (drop (fl_pos (w_files w fh)) (fl_data (w_files w fh)))),
           w\<lparr>w_files := (w_files w)(fh := (w_files w fh)\<lparr>fl_pos := fl_pos (w_files w fh) + m\<rparr>)\<rparr>)
    else \<exists>d' w'. pq_cb_file_input st (Some d) inp n w = Inr (-1, st, Some d', w') \<and>
      length d' = m \<and> (\<forall>h. h = fh \<or> w_files w' h = w_files w h)"
  using file_input_block [OF assms(1,2), of d w inp n] file_input_end [OF assms(1), of d w inp n] assms(3)
  by (cases "fl_pos (w_files w fh) + m \<le> length (fl_data (w_files w fh))") (simp_all, blast)

theorem file_source_blocks_witness:
  "\<exists>d' w'. pq_cb_file_input (Some (St_File \<lparr>pf_fh = 2, pf_blk_len = 33\<rparr>) :: unit item_state option)
     (Some (replicate 33 0)) None 0 demo_world = Inr (-1, Some (St_File \<lparr>pf_fh = 2, pf_blk_len = 33\<rparr>), Some d', w')"
  using file_source_blocks [of 2 33 "Some (St_File \<lparr>pf_fh = 2, pf_blk_len = 33\<rparr>) :: unit item_state option"
      "replicate 33 0" demo_world None 0]
  by (auto simp: file_st_def demo_input_def)



section \<open>Benchmarks\<close>

text \<open>
  C36: recording a cycle count writes inside the ring and keeps the indexes of all rings inside,
  and with such rings the report at shutdown neither reads out of bounds nor divides by zero.
\<close>

theorem benchmarks_in_bounds:
  assumes "benches_ok w"
  shows "(\<exists>w'. bench_stop c enc s w = Inr w' \<and> benches_ok w' \<and> (\<exists>ls. benchmark_dump cs w' = Inr ls)) \<and>
    benches_ok (snd (bench_enable c w))"
proof -
  obtain w' where w: "bench_stop c enc s w = Inr w'" "benches_ok w'"
    using bench_stop_safe [of c enc s w] assms by blast
  have "benches_ok (snd (bench_enable c w))"
    using assms by (auto simp: bench_enable_def benches_ok_def alloc_def split: list.splits bool.splits)
  with w benchmark_dump_ok [OF w(2), of cs] show ?thesis by blast
qed

theorem benchmarks_in_bounds_witness:
  "\<exists>w'. bench_stop 2 True 5 (demo_world\<lparr>w_bench := (\<lambda>_. Some (zero_bench\<lparr>bc_enc_used := 102399\<rparr>))\<rparr>) = Inr w' \<and> benches_ok w'"
  using benchmarks_in_bounds [of "demo_world\<lparr>w_bench := (\<lambda>_. Some (zero_bench\<lparr>bc_enc_used := 102399\<rparr>))\<rparr>" 2 True 5 "[]"]
  by (auto simp: benches_ok_def bench_ok_def zero_bench_def CYCLES_NUM_AVG_def)



section \<open>Error concealment and the half-rate library\<close>

text \<open>
  C38: the concealment step passes a good frame on and remembers it, passes a bad frame (zero
  behind its first byte) on unchanged while there is no backup, and puts out the concealed frame
  otherwise; an error of the library is the result of the step.
\<close>

theorem concealment_exact:
  fixes L :: "'c codec_libs"
  assumes "libs_ok L" and "length fr = 33" and "length d = 33"
  shows "ecu_proc_fr L (Some (St_Ecu s)) (Some d) (Some fr) 33 w =
    (if \<exists>x \<in> set (tl fr). x \<noteq> 0
     then Inr (33, Some (St_Ecu (lib_ecu_reset L s fr)), Some fr, w)
     else if \<forall>x \<in> set (lib_ecu_backup L s). x = 0
     then Inr (33, Some (St_Ecu s), Some fr, w)
     else let (rc, s', x) = lib_ecu_conceal L s in Inr (if rc \<noteq> 0 then rc else 33, Some (St_Ecu s'), Some x, w))"
  using ecu_proc_fr_spec [OF assms(1), of fr d s w] assms(2,3) by (simp add: bad_frame_def drop_Suc)

theorem concealment_exact_witness:
  "ecu_proc_fr demo_libs (Some (St_Ecu ())) (Some (replicate 33 9)) (Some (0xd0 # replicate 32 0)) 33 demo_world =
     Inr (33, Some (St_Ecu ()), Some (0xd0 # replicate 32 0), demo_world)"
  using concealment_exact [OF demo_libs_ok, of "0xd0 # replicate 32 0" "replicate 33 9" "()" demo_world]
  by (simp add: demo_libs_def)

text \<open>
  C39: in a build without libgsm, adding the concealment unit for full rate dereferences the
  missing format; and when memory for its state is exhausted, the freed item stays in the queue,
  where adding the next item writes to it.
\<close>

theorem concealment_unit_faults:
  fixes w w2 :: "'x world" and pq :: "('c, 'x) queue"
  assumes "all_live (pq_items pq)" and "\<not> have_libgsm C" and "w_mem w = []" and "w_mem w2 = [True, False]"
  shows "pq_queue_ecu e T L pq (codec_fr_desc C L) w = Inl Null_Deref \<and>
    (\<exists>pq' w'. pq_queue_ecu e T L pq (codec_fr_desc C2 L) w2 = Inr (- ENOMEM, pq', w') \<and>
       pq_items pq' \<noteq> [] \<and> \<not> it_live (last (pq_items pq')) \<and> pq_add_item pq' w' = Inl Bad_State)"
  using ecu_without_libgsm [OF assms(2,3,1)] ecu_dangling [OF assms(4,1)] by blast

theorem concealment_unit_faults_witness:
  "pq_queue_ecu Little identity_tables demo_libs (empty_pq None :: (unit, unit) queue)
     (codec_fr_desc (demo_cfg\<lparr>have_libgsm := False\<rparr>) demo_libs) demo_world = Inl Null_Deref"
  using concealment_unit_faults [of "empty_pq None :: (unit, unit) queue" "demo_cfg\<lparr>have_libgsm := False\<rparr>" demo_world
      "demo_world\<lparr>w_mem := [True, False]\<rparr>" Little identity_tables demo_libs]
  by (simp add: empty_pq_def)

text \<open>
  C40: however calls of many instances of the half-rate codec are interleaved over the one static
  memory of the reference code, each instance gives the results, and ends in the state, that
  its own calls give alone, whatever the static memory held before.
\<close>

theorem instances_isolated:
  "filter (\<lambda>r. fst r = i) (fst (run_calls R cs m bss)) =
     fst (run_calls R (filter (\<lambda>c. fst c = i) cs) m bss2) \<and>
   snd (run_calls R cs m bss) i = snd (run_calls R (filter (\<lambda>c. fst c = i) cs) m bss2) i"
  by (rule run_calls_only) simp

end
